(* ===== verification/Lgtv_Prelude.thy ===== *)
theory Lgtv_Prelude
  imports Main "HOL-Library.Word"
begin

text \<open>
  What the components share: the machine integers, the error results, Rust's standard
  formatting (\<open>Display\<close> of booleans and integers, \<open>Debug\<close> of strings and options), the
  substring test of \<open>str::contains\<close>, and the message channels that connect the manager, the
  state machine task and the WebSocket task.

  The collections: \<open>chan_simps\<close> are the rewrite rules of the channels, \<open>manager_defs\<close>
  collects the definitions of the manager's operations, so that a component's proof unfolds
  them by name.
\<close>

named_theorems chan_simps "rewrite rules of the message channels"
named_theorems manager_defs "definitions of the manager's small operations"
named_theorems decode_defs "definitions of the payload decoders"

section \<open>Integers and results\<close>

type_synonym u8 = "8 word"
type_synonym u16 = "16 word"
type_synonym u64 = "64 word"
type_synonym i64 = "64 word"

text \<open>\<open>Result<T, String>\<close>: \<open>Inl\<close> holds the error, \<open>Inr\<close> the value.\<close>

type_synonym 'a result = "string + 'a"

text \<open>
  \<open>std::net::IpAddr\<close> by its two variants, and a MAC address of the \<open>macaddr\<close> crate by its
  bytes (six or eight of them).
\<close>

datatype IpAddr = V4 "32 word" | V6 "128 word"

datatype MacAddr = MacAddr "u8 list"

section \<open>Formatting\<close>

text \<open>Decimal digits of an unsigned integer, as \<open>Display\<close> prints them.\<close>

fun show_nat :: "nat \<Rightarrow> string" where
  "show_nat n =
     (if n < 10 then [char_of (48 + n)]
      else show_nat (n div 10) @ [char_of (48 + n mod 10)])"

declare show_nat.simps [simp del]

fun nat_of_digits :: "string \<Rightarrow> nat" where
  "nat_of_digits [] = 0"
| "nat_of_digits (c # cs) = (of_char c - 48) * 10 ^ length cs + nat_of_digits cs"

lemma nat_of_digits_append:
  "nat_of_digits (xs @ ys) = nat_of_digits xs * 10 ^ length ys + nat_of_digits ys"
  by (induction xs) (auto simp: algebra_simps power_add)

lemma nat_of_digits_show_nat [simp]: "nat_of_digits (show_nat n) = n"
proof (induction n rule: show_nat.induct)
  case (1 n)
  show ?case
  proof (cases "n < 10")
    case True
    then show ?thesis by (subst show_nat.simps) simp
  next
    case False
    with 1 show ?thesis by (subst show_nat.simps) (simp add: nat_of_digits_append)
  qed
qed

lemma show_nat_inject [simp]: "show_nat m = show_nat n \<longleftrightarrow> m = n"
  by (metis nat_of_digits_show_nat)

definition show_bool :: "bool \<Rightarrow> string" where
  "show_bool b = (if b then ''true'' else ''false'')"

lemma show_bool_inject [simp]: "show_bool a = show_bool b \<longleftrightarrow> a = b"
  by (cases a; cases b) (simp_all add: show_bool_def)

text \<open>
  \<open>Debug\<close> of a string: the text in double quotes, with the quote, the backslash and the
  control characters that have a short escape escaped. Bytes above 127 (the parts of a UTF-8
  sequence) are printed as they are; other control characters as \<open>\u{..}\<close>.
\<close>

definition hex_digit :: "nat \<Rightarrow> char" where
  "hex_digit n = (if n < 10 then char_of (48 + n) else char_of (87 + n))"

definition escape_debug :: "char \<Rightarrow> string" where
  "escape_debug c =
     (let n = (of_char c :: nat) in
      if n = 0 then [CHR 0x5C, CHR ''0'']
      else if n = 9 then [CHR 0x5C, CHR ''t'']
      else if n = 10 then [CHR 0x5C, CHR ''n'']
      else if n = 13 then [CHR 0x5C, CHR ''r'']
      else if n = 34 then [CHR 0x5C, CHR 0x22]
      else if n = 92 then [CHR 0x5C, CHR 0x5C]
      else if n < 32 \<or> n = 127 then
        [CHR 0x5C, CHR ''u'', CHR ''{''] @
        (if n < 16 then [hex_digit n] else [hex_digit (n div 16), hex_digit (n mod 16)]) @
        [CHR ''}'']
      else [c])"

definition debug_str :: "string \<Rightarrow> string" where
  "debug_str s = [CHR 0x22] @ concat (map escape_debug s) @ [CHR 0x22]"

definition debug_option :: "('a \<Rightarrow> string) \<Rightarrow> 'a option \<Rightarrow> string" where
  "debug_option f x = (case x of None \<Rightarrow> ''None'' | Some y \<Rightarrow> ''Some('' @ f y @ '')'')"

section \<open>Substrings\<close>

text \<open>\<open>haystack.contains(needle)\<close> and \<open>haystack.starts_with(needle)\<close> of \<open>str\<close>.\<close>

fun starts_with :: "string \<Rightarrow> string \<Rightarrow> bool" where
  "starts_with s [] = True"
| "starts_with [] (p # ps) = False"
| "starts_with (c # s) (p # ps) = (c = p \<and> starts_with s ps)"

fun str_contains :: "string \<Rightarrow> string \<Rightarrow> bool" where
  "str_contains [] p = (p = [])"
| "str_contains (c # s) p = (starts_with (c # s) p \<or> str_contains s p)"

lemma starts_with_iff: "starts_with s p \<longleftrightarrow> (\<exists>t. s = p @ t)"
  by (induction s p rule: starts_with.induct) auto

lemma str_contains_iff: "str_contains s p \<longleftrightarrow> (\<exists>pre post. s = pre @ p @ post)"
proof (induction s)
  case Nil
  then show ?case by auto
next
  case (Cons c s)
  show ?case
  proof
    assume "str_contains (c # s) p"
    then consider "starts_with (c # s) p" | "str_contains s p" by auto
    then show "\<exists>pre post. c # s = pre @ p @ post"
    proof cases
      case 1
      then obtain t where "c # s = [] @ p @ t" by (auto simp: starts_with_iff)
      then show ?thesis by blast
    next
      case 2
      then obtain pre post where "s = pre @ p @ post" using Cons.IH by blast
      then have "c # s = (c # pre) @ p @ post" by simp
      then show ?thesis by blast
    qed
  next
    assume "\<exists>pre post. c # s = pre @ p @ post"
    then obtain pre post where eq: "c # s = pre @ p @ post" by blast
    show "str_contains (c # s) p"
    proof (cases pre)
      case Nil
      with eq have "starts_with (c # s) p" by (auto simp: starts_with_iff)
      then show ?thesis by simp
    next
      case (Cons d pre')
      with eq have "s = pre' @ p @ post" by simp
      then have "str_contains s p" using Cons.IH by blast
      then show ?thesis by simp
    qed
  qed
qed

section \<open>Channels\<close>

text \<open>
  A tokio \<open>mpsc\<close> channel as its users see it: the messages sent and not yet received, oldest
  first, and whether the receiving half still exists. \<open>send\<close> fails exactly when it does not.
  A bounded channel also makes a sender wait while the channel is full; waiting changes neither
  the order nor the content of what is sent, and is not part of this model.
\<close>

record 'a chan =
  queue :: "'a list"
  rx_open :: bool

definition new_chan :: "'a chan" where
  "new_chan = \<lparr>queue = [], rx_open = True\<rparr>"

definition chan_send :: "'a chan \<Rightarrow> 'a \<Rightarrow> unit + 'a chan" where
  "chan_send c m = (if rx_open c then Inr (c\<lparr>queue := queue c @ [m]\<rparr>) else Inl ())"

definition chan_recv :: "'a chan \<Rightarrow> ('a \<times> 'a chan) option" where
  "chan_recv c = (case queue c of [] \<Rightarrow> None | m # ms \<Rightarrow> Some (m, c\<lparr>queue := ms\<rparr>))"

definition chan_close :: "'a chan \<Rightarrow> 'a chan" where
  "chan_close c = c\<lparr>queue := [], rx_open := False\<rparr>"

text \<open>
  The contract the components rely on: messages arrive in the order they were sent, none is
  lost or made up while the receiver exists, and a closed channel refuses every message.
\<close>

locale mpsc =
  fixes snd_msg :: "'c \<Rightarrow> 'm \<Rightarrow> unit + 'c"
    and rcv_msg :: "'c \<Rightarrow> ('m \<times> 'c) option"
    and pending :: "'c \<Rightarrow> 'm list"
    and alive :: "'c \<Rightarrow> bool"
  assumes send_ok: "alive c \<Longrightarrow> \<exists>c'. snd_msg c m = Inr c' \<and> pending c' = pending c @ [m] \<and> alive c'"
    and send_closed: "\<not> alive c \<Longrightarrow> snd_msg c m = Inl ()"
    and recv_empty: "pending c = [] \<Longrightarrow> rcv_msg c = None"
    and recv_cons: "pending c = m # ms \<Longrightarrow>
      \<exists>c'. rcv_msg c = Some (m, c') \<and> pending c' = ms \<and> alive c' = alive c"
begin

primrec send_all :: "'c \<Rightarrow> 'm list \<Rightarrow> 'c" where
  "send_all c [] = c"
| "send_all c (m # ms) = (case snd_msg c m of Inl _ \<Rightarrow> send_all c ms | Inr c' \<Rightarrow> send_all c' ms)"

primrec recv_n :: "nat \<Rightarrow> 'c \<Rightarrow> 'm list" where
  "recv_n 0 c = []"
| "recv_n (Suc n) c = (case rcv_msg c of None \<Rightarrow> [] | Some (m, c') \<Rightarrow> m # recv_n n c')"

lemma send_all_pending: "alive c \<Longrightarrow> pending (send_all c ms) = pending c @ ms \<and> alive (send_all c ms)"
proof (induction ms arbitrary: c)
  case Nil
  then show ?case by simp
next
  case (Cons m ms)
  from send_ok [OF Cons.prems] obtain c'
    where "snd_msg c m = Inr c'" "pending c' = pending c @ [m]" "alive c'" by blast
  with Cons.IH show ?case by simp
qed

lemma recv_n_take: "recv_n n c = take n (pending c)"
proof (induction n arbitrary: c)
  case 0
  then show ?case by simp
next
  case (Suc n)
  show ?case
  proof (cases "pending c")
    case Nil
    then show ?thesis by (simp add: recv_empty)
  next
    case (Cons m ms)
    from recv_cons [OF Cons] obtain c' where "rcv_msg c = Some (m, c')" "pending c' = ms" by blast
    with Suc Cons show ?thesis by simp
  qed
qed

lemma fifo: "alive c \<Longrightarrow> pending c = [] \<Longrightarrow> recv_n (length ms) (send_all c ms) = ms"
  by (simp add: recv_n_take send_all_pending)

lemma closed_refuses: "\<not> alive c \<Longrightarrow> send_all c ms = c"
  by (induction ms) (simp_all add: send_closed)

end

interpretation tokio: mpsc chan_send chan_recv queue rx_open
  by unfold_locales (auto simp: chan_send_def chan_recv_def)

lemma chan_send_open [chan_simps]:
  "rx_open c \<Longrightarrow> chan_send c m = Inr (c\<lparr>queue := queue c @ [m]\<rparr>)"
  by (simp add: chan_send_def)

lemma chan_send_closed [chan_simps]: "\<not> rx_open c \<Longrightarrow> chan_send c m = Inl ()"
  by (simp add: chan_send_def)

lemma new_chan_simps [chan_simps, simp]: "queue new_chan = []" "rx_open new_chan"
  by (simp_all add: new_chan_def)

end
