(* ===== verification/Json_Model.thy ===== *)
theory Json_Model
  imports Lgtv_Prelude "HOL-Library.Monad_Syntax"
begin

text \<open>
  JSON values as \<open>serde_json::Value\<close> has them, and what a \<open>#[derive(Deserialize)]\<close> on a struct
  means on such a value. The structs, their field names, which fields are optional and which
  structs deny unknown fields are declared in \<open>src/src/ssap_payloads.rs\<close>; the meaning of the
  attribute is serde's documented one:
  \<^item> a struct is read from an object by its field names, or from an array by position;
  \<^item> a key that is no field is ignored, unless the struct denies unknown fields; a field that
    occurs twice is an error;
  \<^item> an \<open>Option\<close> field may be missing or null, every other field must be there.
  The text of a JSON document (\<open>serde_json::from_str\<close> up to the value, \<open>to_string\<close>) is not
  modelled: the operations that use it take it as a parameter.
\<close>

section \<open>Values\<close>

datatype json =
    JNull
  | JBool bool
  | JInt int
  | JFloat string
  | JStr string
  | JArr "json list"
  | JObj "(string \<times> json) list"

text \<open>The key order of \<open>serde_json::Map\<close> (a B-tree map): bytewise.\<close>

fun str_less :: "string \<Rightarrow> string \<Rightarrow> bool" where
  "str_less _ [] = False"
| "str_less [] (_ # _) = True"
| "str_less (a # as) (b # bs) =
     ((of_char a :: nat) < of_char b \<or> (a = b \<and> str_less as bs))"

text \<open>\<open>Map::insert\<close>: replaces the value of a key, or adds the key in its place.\<close>

fun map_insert :: "string \<Rightarrow> json \<Rightarrow> (string \<times> json) list \<Rightarrow> (string \<times> json) list" where
  "map_insert k v [] = [(k, v)]"
| "map_insert k v ((k', v') # m) =
     (if k = k' then (k, v) # m
      else if str_less k k' then (k, v) # (k', v') # m
      else (k', v') # map_insert k v m)"

fun keys_sorted :: "(string \<times> json) list \<Rightarrow> bool" where
  "keys_sorted [] = True"
| "keys_sorted ((k, v) # m) = ((\<forall>k' \<in> fst ` set m. str_less k k') \<and> keys_sorted m)"

lemma str_less_irrefl [simp]: "\<not> str_less s s"
  by (induction s) auto

lemma str_less_trans: "str_less a b \<Longrightarrow> str_less b c \<Longrightarrow> str_less a c"
proof (induction a b arbitrary: c rule: str_less.induct)
  case (1 uu)
  then show ?case by simp
next
  case (2 b bs)
  then show ?case by (cases c) auto
next
  case (3 a as b bs)
  then show ?case by (cases c) auto
qed

lemma str_less_total: "a \<noteq> b \<Longrightarrow> \<not> str_less a b \<Longrightarrow> str_less b a"
proof (induction a b rule: str_less.induct)
  case (3 a as b bs)
  show ?case
  proof (cases "a = b")
    case True
    with 3 show ?thesis by auto
  next
    case False
    then have "(of_char a :: nat) \<noteq> of_char b" by simp
    then consider "(of_char a :: nat) < of_char b" | "(of_char b :: nat) < of_char a"
      by linarith
    then show ?thesis using 3 by cases auto
  qed
next
  case (1 s)
  then show ?case by (cases s) auto
qed auto

lemma keys_map_insert: "fst ` set (map_insert k v m) = insert k (fst ` set m)"
  by (induction k v m rule: map_insert.induct) auto

lemma keys_sorted_map_insert: "keys_sorted m \<Longrightarrow> keys_sorted (map_insert k v m)"
proof (induction k v m rule: map_insert.induct)
  case (1 k v)
  then show ?case by simp
next
  case (2 k v k' v' m)
  consider (eq) "k = k'" | (less) "k \<noteq> k'" "str_less k k'" | (greater) "k \<noteq> k'" "\<not> str_less k k'"
    by blast
  then show ?case
  proof cases
    case eq
    with 2 show ?thesis by simp
  next
    case less
    with 2 show ?thesis by (auto intro: str_less_trans)
  next
    case greater
    then have "str_less k' k" by (blast intro: str_less_total)
    with 2 greater show ?thesis by (auto simp: keys_map_insert)
  qed
qed

lemma map_of_map_insert:
  "keys_sorted m \<Longrightarrow> map_of (map_insert k v m) = (map_of m)(k \<mapsto> v)"
proof (induction k v m rule: map_insert.induct)
  case (1 k v)
  then show ?case by simp
next
  case (2 k v k' v' m)
  then show ?case by (auto simp: fun_eq_iff)
qed

section \<open>Primitive decoders\<close>

type_synonym 'a decoder = "json \<Rightarrow> 'a option"

fun de_bool :: "bool decoder" where
  "de_bool (JBool b) = Some b"
| "de_bool _ = None"

fun de_string :: "string decoder" where
  "de_string (JStr s) = Some s"
| "de_string _ = None"

lemma de_bool_SomeD: "de_bool j = Some b \<Longrightarrow> j = JBool b"
  by (cases j) simp_all

lemma de_string_SomeD: "de_string j = Some s \<Longrightarrow> j = JStr s"
  by (cases j) simp_all

fun de_u8 :: "u8 decoder" where
  "de_u8 (JInt i) = (if 0 \<le> i \<and> i < 256 then Some (word_of_int i) else None)"
| "de_u8 _ = None"

fun de_i64 :: "i64 decoder" where
  "de_i64 (JInt i) = (if - (2 ^ 63) \<le> i \<and> i < 2 ^ 63 then Some (word_of_int i) else None)"
| "de_i64 _ = None"

fun de_list :: "'a decoder \<Rightarrow> json list \<Rightarrow> 'a list option" where
  "de_list d [] = Some []"
| "de_list d (j # js) = do { x \<leftarrow> d j; xs \<leftarrow> de_list d js; Some (x # xs) }"

fun de_vec :: "'a decoder \<Rightarrow> 'a list decoder" where
  "de_vec d (JArr js) = de_list d js"
| "de_vec d _ = None"

section \<open>Structs\<close>

definition key_count :: "string \<Rightarrow> (string \<times> json) list \<Rightarrow> nat" where
  "key_count k m = length (filter (\<lambda>kv. fst kv = k) m)"

text \<open>
  The fields of a struct in a value: which value each field name has, or None when the value
  cannot be this struct at all. \<open>deny\<close> is \<open>deny_unknown_fields\<close>.
\<close>

fun fields_of :: "bool \<Rightarrow> string list \<Rightarrow> json \<Rightarrow> (string \<Rightarrow> json option) option" where
  "fields_of deny names (JObj m) =
     (if (\<exists>k \<in> set names. 1 < key_count k m) then None
      else if deny \<and> (\<exists>kv \<in> set m. fst kv \<notin> set names) then None
      else Some (\<lambda>k. if k \<in> set names then map_of m k else None))"
| "fields_of deny names (JArr js) =
     (if length js = length names then Some (map_of (zip names js)) else None)"
| "fields_of deny names _ = None"

definition req :: "(string \<Rightarrow> json option) \<Rightarrow> string \<Rightarrow> 'a decoder \<Rightarrow> 'a option" where
  "req f k d = (case f k of None \<Rightarrow> None | Some j \<Rightarrow> d j)"

definition de_option :: "'a decoder \<Rightarrow> 'a option decoder" where
  "de_option d j = (if j = JNull then Some None else map_option Some (d j))"

definition opt :: "(string \<Rightarrow> json option) \<Rightarrow> string \<Rightarrow> 'a decoder \<Rightarrow> 'a option option" where
  "opt f k d = (case f k of None \<Rightarrow> Some None | Some j \<Rightarrow> de_option d j)"

declare fields_of.simps [simp del]

lemma req_SomeD: "req f k d = Some x \<Longrightarrow> \<exists>j. f k = Some j \<and> d j = Some x"
  by (auto simp: req_def split: option.splits)

lemma req_None [simp]: "f k = None \<Longrightarrow> req f k d = None"
  by (simp add: req_def)

lemma opt_missing [simp]: "f k = None \<Longrightarrow> opt f k d = Some None"
  by (simp add: opt_def)

lemma key_count_zero: "k \<notin> fst ` set m \<Longrightarrow> key_count k m = 0"
  by (force simp: key_count_def filter_empty_conv)

lemma map_of_key: "k \<notin> fst ` set m \<Longrightarrow> map_of m k = None"
  by (simp add: map_of_eq_None_iff)

text \<open>The first of several decoders that succeeds: \<open>#[serde(untagged)]\<close>.\<close>

fun first_of :: "'a decoder list \<Rightarrow> 'a decoder" where
  "first_of [] j = None"
| "first_of (d # ds) j = (case d j of Some x \<Rightarrow> Some x | None \<Rightarrow> first_of ds j)"

lemma first_of_append: "first_of (ds @ es) j =
    (case first_of ds j of Some x \<Rightarrow> Some x | None \<Rightarrow> first_of es j)"
  by (induction ds) (auto split: option.splits)

lemma first_of_SomeD: "first_of ds j = Some x \<Longrightarrow> \<exists>d \<in> set ds. d j = Some x"
  by (induction ds) (auto split: option.splits)

end
