(* ===== verification/Ssap_Payloads.thy ===== *)
theory Ssap_Payloads
  imports Json_Model
begin

text \<open>
  \<open>src/src/ssap_payloads.rs\<close>: the requests sent to the TV and the responses read from it. Each
  struct is a record, each enum a datatype with the source's constructors; \<open>de_X\<close> is what the
  derived \<open>Deserialize\<close> of \<open>X\<close> reads from a JSON value, \<open>json_of_LgTvRequest\<close> what the derived
  \<open>Serialize\<close> of a request writes.
\<close>

section \<open>Requests\<close>

datatype LgTvRequestType = Register | Request | Subscribe

record LgTvRequest =
  rq_type :: LgTvRequestType
  rq_id :: string
  rq_uri :: "string option"
  rq_payload :: "json option"

text \<open>\<open>rename_all = "lowercase"\<close>.\<close>

primrec request_type_name :: "LgTvRequestType \<Rightarrow> string" where
  "request_type_name Register = ''register''"
| "request_type_name Request = ''request''"
| "request_type_name Subscribe = ''subscribe''"

definition json_opt :: "('a \<Rightarrow> json) \<Rightarrow> 'a option \<Rightarrow> json" where
  "json_opt f x = (case x of None \<Rightarrow> JNull | Some y \<Rightarrow> f y)"

definition json_of_LgTvRequest :: "LgTvRequest \<Rightarrow> json" where
  "json_of_LgTvRequest r =
     JObj [(''type'', JStr (request_type_name (rq_type r))),
           (''id'', JStr (rq_id r)),
           (''uri'', json_opt JStr (rq_uri r)),
           (''payload'', json_opt id (rq_payload r))]"

definition LgTvRequest_fields :: "string list" where
  [decode_defs]: "LgTvRequest_fields = [''type'', ''id'', ''uri'', ''payload'']"

definition de_LgTvRequestType :: "LgTvRequestType decoder" where
  "de_LgTvRequestType j = (case de_string j of
       None \<Rightarrow> None
     | Some s \<Rightarrow>
         if s = ''register'' then Some Register
         else if s = ''request'' then Some Request
         else if s = ''subscribe'' then Some Subscribe
         else None)"

definition de_LgTvRequest :: "LgTvRequest decoder" where
  [decode_defs]: "de_LgTvRequest j = do {
     f \<leftarrow> fields_of False LgTvRequest_fields j;
     t \<leftarrow> req f ''type'' de_LgTvRequestType;
     i \<leftarrow> req f ''id'' de_string;
     u \<leftarrow> opt f ''uri'' de_string;
     p \<leftarrow> opt f ''payload'' Some;
     Some \<lparr>rq_type = t, rq_id = i, rq_uri = u, rq_payload = p\<rparr> }"

section \<open>Payloads of responses\<close>

record CurrentSwInfoPayload =
  sw_return_value :: bool
  sw_product_name :: string
  sw_model_name :: string
  sw_sw_type :: string
  sw_major_ver :: string
  sw_minor_ver :: string
  sw_country :: string
  sw_country_group :: string
  sw_device_id :: string
  sw_auth_flag :: string
  sw_ignore_disable :: string
  sw_eco_info :: string
  sw_config_key :: string
  sw_language_code :: string

definition CurrentSwInfoPayload_fields :: "string list" where
  [decode_defs]: "CurrentSwInfoPayload_fields =
    [''returnValue'', ''product_name'', ''model_name'', ''sw_type'', ''major_ver'',
     ''minor_ver'', ''country'', ''country_group'', ''device_id'', ''auth_flag'',
     ''ignore_disable'', ''eco_info'', ''config_key'', ''language_code'']"

definition de_CurrentSwInfoPayload :: "CurrentSwInfoPayload decoder" where
  [decode_defs]: "de_CurrentSwInfoPayload j = do {
     f \<leftarrow> fields_of False CurrentSwInfoPayload_fields j;
     rv \<leftarrow> req f ''returnValue'' de_bool;
     pn \<leftarrow> req f ''product_name'' de_string;
     mn \<leftarrow> req f ''model_name'' de_string;
     st \<leftarrow> req f ''sw_type'' de_string;
     mav \<leftarrow> req f ''major_ver'' de_string;
     miv \<leftarrow> req f ''minor_ver'' de_string;
     co \<leftarrow> req f ''country'' de_string;
     cg \<leftarrow> req f ''country_group'' de_string;
     di \<leftarrow> req f ''device_id'' de_string;
     af \<leftarrow> req f ''auth_flag'' de_string;
     igd \<leftarrow> req f ''ignore_disable'' de_string;
     ei \<leftarrow> req f ''eco_info'' de_string;
     ck \<leftarrow> req f ''config_key'' de_string;
     lc \<leftarrow> req f ''language_code'' de_string;
     Some \<lparr>sw_return_value = rv, sw_product_name = pn, sw_model_name = mn, sw_sw_type = st,
           sw_major_ver = mav, sw_minor_ver = miv, sw_country = co, sw_country_group = cg,
           sw_device_id = di, sw_auth_flag = af, sw_ignore_disable = igd, sw_eco_info = ei,
           sw_config_key = ck, sw_language_code = lc\<rparr> }"

record ExternalInput =
  ei_id :: string
  ei_label :: string
  ei_port :: i64
  ei_connected :: bool
  ei_app_id :: "string option"
  ei_icon :: "string option"
  ei_force_icon :: "bool option"
  ei_modified :: "bool option"
  ei_last_unique_id :: "i64 option"
  ei_hdmi_plug_in :: "bool option"
  ei_sub_count :: "i64 option"
  ei_favorite :: "bool option"

definition ExternalInput_fields :: "string list" where
  [decode_defs]: "ExternalInput_fields =
    [''id'', ''label'', ''port'', ''connected'', ''appId'', ''icon'', ''forceIcon'',
     ''modified'', ''lastUniqueId'', ''hdmiPlugIn'', ''subCount'', ''favorite'']"

definition de_ExternalInput :: "ExternalInput decoder" where
  [decode_defs]: "de_ExternalInput j = do {
     f \<leftarrow> fields_of False ExternalInput_fields j;
     i \<leftarrow> req f ''id'' de_string;
     l \<leftarrow> req f ''label'' de_string;
     p \<leftarrow> req f ''port'' de_i64;
     c \<leftarrow> req f ''connected'' de_bool;
     ai \<leftarrow> opt f ''appId'' de_string;
     ic \<leftarrow> opt f ''icon'' de_string;
     fi \<leftarrow> opt f ''forceIcon'' de_bool;
     m \<leftarrow> opt f ''modified'' de_bool;
     lu \<leftarrow> opt f ''lastUniqueId'' de_i64;
     hp \<leftarrow> opt f ''hdmiPlugIn'' de_bool;
     sc \<leftarrow> opt f ''subCount'' de_i64;
     fav \<leftarrow> opt f ''favorite'' de_bool;
     Some \<lparr>ei_id = i, ei_label = l, ei_port = p, ei_connected = c, ei_app_id = ai, ei_icon = ic,
           ei_force_icon = fi, ei_modified = m, ei_last_unique_id = lu, ei_hdmi_plug_in = hp,
           ei_sub_count = sc, ei_favorite = fav\<rparr> }"

record GetExternalInputListPayload =
  gei_return_value :: bool
  gei_devices :: "ExternalInput list"

definition GetExternalInputListPayload_fields :: "string list" where
  [decode_defs]: "GetExternalInputListPayload_fields =
    [''returnValue'', ''devices'']"

definition de_GetExternalInputListPayload :: "GetExternalInputListPayload decoder" where
  [decode_defs]: "de_GetExternalInputListPayload j = do {
     f \<leftarrow> fields_of False GetExternalInputListPayload_fields j;
     rv \<leftarrow> req f ''returnValue'' de_bool;
     ds \<leftarrow> req f ''devices'' (de_vec de_ExternalInput);
     Some \<lparr>gei_return_value = rv, gei_devices = ds\<rparr> }"

record GetPowerStatePayload =
  gps_state :: string
  gps_processing :: "string option"
  gps_return_value :: bool

definition GetPowerStatePayload_fields :: "string list" where
  [decode_defs]: "GetPowerStatePayload_fields =
    [''state'', ''processing'', ''returnValue'']"

definition de_GetPowerStatePayload :: "GetPowerStatePayload decoder" where
  [decode_defs]: "de_GetPowerStatePayload j = do {
     f \<leftarrow> fields_of False GetPowerStatePayload_fields j;
     s \<leftarrow> req f ''state'' de_string;
     p \<leftarrow> opt f ''processing'' de_string;
     rv \<leftarrow> req f ''returnValue'' de_bool;
     Some \<lparr>gps_state = s, gps_processing = p, gps_return_value = rv\<rparr> }"

record Features =
  ft_three_d :: "bool option"
  ft_dvr :: "bool option"

definition Features_fields :: "string list" where
  [decode_defs]: "Features_fields =
    [''3d'', ''dvr'']"

definition de_Features :: "Features decoder" where
  [decode_defs]: "de_Features j = do {
     f \<leftarrow> fields_of False Features_fields j;
     t \<leftarrow> opt f ''3d'' de_bool;
     d \<leftarrow> opt f ''dvr'' de_bool;
     Some \<lparr>ft_three_d = t, ft_dvr = d\<rparr> }"

record GetSystemInfoPayload =
  gsi_return_value :: bool
  gsi_features :: "Features option"
  gsi_receiver_type :: string
  gsi_model_name :: string
  gsi_serial_number :: "string option"
  gsi_program_mode :: bool

definition GetSystemInfoPayload_fields :: "string list" where
  [decode_defs]: "GetSystemInfoPayload_fields =
    [''returnValue'', ''features'', ''receiverType'', ''modelName'', ''serialNumber'',
     ''programMode'']"

definition de_GetSystemInfoPayload :: "GetSystemInfoPayload decoder" where
  [decode_defs]: "de_GetSystemInfoPayload j = do {
     f \<leftarrow> fields_of False GetSystemInfoPayload_fields j;
     rv \<leftarrow> req f ''returnValue'' de_bool;
     fe \<leftarrow> opt f ''features'' de_Features;
     rt \<leftarrow> req f ''receiverType'' de_string;
     mn \<leftarrow> req f ''modelName'' de_string;
     sn \<leftarrow> opt f ''serialNumber'' de_string;
     pm \<leftarrow> req f ''programMode'' de_bool;
     Some \<lparr>gsi_return_value = rv, gsi_features = fe, gsi_receiver_type = rt, gsi_model_name = mn,
           gsi_serial_number = sn, gsi_program_mode = pm\<rparr> }"

record VolumeStatusVariantA =
  vsa_volume_limitable :: "bool option"
  vsa_active_status :: "bool option"
  vsa_max_volume :: u8
  vsa_volume_limiter :: "string option"
  vsa_sound_output :: "string option"
  vsa_volume :: u8
  vsa_cause :: "string option"
  vsa_mode :: "string option"
  vsa_external_device_control :: "bool option"
  vsa_mute_status :: bool
  vsa_volume_syncable :: "bool option"
  vsa_adjust_volume :: bool

definition VolumeStatusVariantA_fields :: "string list" where
  [decode_defs]: "VolumeStatusVariantA_fields =
    [''volumeLimitable'', ''activeStatus'', ''maxVolume'', ''volumeLimiter'', ''soundOutput'',
     ''volume'', ''cause'', ''mode'', ''externalDeviceControl'', ''muteStatus'',
     ''volumeSyncable'', ''adjustVolume'']"

definition de_VolumeStatusVariantA :: "VolumeStatusVariantA decoder" where
  [decode_defs]: "de_VolumeStatusVariantA j = do {
     f \<leftarrow> fields_of False VolumeStatusVariantA_fields j;
     vl \<leftarrow> opt f ''volumeLimitable'' de_bool;
     as' \<leftarrow> opt f ''activeStatus'' de_bool;
     mv \<leftarrow> req f ''maxVolume'' de_u8;
     vlr \<leftarrow> opt f ''volumeLimiter'' de_string;
     so \<leftarrow> opt f ''soundOutput'' de_string;
     v \<leftarrow> req f ''volume'' de_u8;
     ca \<leftarrow> opt f ''cause'' de_string;
     mo \<leftarrow> opt f ''mode'' de_string;
     ed \<leftarrow> opt f ''externalDeviceControl'' de_bool;
     ms \<leftarrow> req f ''muteStatus'' de_bool;
     vs \<leftarrow> opt f ''volumeSyncable'' de_bool;
     av \<leftarrow> req f ''adjustVolume'' de_bool;
     Some \<lparr>vsa_volume_limitable = vl, vsa_active_status = as', vsa_max_volume = mv,
           vsa_volume_limiter = vlr, vsa_sound_output = so, vsa_volume = v, vsa_cause = ca,
           vsa_mode = mo, vsa_external_device_control = ed, vsa_mute_status = ms,
           vsa_volume_syncable = vs, vsa_adjust_volume = av\<rparr> }"

record GetVolumePayloadVariantA =
  gva_return_value :: bool
  gva_volume_status :: VolumeStatusVariantA
  gva_caller_id :: "string option"

definition GetVolumePayloadVariantA_fields :: "string list" where
  [decode_defs]: "GetVolumePayloadVariantA_fields =
    [''returnValue'', ''volumeStatus'', ''callerId'']"

definition de_GetVolumePayloadVariantA :: "GetVolumePayloadVariantA decoder" where
  [decode_defs]: "de_GetVolumePayloadVariantA j = do {
     f \<leftarrow> fields_of False GetVolumePayloadVariantA_fields j;
     rv \<leftarrow> req f ''returnValue'' de_bool;
     vs \<leftarrow> req f ''volumeStatus'' de_VolumeStatusVariantA;
     ci \<leftarrow> opt f ''callerId'' de_string;
     Some \<lparr>gva_return_value = rv, gva_volume_status = vs, gva_caller_id = ci\<rparr> }"

record GetVolumePayloadVariantB =
  gvb_return_value :: bool
  gvb_volume_max :: u8
  gvb_ringtonewithvibration :: "bool option"
  gvb_scenario :: "string option"
  gvb_muted :: bool
  gvb_hac :: "bool option"
  gvb_subscribed :: "bool option"
  gvb_volume :: u8
  gvb_action :: "string option"
  gvb_supportvolume :: bool
  gvb_ringer_switch :: "bool option"
  gvb_slider :: "bool option"
  gvb_active :: "bool option"

definition GetVolumePayloadVariantB_fields :: "string list" where
  [decode_defs]: "GetVolumePayloadVariantB_fields =
    [''returnValue'', ''volumeMax'', ''ringtonewithvibration'', ''scenario'', ''muted'',
     ''hac'', ''subscribed'', ''volume'', ''action'', ''supportvolume'', ''ringer switch'',
     ''slider'', ''active'']"

definition de_GetVolumePayloadVariantB :: "GetVolumePayloadVariantB decoder" where
  [decode_defs]: "de_GetVolumePayloadVariantB j = do {
     f \<leftarrow> fields_of False GetVolumePayloadVariantB_fields j;
     rv \<leftarrow> req f ''returnValue'' de_bool;
     vm \<leftarrow> req f ''volumeMax'' de_u8;
     rg \<leftarrow> opt f ''ringtonewithvibration'' de_bool;
     sc \<leftarrow> opt f ''scenario'' de_string;
     mu \<leftarrow> req f ''muted'' de_bool;
     ha \<leftarrow> opt f ''hac'' de_bool;
     su \<leftarrow> opt f ''subscribed'' de_bool;
     v \<leftarrow> req f ''volume'' de_u8;
     ac \<leftarrow> opt f ''action'' de_string;
     sv \<leftarrow> req f ''supportvolume'' de_bool;
     rs \<leftarrow> opt f ''ringer switch'' de_bool;
     sl \<leftarrow> opt f ''slider'' de_bool;
     at \<leftarrow> opt f ''active'' de_bool;
     Some \<lparr>gvb_return_value = rv, gvb_volume_max = vm, gvb_ringtonewithvibration = rg,
           gvb_scenario = sc, gvb_muted = mu, gvb_hac = ha, gvb_subscribed = su, gvb_volume = v,
           gvb_action = ac, gvb_supportvolume = sv, gvb_ringer_switch = rs, gvb_slider = sl,
           gvb_active = at\<rparr> }"

record PairPayload =
  pr_pairing_type :: string
  pr_return_value :: bool

definition PairPayload_fields :: "string list" where
  [decode_defs]: "PairPayload_fields =
    [''pairingType'', ''returnValue'']"

definition de_PairPayload :: "PairPayload decoder" where
  [decode_defs]: "de_PairPayload j = do {
     f \<leftarrow> fields_of False PairPayload_fields j;
     pt \<leftarrow> req f ''pairingType'' de_string;
     rv \<leftarrow> req f ''returnValue'' de_bool;
     Some \<lparr>pr_pairing_type = pt, pr_return_value = rv\<rparr> }"

record PlainReturnValuePayload =
  prv_return_value :: bool

definition PlainReturnValuePayload_fields :: "string list" where
  [decode_defs]: "PlainReturnValuePayload_fields =
    [''returnValue'']"

definition de_PlainReturnValuePayload :: "PlainReturnValuePayload decoder" where
  [decode_defs]: "de_PlainReturnValuePayload j = do {
     f \<leftarrow> fields_of True PlainReturnValuePayload_fields j;
     rv \<leftarrow> req f ''returnValue'' de_bool;
     Some \<lparr>prv_return_value = rv\<rparr> }"

record SetMutePayload =
  sm_return_value :: bool
  sm_mute_status :: bool
  sm_sound_output :: string

definition SetMutePayload_fields :: "string list" where
  [decode_defs]: "SetMutePayload_fields =
    [''returnValue'', ''muteStatus'', ''soundOutput'']"

definition de_SetMutePayload :: "SetMutePayload decoder" where
  [decode_defs]: "de_SetMutePayload j = do {
     f \<leftarrow> fields_of False SetMutePayload_fields j;
     rv \<leftarrow> req f ''returnValue'' de_bool;
     ms \<leftarrow> req f ''muteStatus'' de_bool;
     so \<leftarrow> req f ''soundOutput'' de_string;
     Some \<lparr>sm_return_value = rv, sm_mute_status = ms, sm_sound_output = so\<rparr> }"

record SetScreenOnPayload =
  sso_return_value :: bool
  sso_state :: string

definition SetScreenOnPayload_fields :: "string list" where
  [decode_defs]: "SetScreenOnPayload_fields =
    [''returnValue'', ''state'']"

definition de_SetScreenOnPayload :: "SetScreenOnPayload decoder" where
  [decode_defs]: "de_SetScreenOnPayload j = do {
     f \<leftarrow> fields_of False SetScreenOnPayload_fields j;
     rv \<leftarrow> req f ''returnValue'' de_bool;
     s \<leftarrow> req f ''state'' de_string;
     Some \<lparr>sso_return_value = rv, sso_state = s\<rparr> }"

record SetVolumePayload =
  sv_return_value :: bool
  sv_volume :: u8
  sv_sound_output :: string

definition SetVolumePayload_fields :: "string list" where
  [decode_defs]: "SetVolumePayload_fields =
    [''returnValue'', ''volume'', ''soundOutput'']"

definition de_SetVolumePayload :: "SetVolumePayload decoder" where
  [decode_defs]: "de_SetVolumePayload j = do {
     f \<leftarrow> fields_of False SetVolumePayload_fields j;
     rv \<leftarrow> req f ''returnValue'' de_bool;
     v \<leftarrow> req f ''volume'' de_u8;
     so \<leftarrow> req f ''soundOutput'' de_string;
     Some \<lparr>sv_return_value = rv, sv_volume = v, sv_sound_output = so\<rparr> }"

text \<open>The untagged enum: the variants are tried in the order of their declaration.\<close>

datatype LgTvResponsePayload =
    CurrentSwInfo CurrentSwInfoPayload
  | GetExternalInputList GetExternalInputListPayload
  | GetPowerState GetPowerStatePayload
  | GetSystemInfo GetSystemInfoPayload
  | GetVolumeVariantA GetVolumePayloadVariantA
  | GetVolumeVariantB GetVolumePayloadVariantB
  | Pair PairPayload
  | PlainReturnValue PlainReturnValuePayload
  | SetMute SetMutePayload
  | SetScreenOn SetScreenOnPayload
  | SetVolume SetVolumePayload

definition as_variant :: "('a \<Rightarrow> 'b) \<Rightarrow> 'a decoder \<Rightarrow> 'b decoder" where
  "as_variant c d j = map_option c (d j)"

definition de_LgTvResponsePayload :: "LgTvResponsePayload decoder" where
  "de_LgTvResponsePayload = first_of
     [as_variant CurrentSwInfo de_CurrentSwInfoPayload,
      as_variant GetExternalInputList de_GetExternalInputListPayload,
      as_variant GetPowerState de_GetPowerStatePayload,
      as_variant GetSystemInfo de_GetSystemInfoPayload,
      as_variant GetVolumeVariantA de_GetVolumePayloadVariantA,
      as_variant GetVolumeVariantB de_GetVolumePayloadVariantB,
      as_variant Pair de_PairPayload,
      as_variant PlainReturnValue de_PlainReturnValuePayload,
      as_variant SetMute de_SetMutePayload,
      as_variant SetScreenOn de_SetScreenOnPayload,
      as_variant SetVolume de_SetVolumePayload]"

section \<open>Responses\<close>

text \<open>\<open>ErrorPayload\<close> is a struct without fields.\<close>

type_synonym ErrorPayload = unit

record LgTvErrorResponse =
  er_id :: string
  er_error :: "string option"
  er_payload :: ErrorPayload

record RegisteredPayload =
  rp_client_key :: string

record LgTvRegisteredResponse =
  rr_id :: string
  rr_payload :: RegisteredPayload

record LgTvCommandResponse =
  cr_id :: string
  cr_payload :: LgTvResponsePayload

datatype LgTvResponse =
    Error LgTvErrorResponse
  | Registered LgTvRegisteredResponse
  | Command LgTvCommandResponse

definition ErrorPayload_fields :: "string list" where
  [decode_defs]: "ErrorPayload_fields = []"

definition de_ErrorPayload :: "ErrorPayload decoder" where
  [decode_defs]: "de_ErrorPayload j = do { f \<leftarrow> fields_of True ErrorPayload_fields j; Some () }"

definition LgTvErrorResponse_fields :: "string list" where
  [decode_defs]: "LgTvErrorResponse_fields =
    [''id'', ''error'', ''payload'']"

definition de_LgTvErrorResponse :: "LgTvErrorResponse decoder" where
  [decode_defs]: "de_LgTvErrorResponse j = do {
     f \<leftarrow> fields_of False LgTvErrorResponse_fields j;
     i \<leftarrow> req f ''id'' de_string;
     e \<leftarrow> opt f ''error'' de_string;
     p \<leftarrow> req f ''payload'' de_ErrorPayload;
     Some \<lparr>er_id = i, er_error = e, er_payload = p\<rparr> }"

definition RegisteredPayload_fields :: "string list" where
  [decode_defs]: "RegisteredPayload_fields =
    [''client-key'']"

definition de_RegisteredPayload :: "RegisteredPayload decoder" where
  [decode_defs]: "de_RegisteredPayload j = do {
     f \<leftarrow> fields_of False RegisteredPayload_fields j;
     k \<leftarrow> req f ''client-key'' de_string;
     Some \<lparr>rp_client_key = k\<rparr> }"

definition LgTvRegisteredResponse_fields :: "string list" where
  [decode_defs]: "LgTvRegisteredResponse_fields =
    [''id'', ''payload'']"

definition de_LgTvRegisteredResponse :: "LgTvRegisteredResponse decoder" where
  [decode_defs]: "de_LgTvRegisteredResponse j = do {
     f \<leftarrow> fields_of False LgTvRegisteredResponse_fields j;
     i \<leftarrow> req f ''id'' de_string;
     p \<leftarrow> req f ''payload'' de_RegisteredPayload;
     Some \<lparr>rr_id = i, rr_payload = p\<rparr> }"

definition LgTvCommandResponse_fields :: "string list" where
  [decode_defs]: "LgTvCommandResponse_fields =
    [''id'', ''payload'']"

definition de_LgTvCommandResponse :: "LgTvCommandResponse decoder" where
  [decode_defs]: "de_LgTvCommandResponse j = do {
     f \<leftarrow> fields_of False LgTvCommandResponse_fields j;
     i \<leftarrow> req f ''id'' de_string;
     p \<leftarrow> req f ''payload'' de_LgTvResponsePayload;
     Some \<lparr>cr_id = i, cr_payload = p\<rparr> }"

text \<open>
  \<open>tag = "type"\<close>: the tag is the value of the key \<open>type\<close> of an object (once, and a string) or
  the first element of an array; the rest of the value is the content of the variant it names.
\<close>

fun tag_and_content :: "json \<Rightarrow> (string \<times> json) option" where
  "tag_and_content (JObj m) =
     (if key_count ''type'' m = 1
      then (case map_of m ''type'' of
              Some (JStr t) \<Rightarrow> Some (t, JObj (filter (\<lambda>kv. fst kv \<noteq> ''type'') m))
            | _ \<Rightarrow> None)
      else None)"
| "tag_and_content (JArr (JStr t # js)) = Some (t, JArr js)"
| "tag_and_content _ = None"

definition de_LgTvResponse :: "LgTvResponse decoder" where
  "de_LgTvResponse j = (case tag_and_content j of
       None \<Rightarrow> None
     | Some (t, c) \<Rightarrow>
         if t = ''error'' then map_option Error (de_LgTvErrorResponse c)
         else if t = ''registered'' then map_option Registered (de_LgTvRegisteredResponse c)
         else if t = ''response'' then map_option Command (de_LgTvCommandResponse c)
         else None)"

end
