(* ===== verification/Ssap_Codec.thy ===== *)
theory Ssap_Codec
  imports Ssap_Payloads
begin

text \<open>
  The derived \<open>Serialize\<close> of the response payloads of \<open>src/src/ssap_payloads.rs\<close> (an untagged
  enum writes the payload of its variant) and what reading it back gives. The lemmas about single
  structs are stated for every object, so that they also decide which variant of
  \<open>LgTvResponsePayload\<close> an object sent by a TV becomes.
\<close>

section \<open>Encoders\<close>

definition json_struct :: "string list \<Rightarrow> json list \<Rightarrow> json" where
  "json_struct names vs = JObj (zip names vs)"

definition en_u8 :: "u8 \<Rightarrow> json" where
  "en_u8 w = JInt (uint w)"

definition en_i64 :: "i64 \<Rightarrow> json" where
  "en_i64 w = JInt (sint w)"

definition en_CurrentSwInfoPayload :: "CurrentSwInfoPayload \<Rightarrow> json" where
  "en_CurrentSwInfoPayload p = json_struct CurrentSwInfoPayload_fields
     [JBool (sw_return_value p), JStr (sw_product_name p), JStr (sw_model_name p),
      JStr (sw_sw_type p), JStr (sw_major_ver p), JStr (sw_minor_ver p), JStr (sw_country p),
      JStr (sw_country_group p), JStr (sw_device_id p), JStr (sw_auth_flag p),
      JStr (sw_ignore_disable p), JStr (sw_eco_info p), JStr (sw_config_key p),
      JStr (sw_language_code p)]"

definition en_ExternalInput :: "ExternalInput \<Rightarrow> json" where
  "en_ExternalInput e = json_struct ExternalInput_fields
     [JStr (ei_id e), JStr (ei_label e), en_i64 (ei_port e), JBool (ei_connected e),
      json_opt JStr (ei_app_id e), json_opt JStr (ei_icon e), json_opt JBool (ei_force_icon e),
      json_opt JBool (ei_modified e), json_opt en_i64 (ei_last_unique_id e),
      json_opt JBool (ei_hdmi_plug_in e), json_opt en_i64 (ei_sub_count e),
      json_opt JBool (ei_favorite e)]"

definition en_GetExternalInputListPayload :: "GetExternalInputListPayload \<Rightarrow> json" where
  "en_GetExternalInputListPayload p = json_struct GetExternalInputListPayload_fields
     [JBool (gei_return_value p), JArr (map en_ExternalInput (gei_devices p))]"

definition en_GetPowerStatePayload :: "GetPowerStatePayload \<Rightarrow> json" where
  "en_GetPowerStatePayload p = json_struct GetPowerStatePayload_fields
     [JStr (gps_state p), json_opt JStr (gps_processing p), JBool (gps_return_value p)]"

definition en_Features :: "Features \<Rightarrow> json" where
  "en_Features p = json_struct Features_fields
     [json_opt JBool (ft_three_d p), json_opt JBool (ft_dvr p)]"

definition en_GetSystemInfoPayload :: "GetSystemInfoPayload \<Rightarrow> json" where
  "en_GetSystemInfoPayload p = json_struct GetSystemInfoPayload_fields
     [JBool (gsi_return_value p), json_opt en_Features (gsi_features p),
      JStr (gsi_receiver_type p), JStr (gsi_model_name p), json_opt JStr (gsi_serial_number p),
      JBool (gsi_program_mode p)]"

definition en_VolumeStatusVariantA :: "VolumeStatusVariantA \<Rightarrow> json" where
  "en_VolumeStatusVariantA p = json_struct VolumeStatusVariantA_fields
     [json_opt JBool (vsa_volume_limitable p), json_opt JBool (vsa_active_status p),
      en_u8 (vsa_max_volume p), json_opt JStr (vsa_volume_limiter p),
      json_opt JStr (vsa_sound_output p), en_u8 (vsa_volume p), json_opt JStr (vsa_cause p),
      json_opt JStr (vsa_mode p), json_opt JBool (vsa_external_device_control p),
      JBool (vsa_mute_status p), json_opt JBool (vsa_volume_syncable p),
      JBool (vsa_adjust_volume p)]"

definition en_GetVolumePayloadVariantA :: "GetVolumePayloadVariantA \<Rightarrow> json" where
  "en_GetVolumePayloadVariantA p = json_struct GetVolumePayloadVariantA_fields
     [JBool (gva_return_value p), en_VolumeStatusVariantA (gva_volume_status p),
      json_opt JStr (gva_caller_id p)]"

definition en_GetVolumePayloadVariantB :: "GetVolumePayloadVariantB \<Rightarrow> json" where
  "en_GetVolumePayloadVariantB p = json_struct GetVolumePayloadVariantB_fields
     [JBool (gvb_return_value p), en_u8 (gvb_volume_max p),
      json_opt JBool (gvb_ringtonewithvibration p), json_opt JStr (gvb_scenario p),
      JBool (gvb_muted p), json_opt JBool (gvb_hac p), json_opt JBool (gvb_subscribed p),
      en_u8 (gvb_volume p), json_opt JStr (gvb_action p), JBool (gvb_supportvolume p),
      json_opt JBool (gvb_ringer_switch p), json_opt JBool (gvb_slider p),
      json_opt JBool (gvb_active p)]"

definition en_PairPayload :: "PairPayload \<Rightarrow> json" where
  "en_PairPayload p = json_struct PairPayload_fields
     [JStr (pr_pairing_type p), JBool (pr_return_value p)]"

definition en_PlainReturnValuePayload :: "PlainReturnValuePayload \<Rightarrow> json" where
  "en_PlainReturnValuePayload p = json_struct PlainReturnValuePayload_fields
     [JBool (prv_return_value p)]"

definition en_SetMutePayload :: "SetMutePayload \<Rightarrow> json" where
  "en_SetMutePayload p = json_struct SetMutePayload_fields
     [JBool (sm_return_value p), JBool (sm_mute_status p), JStr (sm_sound_output p)]"

definition en_SetScreenOnPayload :: "SetScreenOnPayload \<Rightarrow> json" where
  "en_SetScreenOnPayload p = json_struct SetScreenOnPayload_fields
     [JBool (sso_return_value p), JStr (sso_state p)]"

definition en_SetVolumePayload :: "SetVolumePayload \<Rightarrow> json" where
  "en_SetVolumePayload p = json_struct SetVolumePayload_fields
     [JBool (sv_return_value p), en_u8 (sv_volume p), JStr (sv_sound_output p)]"

primrec en_LgTvResponsePayload :: "LgTvResponsePayload \<Rightarrow> json" where
  "en_LgTvResponsePayload (CurrentSwInfo p) = en_CurrentSwInfoPayload p"
| "en_LgTvResponsePayload (GetExternalInputList p) = en_GetExternalInputListPayload p"
| "en_LgTvResponsePayload (GetPowerState p) = en_GetPowerStatePayload p"
| "en_LgTvResponsePayload (GetSystemInfo p) = en_GetSystemInfoPayload p"
| "en_LgTvResponsePayload (GetVolumeVariantA p) = en_GetVolumePayloadVariantA p"
| "en_LgTvResponsePayload (GetVolumeVariantB p) = en_GetVolumePayloadVariantB p"
| "en_LgTvResponsePayload (Pair p) = en_PairPayload p"
| "en_LgTvResponsePayload (PlainReturnValue p) = en_PlainReturnValuePayload p"
| "en_LgTvResponsePayload (SetMute p) = en_SetMutePayload p"
| "en_LgTvResponsePayload (SetScreenOn p) = en_SetScreenOnPayload p"
| "en_LgTvResponsePayload (SetVolume p) = en_SetVolumePayload p"

section \<open>One struct read back\<close>

lemma de_u8_en_u8 [simp]: "de_u8 (en_u8 w) = Some w"
proof -
  have "uint w < 256" using uint_lt2p [of w] by simp
  then show ?thesis by (simp add: en_u8_def)
qed

lemma de_i64_en_i64 [simp]: "de_i64 (en_i64 w) = Some w"
proof -
  have "- (2 ^ 63) \<le> sint w" "sint w < 2 ^ 63"
    using sint_ge [of w] sint_lt [of w] by simp_all
  then show ?thesis by (simp add: en_i64_def)
qed

lemma key_count_le_1: "distinct (map fst m) \<Longrightarrow> key_count k m \<le> 1"
proof (induction m)
  case Nil
  then show ?case by (simp add: key_count_def)
next
  case (Cons kv m)
  show ?case
  proof (cases "fst kv = k")
    case True
    with Cons have "k \<notin> fst ` set m" by auto
    then have "key_count k m = 0" by (rule key_count_zero)
    with True show ?thesis by (simp add: key_count_def)
  next
    case False
    with Cons show ?thesis by (simp add: key_count_def)
  qed
qed

lemma fields_of_json_struct:
  assumes "distinct names" "length vs = length names"
  shows "fields_of deny names (json_struct names vs) = Some (map_of (zip names vs))"
proof -
  let ?m = "zip names vs"
  have keys: "map fst ?m = names" using assms by simp
  then have "\<not> 1 < key_count k ?m" for k
    using key_count_le_1 [of ?m k] assms by simp
  moreover have "fst kv \<in> set names" if "kv \<in> set ?m" for kv
    using that by (metis prod.collapse set_zip_leftD)
  moreover have "map_of ?m k = None" if "k \<notin> set names" for k
    using that keys by (metis map_of_key list.set_map)
  ultimately show ?thesis
    by (auto simp: json_struct_def fun_eq_iff fields_of.simps)
qed

lemma opt_Some: "f k = Some j \<Longrightarrow> opt f k d = de_option d j"
  by (simp add: opt_def)

lemma de_option_json_opt:
  "(\<And>x. d (e x) = Some x) \<Longrightarrow> (\<And>x. e x \<noteq> JNull) \<Longrightarrow> de_option d (json_opt e v) = Some v"
  by (cases v) (simp_all add: de_option_def json_opt_def)

lemma req_Some: "f k = Some j \<Longrightarrow> req f k d = d j"
  by (simp add: req_def)

lemma de_list_map: "(\<And>x. d (e x) = Some x) \<Longrightarrow> de_list d (map e xs) = Some xs"
  by (induction xs) simp_all

lemma en_not_null [simp]: "en_u8 w \<noteq> JNull" "en_i64 x \<noteq> JNull" "json_struct names vs \<noteq> JNull"
  by (simp_all add: en_u8_def en_i64_def json_struct_def)

lemmas struct_simps = fields_of_json_struct req_Some opt_Some de_option_json_opt

lemma de_en_CurrentSwInfoPayload [simp]: "de_CurrentSwInfoPayload (en_CurrentSwInfoPayload p) = Some p"
  by (simp add: en_CurrentSwInfoPayload_def de_CurrentSwInfoPayload_def
      CurrentSwInfoPayload_fields_def struct_simps)

lemma de_en_ExternalInput [simp]: "de_ExternalInput (en_ExternalInput p) = Some p"
  by (simp add: en_ExternalInput_def de_ExternalInput_def ExternalInput_fields_def struct_simps)

lemma de_en_GetExternalInputListPayload [simp]:
  "de_GetExternalInputListPayload (en_GetExternalInputListPayload p) = Some p"
  by (simp add: en_GetExternalInputListPayload_def de_GetExternalInputListPayload_def
      GetExternalInputListPayload_fields_def struct_simps de_list_map)

lemma de_en_GetPowerStatePayload [simp]: "de_GetPowerStatePayload (en_GetPowerStatePayload p) = Some p"
  by (simp add: en_GetPowerStatePayload_def de_GetPowerStatePayload_def
      GetPowerStatePayload_fields_def struct_simps)

lemma de_en_Features [simp]: "de_Features (en_Features p) = Some p"
  by (simp add: en_Features_def de_Features_def Features_fields_def struct_simps)

lemma en_Features_not_null [simp]: "en_Features p \<noteq> JNull"
  by (simp add: en_Features_def)

lemma de_en_GetSystemInfoPayload [simp]: "de_GetSystemInfoPayload (en_GetSystemInfoPayload p) = Some p"
  by (simp add: en_GetSystemInfoPayload_def de_GetSystemInfoPayload_def
      GetSystemInfoPayload_fields_def struct_simps)

lemma de_en_VolumeStatusVariantA [simp]:
  "de_VolumeStatusVariantA (en_VolumeStatusVariantA p) = Some p"
  by (simp add: en_VolumeStatusVariantA_def de_VolumeStatusVariantA_def
      VolumeStatusVariantA_fields_def struct_simps)

lemma de_en_GetVolumePayloadVariantA [simp]:
  "de_GetVolumePayloadVariantA (en_GetVolumePayloadVariantA p) = Some p"
  by (simp add: en_GetVolumePayloadVariantA_def de_GetVolumePayloadVariantA_def
      GetVolumePayloadVariantA_fields_def struct_simps)

lemma de_en_GetVolumePayloadVariantB [simp]:
  "de_GetVolumePayloadVariantB (en_GetVolumePayloadVariantB p) = Some p"
  by (simp add: en_GetVolumePayloadVariantB_def de_GetVolumePayloadVariantB_def
      GetVolumePayloadVariantB_fields_def struct_simps)

lemma de_en_PairPayload [simp]: "de_PairPayload (en_PairPayload p) = Some p"
  by (simp add: en_PairPayload_def de_PairPayload_def PairPayload_fields_def struct_simps)

lemma de_en_PlainReturnValuePayload [simp]:
  "de_PlainReturnValuePayload (en_PlainReturnValuePayload p) = Some p"
  by (simp add: en_PlainReturnValuePayload_def de_PlainReturnValuePayload_def
      PlainReturnValuePayload_fields_def struct_simps)

lemma de_en_SetMutePayload [simp]: "de_SetMutePayload (en_SetMutePayload p) = Some p"
  by (simp add: en_SetMutePayload_def de_SetMutePayload_def SetMutePayload_fields_def struct_simps)

lemma de_en_SetScreenOnPayload [simp]: "de_SetScreenOnPayload (en_SetScreenOnPayload p) = Some p"
  by (simp add: en_SetScreenOnPayload_def de_SetScreenOnPayload_def SetScreenOnPayload_fields_def
      struct_simps)

lemma de_en_SetVolumePayload [simp]: "de_SetVolumePayload (en_SetVolumePayload p) = Some p"
  by (simp add: en_SetVolumePayload_def de_SetVolumePayload_def SetVolumePayload_fields_def
      struct_simps)

section \<open>Which variant an object becomes\<close>

lemma struct_key:
  assumes "fields_of deny names (JObj m) = Some f" "req f k d = Some x"
  shows "\<exists>j. map_of m k = Some j \<and> d j = Some x"
proof -
  from assms(2) obtain j where "f k = Some j" "d j = Some x" by (blast dest: req_SomeD)
  moreover have "f k = (if k \<in> set names then map_of m k else None)"
    using assms(1) by (auto simp: fields_of.simps split: if_splits)
  ultimately show ?thesis by (metis option.distinct(1))
qed

lemma struct_has_key:
  "fields_of deny names (JObj m) = Some f \<Longrightarrow> req f k d = Some x \<Longrightarrow> k \<in> fst ` set m"
  by (metis struct_key map_of_key option.distinct(1))

text \<open>A struct with a required field is not read from an object without that key.\<close>

lemma no_product_name: "''product_name'' \<notin> fst ` set m \<Longrightarrow> de_CurrentSwInfoPayload (JObj m) = None"
  by (rule ccontr) (auto simp: de_CurrentSwInfoPayload_def bind_eq_Some_conv dest: struct_has_key)

lemma no_devices: "''devices'' \<notin> fst ` set m \<Longrightarrow> de_GetExternalInputListPayload (JObj m) = None"
  by (rule ccontr) (auto simp: de_GetExternalInputListPayload_def bind_eq_Some_conv dest: struct_has_key)

lemma no_power_state: "''state'' \<notin> fst ` set m \<Longrightarrow> de_GetPowerStatePayload (JObj m) = None"
  by (rule ccontr) (auto simp: de_GetPowerStatePayload_def bind_eq_Some_conv dest: struct_has_key)

lemma no_receiverType: "''receiverType'' \<notin> fst ` set m \<Longrightarrow> de_GetSystemInfoPayload (JObj m) = None"
  by (rule ccontr) (auto simp: de_GetSystemInfoPayload_def bind_eq_Some_conv dest: struct_has_key)

lemma no_volumeStatus: "''volumeStatus'' \<notin> fst ` set m \<Longrightarrow> de_GetVolumePayloadVariantA (JObj m) = None"
  by (rule ccontr) (auto simp: de_GetVolumePayloadVariantA_def bind_eq_Some_conv dest: struct_has_key)

lemma no_volumeMax: "''volumeMax'' \<notin> fst ` set m \<Longrightarrow> de_GetVolumePayloadVariantB (JObj m) = None"
  by (rule ccontr) (auto simp: de_GetVolumePayloadVariantB_def bind_eq_Some_conv dest: struct_has_key)

lemma no_pairingType: "''pairingType'' \<notin> fst ` set m \<Longrightarrow> de_PairPayload (JObj m) = None"
  by (rule ccontr) (auto simp: de_PairPayload_def bind_eq_Some_conv dest: struct_has_key)

lemma no_muteStatus: "''muteStatus'' \<notin> fst ` set m \<Longrightarrow> de_SetMutePayload (JObj m) = None"
  by (rule ccontr) (auto simp: de_SetMutePayload_def bind_eq_Some_conv dest: struct_has_key)

lemma no_screen_state: "''state'' \<notin> fst ` set m \<Longrightarrow> de_SetScreenOnPayload (JObj m) = None"
  by (rule ccontr) (auto simp: de_SetScreenOnPayload_def bind_eq_Some_conv dest: struct_has_key)

lemma more_keys_not_plain:
  "\<exists>kv \<in> set m. fst kv \<noteq> ''returnValue'' \<Longrightarrow> de_PlainReturnValuePayload (JObj m) = None"
  by (auto simp: de_PlainReturnValuePayload_def PlainReturnValuePayload_fields_def
      fields_of.simps)

lemmas variant_excluded = no_product_name no_devices no_power_state no_receiverType
  no_volumeStatus no_volumeMax no_pairingType no_muteStatus no_screen_state

text \<open>The keys an encoder writes.\<close>

lemmas encoder_defs = json_struct_def en_CurrentSwInfoPayload_def
  en_GetExternalInputListPayload_def en_GetPowerStatePayload_def en_GetSystemInfoPayload_def
  en_GetVolumePayloadVariantA_def en_GetVolumePayloadVariantB_def en_PairPayload_def
  en_PlainReturnValuePayload_def en_SetMutePayload_def en_SetScreenOnPayload_def
  en_SetVolumePayload_def

lemmas field_names = CurrentSwInfoPayload_fields_def GetExternalInputListPayload_fields_def
  GetPowerStatePayload_fields_def GetSystemInfoPayload_fields_def
  GetVolumePayloadVariantA_fields_def GetVolumePayloadVariantB_fields_def PairPayload_fields_def
  PlainReturnValuePayload_fields_def SetMutePayload_fields_def SetScreenOnPayload_fields_def
  SetVolumePayload_fields_def

definition json_keys :: "json \<Rightarrow> string set" where
  "json_keys j = (case j of JObj m \<Rightarrow> fst ` set m | _ \<Rightarrow> {})"

definition is_obj :: "json \<Rightarrow> bool" where
  "is_obj j = (case j of JObj _ \<Rightarrow> True | _ \<Rightarrow> False)"

lemma is_objE: "is_obj j \<Longrightarrow> (\<And>m. j = JObj m \<Longrightarrow> P) \<Longrightarrow> P"
  by (cases j) (auto simp: is_obj_def)

lemma json_struct_keys [simp]:
  "length vs = length names \<Longrightarrow> json_keys (json_struct names vs) = set names"
  by (auto simp: json_keys_def json_struct_def in_set_zip set_zip image_iff in_set_conv_nth)

lemma is_obj_struct [simp]: "is_obj (json_struct names vs)"
  by (simp add: is_obj_def json_struct_def)

lemma excluded_by_key:
  assumes "is_obj j"
  shows "''product_name'' \<notin> json_keys j \<Longrightarrow> de_CurrentSwInfoPayload j = None"
    "''devices'' \<notin> json_keys j \<Longrightarrow> de_GetExternalInputListPayload j = None"
    "''state'' \<notin> json_keys j \<Longrightarrow> de_GetPowerStatePayload j = None"
    "''receiverType'' \<notin> json_keys j \<Longrightarrow> de_GetSystemInfoPayload j = None"
    "''volumeStatus'' \<notin> json_keys j \<Longrightarrow> de_GetVolumePayloadVariantA j = None"
    "''volumeMax'' \<notin> json_keys j \<Longrightarrow> de_GetVolumePayloadVariantB j = None"
    "''pairingType'' \<notin> json_keys j \<Longrightarrow> de_PairPayload j = None"
    "''muteStatus'' \<notin> json_keys j \<Longrightarrow> de_SetMutePayload j = None"
    "''state'' \<notin> json_keys j \<Longrightarrow> de_SetScreenOnPayload j = None"
    "\<exists>k \<in> json_keys j. k \<noteq> ''returnValue'' \<Longrightarrow> de_PlainReturnValuePayload j = None"
  using assms by (auto elim!: is_objE simp: json_keys_def variant_excluded)
    (force intro: more_keys_not_plain)

lemma encoded_is_obj [simp]: "is_obj (en_LgTvResponsePayload p)"
  by (cases p) (simp_all add: encoder_defs is_obj_def)

lemma encoded_keys:
  "json_keys (en_CurrentSwInfoPayload a) = set CurrentSwInfoPayload_fields"
  "json_keys (en_GetExternalInputListPayload b) = set GetExternalInputListPayload_fields"
  "json_keys (en_GetPowerStatePayload c) = set GetPowerStatePayload_fields"
  "json_keys (en_GetSystemInfoPayload d) = set GetSystemInfoPayload_fields"
  "json_keys (en_GetVolumePayloadVariantA e) = set GetVolumePayloadVariantA_fields"
  "json_keys (en_GetVolumePayloadVariantB f) = set GetVolumePayloadVariantB_fields"
  "json_keys (en_PairPayload g) = set PairPayload_fields"
  "json_keys (en_PlainReturnValuePayload h) = set PlainReturnValuePayload_fields"
  "json_keys (en_SetMutePayload i) = set SetMutePayload_fields"
  "json_keys (en_SetScreenOnPayload k) = set SetScreenOnPayload_fields"
  "json_keys (en_SetVolumePayload l) = set SetVolumePayload_fields"
  by (simp_all add: encoder_defs json_keys_def field_names insert_commute)

text \<open>
  A payload written and read back is the same payload, but for \<open>SetScreenOn\<close>, whose object is
  read as a \<open>GetPowerState\<close>.
\<close>

primrec reread :: "LgTvResponsePayload \<Rightarrow> LgTvResponsePayload" where
  "reread (CurrentSwInfo p) = CurrentSwInfo p"
| "reread (GetExternalInputList p) = GetExternalInputList p"
| "reread (GetPowerState p) = GetPowerState p"
| "reread (GetSystemInfo p) = GetSystemInfo p"
| "reread (GetVolumeVariantA p) = GetVolumeVariantA p"
| "reread (GetVolumeVariantB p) = GetVolumeVariantB p"
| "reread (Pair p) = Pair p"
| "reread (PlainReturnValue p) = PlainReturnValue p"
| "reread (SetMute p) = SetMute p"
| "reread (SetScreenOn p) =
     GetPowerState \<lparr>gps_state = sso_state p, gps_processing = None,
                    gps_return_value = sso_return_value p\<rparr>"
| "reread (SetVolume p) = SetVolume p"

lemma screen_on_read_as_power_state:
  "de_GetPowerStatePayload (en_SetScreenOnPayload p) =
    Some \<lparr>gps_state = sso_state p, gps_processing = None, gps_return_value = sso_return_value p\<rparr>"
  by (simp add: en_SetScreenOnPayload_def de_GetPowerStatePayload_def json_struct_def field_names
      key_count_def req_def opt_def fields_of.simps)

lemma payload_roundtrip: "de_LgTvResponsePayload (en_LgTvResponsePayload p) = Some (reread p)"
  using encoded_is_obj [of p]
  by (cases p)
     (simp_all add: de_LgTvResponsePayload_def as_variant_def excluded_by_key encoded_keys field_names
       screen_on_read_as_power_state)

section \<open>Responses\<close>

text \<open>The derived \<open>Serialize\<close> with \<open>tag = "type"\<close>: the tag, then the fields of the variant.\<close>

definition tagged_struct :: "string \<Rightarrow> string list \<Rightarrow> json list \<Rightarrow> json" where
  "tagged_struct t names vs = JObj ((''type'', JStr t) # zip names vs)"

primrec en_LgTvResponse :: "LgTvResponse \<Rightarrow> json" where
  "en_LgTvResponse (Error r) = tagged_struct ''error'' LgTvErrorResponse_fields
     [JStr (er_id r), json_opt JStr (er_error r), JObj []]"
| "en_LgTvResponse (Registered r) = tagged_struct ''registered'' LgTvRegisteredResponse_fields
     [JStr (rr_id r), json_struct RegisteredPayload_fields [JStr (rp_client_key (rr_payload r))]]"
| "en_LgTvResponse (Command r) = tagged_struct ''response'' LgTvCommandResponse_fields
     [JStr (cr_id r), en_LgTvResponsePayload (cr_payload r)]"

primrec reread_response :: "LgTvResponse \<Rightarrow> LgTvResponse" where
  "reread_response (Error r) = Error r"
| "reread_response (Registered r) = Registered r"
| "reread_response (Command r) = Command (r\<lparr>cr_payload := reread (cr_payload r)\<rparr>)"

lemma tag_and_content_tagged_struct:
  assumes "''type'' \<notin> set names"
  shows "tag_and_content (tagged_struct t names vs) = Some (t, json_struct names vs)"
proof -
  have not_type: "fst kv \<noteq> ''type''" if "kv \<in> set (zip names vs)" for kv
    using that assms by (metis prod.collapse set_zip_leftD)
  then have "filter (\<lambda>kv. fst kv \<noteq> ''type'') (zip names vs) = zip names vs"
    by simp
  moreover have "key_count ''type'' (zip names vs) = 0"
    using not_type by (intro key_count_zero) force
  ultimately show ?thesis
    by (simp add: tagged_struct_def json_struct_def key_count_def)
qed

text \<open>C33: A response written with the derived serializer and read back from its JSON is the
  same response, whatever its kind, its optional fields and its numbers, with one exception: the
  payload of a \<open>SetScreenOn\<close> comes back as \<open>GetPowerState\<close>, the variant declared earlier that
  accepts the same object.\<close>

theorem response_roundtrip: "de_LgTvResponse (en_LgTvResponse r) = Some (reread_response r)"
  by (cases r)
     (simp_all add: de_LgTvResponse_def tag_and_content_tagged_struct struct_simps
       LgTvErrorResponse_fields_def LgTvRegisteredResponse_fields_def
       LgTvCommandResponse_fields_def RegisteredPayload_fields_def de_LgTvErrorResponse_def
       de_LgTvRegisteredResponse_def de_LgTvCommandResponse_def de_RegisteredPayload_def
       de_ErrorPayload_def ErrorPayload_fields_def payload_roundtrip fields_of.simps(1))

section \<open>The shadowed variant\<close>

lemma screen_on_fields_suffice:
  assumes "''processing'' \<notin> fst ` set m" "de_SetScreenOnPayload (JObj m) = Some p"
  shows "\<exists>q. de_GetPowerStatePayload (JObj m) = Some q"
proof -
  from assms(2) have cnt: "\<not> 1 < key_count ''state'' m" "\<not> 1 < key_count ''returnValue'' m"
    by (auto simp: de_SetScreenOnPayload_def SetScreenOnPayload_fields_def fields_of.simps
        split: if_splits)
  from assms(2) obtain f b s where f: "fields_of False SetScreenOnPayload_fields (JObj m) = Some f"
    and rv: "req f ''returnValue'' de_bool = Some b" and st: "req f ''state'' de_string = Some s"
    by (auto simp: de_SetScreenOnPayload_def bind_eq_Some_conv)
  have "map_of m ''returnValue'' = Some (JBool b)" "map_of m ''state'' = Some (JStr s)"
    using struct_key [OF f rv] struct_key [OF f st] by (auto dest: de_bool_SomeD de_string_SomeD)
  with assms(1) cnt show ?thesis
    by (simp add: de_GetPowerStatePayload_def GetPowerStatePayload_fields_def fields_of.simps
        key_count_zero req_def opt_def map_of_key)
qed

text \<open>C40: An object without the key \<open>processing\<close>, which the answer to a screen on/off request
  is, never becomes a \<open>SetScreenOn\<close> payload: whenever it has that payload's fields, the earlier
  variant \<open>GetPowerState\<close> accepts it first.\<close>

theorem set_screen_on_shadowed:
  assumes "''processing'' \<notin> fst ` set m"
  shows "de_LgTvResponsePayload (JObj m) \<noteq> Some (SetScreenOn p)"
proof
  assume read: "de_LgTvResponsePayload (JObj m) = Some (SetScreenOn p)"
  then have "de_SetScreenOnPayload (JObj m) = Some p"
    by (auto simp: de_LgTvResponsePayload_def as_variant_def split: option.splits)
  with assms obtain q where "de_GetPowerStatePayload (JObj m) = Some q"
    by (blast dest: screen_on_fields_suffice)
  with read show False
    by (auto simp: de_LgTvResponsePayload_def as_variant_def split: option.splits)
qed

theorem set_screen_on_shadowed_witness:
  "de_LgTvResponsePayload (JObj [(''returnValue'', JBool True), (''state'', JStr ''Active'')]) \<noteq>
     Some (SetScreenOn \<lparr>sso_return_value = True, sso_state = ''Active''\<rparr>)"
  by (rule set_screen_on_shadowed) simp

end
