(* ===== verification/Tv_Commands.thy ===== *)
theory Tv_Commands
  imports Ssap_Codec
begin

text \<open>
  \<open>src/src/tv_commands.rs\<close>: the commands of the TV, their \<open>Display\<close> and \<open>Debug\<close>, and the
  request each is sent as. The identifier a request gets (a fresh UUID) and the text of a JSON
  value are parameters.
\<close>

datatype TvCommand =
    GetCurrentSWInfo
  | GetExternalInputList
  | GetPowerState
  | GetSystemInfo
  | GetVolume
  | MediaFastForward
  | MediaPause
  | MediaPlay
  | MediaRewind
  | MediaStop
  | SetMute bool
  | SetScreenOn bool
  | SetVolume u8
  | SubscribeGetVolume
  | SubscribeGetPowerState
  | SwitchInput string
  | TurnOff
  | VolumeDown
  | VolumeUp

section \<open>Display and Debug\<close>

text \<open>The derived \<open>Debug\<close>.\<close>

primrec debug_command :: "TvCommand \<Rightarrow> string" where
  "debug_command GetCurrentSWInfo = ''GetCurrentSWInfo''"
| "debug_command GetExternalInputList = ''GetExternalInputList''"
| "debug_command GetPowerState = ''GetPowerState''"
| "debug_command GetSystemInfo = ''GetSystemInfo''"
| "debug_command GetVolume = ''GetVolume''"
| "debug_command MediaFastForward = ''MediaFastForward''"
| "debug_command MediaPause = ''MediaPause''"
| "debug_command MediaPlay = ''MediaPlay''"
| "debug_command MediaRewind = ''MediaRewind''"
| "debug_command MediaStop = ''MediaStop''"
| "debug_command (SetMute val) = ''SetMute('' @ show_bool val @ '')''"
| "debug_command (SetScreenOn val) = ''SetScreenOn('' @ show_bool val @ '')''"
| "debug_command (SetVolume val) = ''SetVolume('' @ show_nat (unat val) @ '')''"
| "debug_command SubscribeGetVolume = ''SubscribeGetVolume''"
| "debug_command SubscribeGetPowerState = ''SubscribeGetPowerState''"
| "debug_command (SwitchInput val) = ''SwitchInput('' @ debug_str val @ '')''"
| "debug_command TurnOff = ''TurnOff''"
| "debug_command VolumeDown = ''VolumeDown''"
| "debug_command VolumeUp = ''VolumeUp''"

fun display_command :: "TvCommand \<Rightarrow> string" where
  "display_command (SetMute val) = ''SetMute('' @ show_bool val @ '')''"
| "display_command (SetScreenOn val) = ''SetScreenOn('' @ show_bool val @ '')''"
| "display_command (SetVolume val) = ''SetVolume('' @ show_nat (unat val) @ '')''"
| "display_command (SwitchInput val) = ''SwitchInput('' @ val @ '')''"
| "display_command c = debug_command c"

section \<open>Requests\<close>

definition GET_VOLUME_SUBSCRIPTION_ID :: string where
  "GET_VOLUME_SUBSCRIPTION_ID = ''get_volume_subscription''"

definition GET_POWER_STATE_SUBSCRIPTION_ID :: string where
  "GET_POWER_STATE_SUBSCRIPTION_ID = ''get_power_state_subscription''"

definition simple_request :: "string \<Rightarrow> string \<Rightarrow> LgTvRequest" where
  "simple_request i uri =
     \<lparr>rq_type = Request, rq_id = i, rq_uri = Some uri, rq_payload = None\<rparr>"

definition payload_request :: "string \<Rightarrow> string \<Rightarrow> (string \<times> json) list \<Rightarrow> LgTvRequest" where
  "payload_request i uri payload =
     \<lparr>rq_type = Request, rq_id = i, rq_uri = Some uri, rq_payload = Some (JObj payload)\<rparr>"

definition subscribe_request :: "string \<Rightarrow> string \<Rightarrow> LgTvRequest" where
  "subscribe_request subscription_id uri =
     \<lparr>rq_type = Subscribe, rq_id = subscription_id, rq_uri = Some uri, rq_payload = None\<rparr>"

text \<open>The struct \<open>data\<close> that \<open>From<TvCommand> for String\<close> builds; \<open>i\<close> is the fresh identifier.\<close>

fun request_of_command :: "string \<Rightarrow> TvCommand \<Rightarrow> LgTvRequest" where
  "request_of_command i GetCurrentSWInfo =
     simple_request i ''ssap://com.webos.service.update/getCurrentSWInformation''"
| "request_of_command i GetExternalInputList = simple_request i ''ssap://tv/getExternalInputList''"
| "request_of_command i GetPowerState =
     simple_request i ''ssap://com.webos.service.tvpower/power/getPowerState''"
| "request_of_command i GetSystemInfo = simple_request i ''ssap://system/getSystemInfo''"
| "request_of_command i GetVolume = simple_request i ''ssap://audio/getVolume''"
| "request_of_command i MediaFastForward = simple_request i ''ssap://media.controls/fastForward''"
| "request_of_command i MediaPause = simple_request i ''ssap://media.controls/pause''"
| "request_of_command i MediaPlay = simple_request i ''ssap://media.controls/play''"
| "request_of_command i MediaRewind = simple_request i ''ssap://media.controls/rewind''"
| "request_of_command i MediaStop = simple_request i ''ssap://media.controls/stop''"
| "request_of_command i (SetMute val) =
     payload_request i ''ssap://audio/setMute'' (map_insert ''mute'' (JBool val) [])"
| "request_of_command i (SetScreenOn val) =
     payload_request i
       (''ssap://com.webos.service.tvpower/power/turn'' @ (if val then ''On'' else ''Off'') @ ''Screen'')
       (map_insert ''standbyMode'' (JStr ''active'') [])"
| "request_of_command i (SetVolume val) =
     payload_request i ''ssap://audio/setVolume'' (map_insert ''volume'' (JInt (uint val)) [])"
| "request_of_command i SubscribeGetVolume =
     subscribe_request GET_VOLUME_SUBSCRIPTION_ID ''ssap://audio/getVolume''"
| "request_of_command i SubscribeGetPowerState =
     subscribe_request GET_POWER_STATE_SUBSCRIPTION_ID
       ''ssap://com.webos.service.tvpower/power/getPowerState''"
| "request_of_command i (SwitchInput input_id) =
     payload_request i ''ssap://tv/switchInput'' (map_insert ''inputId'' (JStr input_id) [])"
| "request_of_command i TurnOff = simple_request i ''ssap://system/turnOff''"
| "request_of_command i VolumeDown = simple_request i ''ssap://audio/volumeDown''"
| "request_of_command i VolumeUp = simple_request i ''ssap://audio/volumeUp''"

text \<open>
  The payload: the request as JSON text, or the empty string where it cannot be written.
  \<open>to_text\<close> is \<open>serde_json::to_string\<close>.
\<close>

definition command_payload :: "(json \<Rightarrow> string option) \<Rightarrow> string \<Rightarrow> TvCommand \<Rightarrow> string" where
  "command_payload to_text i c =
     (case to_text (json_of_LgTvRequest (request_of_command i c)) of None \<Rightarrow> [] | Some t \<Rightarrow> t)"

section \<open>The request determines the command\<close>

lemmas request_defs = simple_request_def payload_request_def subscribe_request_def GET_VOLUME_SUBSCRIPTION_ID_def
  GET_POWER_STATE_SUBSCRIPTION_ID_def

text \<open>What a receiver of the request makes of it: the command by type, URI and argument.\<close>

definition simple_commands :: "TvCommand list" where
  "simple_commands = [GetCurrentSWInfo, GetExternalInputList, GetPowerState, GetSystemInfo, GetVolume,
     MediaFastForward, MediaPause, MediaPlay, MediaRewind, MediaStop, SetScreenOn True,
     SetScreenOn False, SubscribeGetVolume, SubscribeGetPowerState, TurnOff, VolumeDown, VolumeUp]"

definition command_of_request :: "LgTvRequest \<Rightarrow> TvCommand option" where
  "command_of_request r =
     (case find (\<lambda>c. rq_type (request_of_command [] c) = rq_type r \<and>
                     rq_uri (request_of_command [] c) = rq_uri r) simple_commands of
        Some c \<Rightarrow> Some c
      | None \<Rightarrow>
          (case rq_payload r of
             Some (JObj [(k, JBool b)]) \<Rightarrow> if k = ''mute'' then Some (SetMute b) else None
           | Some (JObj [(k, JInt v)]) \<Rightarrow> if k = ''volume'' then Some (SetVolume (word_of_int v)) else None
           | Some (JObj [(k, JStr s)]) \<Rightarrow> if k = ''inputId'' then Some (SwitchInput s) else None
           | _ \<Rightarrow> None))"

lemma command_of_request_of_command [simp]:
  "command_of_request (request_of_command i c) = Some c"
  by (cases c) (simp_all add: command_of_request_def simple_commands_def request_defs)

text \<open>A request read back from its JSON.\<close>

lemma json_of_LgTvRequest_struct:
  "json_of_LgTvRequest r = json_struct LgTvRequest_fields
     [JStr (request_type_name (rq_type r)), JStr (rq_id r), json_opt JStr (rq_uri r),
      json_opt id (rq_payload r)]"
  by (simp add: json_of_LgTvRequest_def json_struct_def LgTvRequest_fields_def)

lemma de_LgTvRequestType_name [simp]: "de_LgTvRequestType (JStr (request_type_name t)) = Some t"
  by (cases t) (simp_all add: de_LgTvRequestType_def)

lemma de_json_of_LgTvRequest:
  "rq_payload r \<noteq> Some JNull \<Longrightarrow> de_LgTvRequest (json_of_LgTvRequest r) = Some r"
  by (cases r; cases "rq_uri r"; cases "rq_payload r")
     (auto simp: json_of_LgTvRequest_struct de_LgTvRequest_def LgTvRequest_fields_def struct_simps
       de_option_def json_opt_def)

lemma command_payload_not_null: "rq_payload (request_of_command i c) \<noteq> Some JNull"
  by (cases c) (simp_all add: request_defs)

text \<open>The JSON a command is sent as determines the command. Read back as a request, it has
  the type, URI and payload of exactly that command, whatever identifier was drawn for it, so two
  different commands are never sent as the same message and no argument is lost.\<close>

theorem command_request_roundtrip:
  "Option.bind (de_LgTvRequest (json_of_LgTvRequest (request_of_command i c))) command_of_request =
     Some c"
  by (simp add: de_json_of_LgTvRequest command_payload_not_null)

text \<open>Only the two subscription commands are sent with the type \<open>subscribe\<close> and with a
  fixed identifier (so that the TV's later answers can be told apart from answers to a request);
  every other command is a \<open>request\<close> and carries the fresh identifier it was given.\<close>

theorem request_kind:
  "rq_type (request_of_command i c) =
     (if c = SubscribeGetVolume \<or> c = SubscribeGetPowerState then Subscribe else Request) \<and>
   rq_id (request_of_command i c) =
     (if c = SubscribeGetVolume then ''get_volume_subscription''
      else if c = SubscribeGetPowerState then ''get_power_state_subscription'' else i) \<and>
   rq_uri (request_of_command i c) \<noteq> None"
  by (cases c) (simp_all add: request_defs)

text \<open>Two commands print the same only when they are the same command with the same
  argument: the volume is printed in full, an input identifier as it is.\<close>

theorem display_command_inject: "display_command c = display_command d \<longleftrightarrow> c = d"
  by (cases c; cases d) (simp_all add: word_unat_eq_iff)

end
