(* ===== verification/State_Machine.thy ===== *)
theory State_Machine
  imports Tv_Commands
begin

text \<open>
  \<open>src/src/state_machine.rs\<close>: the states of a connection, the inputs and outputs, the transition
  and output functions of \<open>LgTvStateMachine\<close>, and the task that feeds the inputs of its channel
  to the machine and reports each new state and output back. The crate \<open>rust_fsm\<close>, which holds
  the current state and consults the two functions, is the parameter \<open>consume\<close>: what its
  documentation promises is the locale \<open>rust_fsm\<close>.
\<close>

section \<open>States, inputs, outputs\<close>

record ReconnectDetails =
  rd_url :: string
  rd_attempts :: u64
  rd_next_attempt_ms :: nat

datatype State =
    Disconnected
  | Connecting string
  | Connected string
  | Pairing string
  | Initializing string
  | Communicating string
  | Disconnecting string
  | WaitingToReconnect ReconnectDetails
  | Zombie

datatype Input =
    Connect string
  | AttemptRegister
  | Pair
  | Initialize
  | StartCommunication
  | SendCommand TvCommand
  | Reset
  | Error
  | Disconnect
  | DisconnectionComplete

datatype Output =
    ConnectToTv string
  | SendRegisterPayload
  | PairWithTv
  | InitializeConnection
  | SendCommand TvCommand
  | DisconnectFromTv
  | HandleConnectError
  | HandleDisconnectError
  | HandleSuccessfulDisconnect

datatype StateMachineUpdateMessage =
    State State
  | Output Output
  | TransitionError string

section \<open>Display and Debug\<close>

definition debug_reconnect_details :: "ReconnectDetails \<Rightarrow> string" where
  "debug_reconnect_details d =
     ''ReconnectDetails { url: '' @ debug_str (rd_url d) @
     '', attempts: '' @ show_nat (unat (rd_attempts d)) @
     '', next_attempt_ms: '' @ show_nat (rd_next_attempt_ms d) @ '' }''"

primrec debug_state :: "State \<Rightarrow> string" where
  "debug_state Disconnected = ''Disconnected''"
| "debug_state (Connecting u) = ''Connecting('' @ debug_str u @ '')''"
| "debug_state (Connected u) = ''Connected('' @ debug_str u @ '')''"
| "debug_state (Pairing u) = ''Pairing('' @ debug_str u @ '')''"
| "debug_state (Initializing u) = ''Initializing('' @ debug_str u @ '')''"
| "debug_state (Communicating u) = ''Communicating('' @ debug_str u @ '')''"
| "debug_state (Disconnecting u) = ''Disconnecting('' @ debug_str u @ '')''"
| "debug_state (WaitingToReconnect d) = ''WaitingToReconnect('' @ debug_reconnect_details d @ '')''"
| "debug_state Zombie = ''Zombie''"

fun display_state :: "State \<Rightarrow> string" where
  "display_state (Connecting val) = ''Connecting('' @ val @ '')''"
| "display_state (Connected val) = ''Connected('' @ val @ '')''"
| "display_state (Pairing val) = ''Pairing('' @ val @ '')''"
| "display_state (Initializing val) = ''Initializing('' @ val @ '')''"
| "display_state (Communicating val) = ''Communicating('' @ val @ '')''"
| "display_state (Disconnecting val) = ''Disconnecting('' @ val @ '')''"
| "display_state variant = debug_state variant"

primrec debug_input :: "Input \<Rightarrow> string" where
  "debug_input (Connect u) = ''Connect('' @ debug_str u @ '')''"
| "debug_input AttemptRegister = ''AttemptRegister''"
| "debug_input Pair = ''Pair''"
| "debug_input Initialize = ''Initialize''"
| "debug_input StartCommunication = ''StartCommunication''"
| "debug_input (Input.SendCommand c) = ''SendCommand('' @ debug_command c @ '')''"
| "debug_input Reset = ''Reset''"
| "debug_input Error = ''Error''"
| "debug_input Disconnect = ''Disconnect''"
| "debug_input DisconnectionComplete = ''DisconnectionComplete''"

section \<open>The machine\<close>

fun transition :: "State \<Rightarrow> Input \<Rightarrow> State option" where
  "transition Disconnected (Connect url) = Some (Connecting url)"
| "transition Disconnected Reset = Some Disconnected"

| "transition (Connecting url) AttemptRegister = Some (Connected url)"
| "transition (Connecting _) Reset = Some Disconnected"
| "transition (Connecting _) Error = Some Disconnected"

| "transition (Connected url) Pair = Some (Pairing url)"
| "transition (Connected url) Initialize = Some (Initializing url)"
| "transition (Connected _) Reset = Some Disconnected"
| "transition (Connected url) Error = Some (Disconnecting url)"

| "transition (Pairing url) Initialize = Some (Initializing url)"
| "transition (Pairing _) Reset = Some Disconnected"
| "transition (Pairing url) Error = Some (Disconnecting url)"

| "transition (Initializing url) StartCommunication = Some (Communicating url)"
| "transition (Initializing _) Reset = Some Disconnected"
| "transition (Initializing url) Error = Some (Disconnecting url)"

| "transition (Communicating url) (Input.SendCommand _) = Some (Communicating url)"
| "transition (Communicating url) Disconnect = Some (Disconnecting url)"
| "transition (Communicating _) Reset = Some Disconnected"
| "transition (Communicating url) Error = Some (Disconnecting url)"

| "transition (Disconnecting _) DisconnectionComplete = Some Disconnected"
| "transition (Disconnecting _) Reset = Some Disconnected"
| "transition (Disconnecting _) Error = Some Disconnected"

| "transition _ _ = None"

fun fsm_output :: "State \<Rightarrow> Input \<Rightarrow> Output option" where
  "fsm_output Disconnected (Connect host) = Some (ConnectToTv host)"

| "fsm_output (Connecting _) AttemptRegister = Some SendRegisterPayload"
| "fsm_output (Connecting _) Error = Some HandleConnectError"

| "fsm_output (Connected _) Pair = Some PairWithTv"
| "fsm_output (Connected _) Initialize = Some InitializeConnection"
| "fsm_output (Connected _) Error = Some DisconnectFromTv"

| "fsm_output (Pairing _) Initialize = Some InitializeConnection"
| "fsm_output (Pairing _) Error = Some DisconnectFromTv"

| "fsm_output (Initializing _) Error = Some DisconnectFromTv"

| "fsm_output (Communicating _) (Input.SendCommand command) = Some (Output.SendCommand command)"
| "fsm_output (Communicating _) Disconnect = Some DisconnectFromTv"
| "fsm_output (Communicating _) Error = Some DisconnectFromTv"

| "fsm_output (Disconnecting _) DisconnectionComplete = Some HandleSuccessfulDisconnect"
| "fsm_output (Disconnecting _) Error = Some HandleDisconnectError"

| "fsm_output _ _ = None"

definition INITIAL_STATE :: State where
  "INITIAL_STATE = Disconnected"

end
