(* ===== verification/External.thy ===== *)
theory External
  imports Json_Model
begin

text \<open>
  The code the manager calls that is not in the repository, as one record of functions: the
  \<open>url\<close> crate, the address parser of \<open>macaddr\<close>, the JSON text of \<open>serde_json\<close>, the identifiers
  of \<open>uuid\<close>, the bundled registration payload and the clock readings of a reconnect wait. The
  operations of the model take the record as an argument. What the code relies on is stated as
  predicates of the record (\<open>url_laws\<close>, \<open>json_laws\<close>, \<open>mac_laws\<close>); a concrete record that has
  them is at the end.
\<close>

section \<open>The record\<close>

datatype UrlHost = Domain string | Ipv4 "32 word" | Ipv6 "128 word"

text \<open>
  What the WebSocket library reports to the handler of a connection: the outcome of connecting,
  a message or a read error of the socket; and the points at which the handler runs, with the
  write error of a message it passes on (None: written) and the clock in milliseconds.
\<close>

datatype ConnectOutcome =
    TlsBuildError string
  | Established
  | IoError string
  | OtherError string
  | TimedOut

datatype SocketMessage =
    Text string
  | Binary
  | Ping
  | Pong
  | Close
  | Frame

datatype WsEvent =
    Begin
  | Resolved ConnectOutcome
  | CallerMessage "string option" nat
  | CallerClosed "string option"
  | Incoming "string + SocketMessage"
  | Tick nat

text \<open>
  \<open>'u\<close> is the type of parsed URLs. The error of a parse is kept as its \<open>Debug\<close> and its
  \<open>Display\<close> text. \<open>json_error\<close> is the \<open>Debug\<close> text of the error a JSON document is refused with,
  \<open>feedback_clock n\<close> what the clock shows, in milliseconds, at the feedback ticks of the \<open>n\<close>th
  reconnect wait (None: the clock went backwards), \<open>join_events n\<close> what the WebSocket handler goes
  through while the manager waits, for the \<open>n\<close>th time, for it to end. \<open>send_wol\<close> is the error of
  sending a wake-up packet (None: sent), \<open>wol_mac\<close> the parser of the addresses it takes.
\<close>

record 'u ext =
  url_parse :: "string \<Rightarrow> (string \<times> string) + 'u"
  url_scheme :: "'u \<Rightarrow> string"
  url_port :: "'u \<Rightarrow> u16 option"
  url_set_port :: "'u \<Rightarrow> u16 option \<Rightarrow> unit + 'u"
  url_host :: "'u \<Rightarrow> UrlHost option"
  url_host_str :: "'u \<Rightarrow> string option"
  url_to_string :: "'u \<Rightarrow> string"
  mac_from_str :: "string \<Rightarrow> MacAddr option"
  mac_to_string :: "MacAddr \<Rightarrow> string"
  json_to_text :: "json \<Rightarrow> string + string"
  json_from_text :: "string \<Rightarrow> json option"
  json_error :: "string \<Rightarrow> string"
  fresh_uuid :: "nat \<Rightarrow> string"
  register_payload :: string
  feedback_clock :: "nat \<Rightarrow> nat option list"
  join_events :: "nat \<Rightarrow> WsEvent list"
  wol_mac :: "string \<Rightarrow> MacAddr option"
  send_wol :: "MacAddr \<Rightarrow> IpAddr \<Rightarrow> string option"

section \<open>What the code relies on\<close>

text \<open>The default ports of the special schemes; \<open>Url::port\<close> never shows them.\<close>

definition default_port :: "string \<Rightarrow> u16 option" where
  "default_port s =
     (if s = ''ws'' \<or> s = ''http'' then Some 80
      else if s = ''wss'' \<or> s = ''https'' then Some 443
      else if s = ''ftp'' then Some 21
      else None)"

text \<open>
  Of a parsed URL: its serialization parses to the same URL; the port shown is not the default
  of its scheme; setting a port changes only the port, and the result is again a URL whose
  serialization parses back.
\<close>

definition url_laws :: "'u ext \<Rightarrow> bool" where
  "url_laws e \<longleftrightarrow>
     (\<forall>s u. url_parse e s = Inr u \<longrightarrow>
        url_parse e (url_to_string e u) = Inr u \<and>
        (\<forall>p. url_port e u = Some p \<longrightarrow> Some p \<noteq> default_port (url_scheme e u)) \<and>
        (\<forall>p u'. url_set_port e u (Some p) = Inr u' \<longrightarrow>
           url_parse e (url_to_string e u') = Inr u' \<and>
           url_scheme e u' = url_scheme e u \<and>
           url_host e u' = url_host e u \<and>
           url_port e u' = (if Some p = default_port (url_scheme e u) then None else Some p)))"

lemma url_lawsD:
  assumes "url_laws e" "url_parse e s = Inr u"
  shows url_reparse: "url_parse e (url_to_string e u) = Inr u"
    and url_set_port_parse: "url_set_port e u (Some p) = Inr u' \<Longrightarrow>
      url_parse e (url_to_string e u') = Inr u'"
    and url_set_port_scheme: "url_set_port e u (Some p) = Inr u' \<Longrightarrow> url_scheme e u' = url_scheme e u"
    and url_set_port_host: "url_set_port e u (Some p) = Inr u' \<Longrightarrow> url_host e u' = url_host e u"
    and url_set_port_port: "url_set_port e u (Some p) = Inr u' \<Longrightarrow>
      url_port e u' = (if Some p = default_port (url_scheme e u) then None else Some p)"
  using assms unfolding url_laws_def by blast+

text \<open>A JSON text that was written reads back as the value it was written from.\<close>

definition json_laws :: "'u ext \<Rightarrow> bool" where
  "json_laws e \<longleftrightarrow> (\<forall>j t. json_to_text e j = Inr t \<longrightarrow> json_from_text e t = Some j)"

text \<open>A printed MAC address reads back.\<close>

definition mac_laws :: "'u ext \<Rightarrow> bool" where
  "mac_laws e \<longleftrightarrow> (\<forall>m. mac_from_str e (mac_to_string e m) = Some m)"

section \<open>A concrete record\<close>

text \<open>
  A small instance for the witnesses. Its URLs are triples of scheme, host and port, and it
  parses a few spellings of two hosts; its JSON text holds strings, and objects whose values are
  strings or null, with a length before every string; a MAC address is printed byte by byte.
\<close>

type_synonym demo_url = "string \<times> string \<times> u16 option"

definition demo_urls :: "(string \<times> demo_url) list" where
  "demo_urls =
    [(''wss://tv'', (''wss'', ''tv'', None)), (''wss://tv/'', (''wss'', ''tv'', None)),
     (''wss://tv:443/'', (''wss'', ''tv'', None)),
     (''wss://tv:3001/'', (''wss'', ''tv'', Some 3001)),
     (''ws://tv'', (''ws'', ''tv'', None)), (''ws://tv/'', (''ws'', ''tv'', None)),
     (''ws://tv:3000/'', (''ws'', ''tv'', Some 3000)),
     (''http://tv'', (''http'', ''tv'', None)), (''http://tv/'', (''http'', ''tv'', None)),
     (''wss://10.0.0.1'', (''wss'', ''10.0.0.1'', None)),
     (''wss://10.0.0.1/'', (''wss'', ''10.0.0.1'', None)),
     (''wss://10.0.0.1:3001/'', (''wss'', ''10.0.0.1'', Some 3001))]"

definition demo_parse :: "string \<Rightarrow> (string \<times> string) + demo_url" where
  "demo_parse s = (case map_of demo_urls s of
       None \<Rightarrow> Inl (''RelativeUrlWithoutBase'', ''relative URL without a base'')
     | Some u \<Rightarrow> Inr u)"

definition demo_to_string :: "demo_url \<Rightarrow> string" where
  "demo_to_string u = (case u of (s, h, p) \<Rightarrow>
     s @ ''://'' @ h @ (case p of None \<Rightarrow> [] | Some n \<Rightarrow> '':'' @ show_nat (unat n)) @ ''/'')"

definition demo_set_port :: "demo_url \<Rightarrow> u16 option \<Rightarrow> unit + demo_url" where
  "demo_set_port u p = (case u of (s, h, _) \<Rightarrow>
     if (s = ''wss'' \<and> p = Some 3001) \<or> (s = ''ws'' \<and> p = Some 3000)
     then Inr (s, h, p) else Inl ())"

definition demo_host :: "demo_url \<Rightarrow> UrlHost option" where
  "demo_host u = (case u of (_, h, _) \<Rightarrow>
     if h = ''10.0.0.1'' then Some (Ipv4 0x0A000001) else Some (Domain h))"

fun demo_mac_bytes :: "string \<Rightarrow> u8 list option" where
  "demo_mac_bytes [] = Some []"
| "demo_mac_bytes (c # cs) = map_option (\<lambda>bs. word_of_nat (of_char c) # bs) (demo_mac_bytes cs)"

definition demo_text_str :: "string \<Rightarrow> string" where
  "demo_text_str s = replicate (length s) (CHR ''+'') @ ''.'' @ s"

fun demo_value_text :: "json \<Rightarrow> string option" where
  "demo_value_text JNull = Some ''n''"
| "demo_value_text (JStr s) = Some (''s'' @ demo_text_str s)"
| "demo_value_text _ = None"

fun demo_members_text :: "(string \<times> json) list \<Rightarrow> string option" where
  "demo_members_text [] = Some []"
| "demo_members_text ((k, v) # m) =
     (case (demo_value_text v, demo_members_text m) of
        (Some a, Some b) \<Rightarrow> Some (demo_text_str k @ a @ b)
      | _ \<Rightarrow> None)"

fun demo_to_text :: "json \<Rightarrow> string + string" where
  "demo_to_text (JObj m) = (case demo_members_text m of None \<Rightarrow> Inl ''unsupported'' | Some t \<Rightarrow> Inr t)"
| "demo_to_text _ = Inl ''unsupported''"

fun demo_count :: "string \<Rightarrow> nat \<times> string" where
  "demo_count (c # cs) =
     (if c = CHR ''+'' then (case demo_count cs of (n, r) \<Rightarrow> (Suc n, r)) else (0, cs))"
| "demo_count [] = (0, [])"

definition demo_read_str :: "string \<Rightarrow> string \<times> string" where
  "demo_read_str t = (case demo_count t of (n, r) \<Rightarrow> (take n r, drop n r))"

fun demo_members :: "nat \<Rightarrow> string \<Rightarrow> (string \<times> json) list option" where
  "demo_members 0 t = (if t = [] then Some [] else None)"
| "demo_members (Suc n) t =
     (if t = [] then Some []
      else case demo_read_str t of (k, r) \<Rightarrow>
        (case r of
           [] \<Rightarrow> None
         | c # r' \<Rightarrow>
             if c = CHR ''n'' then map_option (\<lambda>m. (k, JNull) # m) (demo_members n r')
             else (case demo_read_str r' of (s, r'') \<Rightarrow>
               map_option (\<lambda>m. (k, JStr s) # m) (demo_members n r''))))"

definition demo_from_text :: "string \<Rightarrow> json option" where
  "demo_from_text t = map_option JObj (demo_members (length t) t)"

definition demo_ext :: "demo_url ext" where
  "demo_ext =
    \<lparr>url_parse = demo_parse, url_scheme = fst, url_port = (\<lambda>u. snd (snd u)),
     url_set_port = demo_set_port, url_host = demo_host, url_host_str = (\<lambda>u. Some (fst (snd u))),
     url_to_string = demo_to_string,
     mac_from_str = (\<lambda>s. map_option MacAddr (demo_mac_bytes s)),
     mac_to_string = (\<lambda>m. case m of MacAddr bs \<Rightarrow> map (\<lambda>b. char_of (unat b)) bs),
     json_to_text = demo_to_text, json_from_text = demo_from_text,
     json_error = (\<lambda>t. ''expected value''),
     fresh_uuid = (\<lambda>n. ''id-'' @ show_nat n),
     register_payload = ''+.kn'',
     feedback_clock = (\<lambda>n. []), join_events = (\<lambda>n. []),
     wol_mac = (\<lambda>s. map_option MacAddr (demo_mac_bytes s)), send_wol = (\<lambda>m ip. None)\<rparr>"

lemma demo_count_str: "demo_count (demo_text_str s @ r) = (length s, s @ r)"
proof -
  have "demo_count (replicate n (CHR ''+'') @ CHR ''.'' # r) = (n, r)" for n r
    by (induction n) simp_all
  then show ?thesis by (simp add: demo_text_str_def)
qed

lemma demo_read_text [simp]: "demo_read_str (demo_text_str s @ r) = (s, r)"
  by (simp add: demo_read_str_def demo_count_str)

lemma demo_text_str_nonempty [simp]: "demo_text_str s @ r \<noteq> []"
  by (simp add: demo_text_str_def)

lemma demo_members_of_text:
  "demo_members_text m = Some t \<Longrightarrow> length m \<le> n \<Longrightarrow> demo_members n t = Some m"
proof (induction m arbitrary: t n)
  case Nil
  then show ?case by (cases n) auto
next
  case (Cons kv m)
  obtain k v where kv: "kv = (k, v)" by (cases kv)
  from Cons.prems(1) obtain a b where v: "demo_value_text v = Some a"
    and m: "demo_members_text m = Some b" and t: "t = demo_text_str k @ a @ b"
    by (auto simp: kv split: option.splits)
  from Cons.prems(2) obtain n' where n: "n = Suc n'" "length m \<le> n'" by (cases n) auto
  from Cons.IH [OF m n(2)] v show ?case
    by (cases v) (auto simp: kv t n(1) simp del: append_assoc)
qed

lemma demo_members_length: "demo_members_text m = Some t \<Longrightarrow> length m \<le> length t"
  by (induction m arbitrary: t)
     (auto split: option.splits simp: demo_text_str_def)

lemma demo_json_laws: "json_laws demo_ext"
proof -
  have "demo_to_text j = Inr t \<Longrightarrow> demo_from_text t = Some j" for j t
    by (cases j) (auto simp: demo_from_text_def demo_members_of_text demo_members_length
        split: option.splits)
  then show ?thesis by (simp add: json_laws_def demo_ext_def)
qed

lemma demo_mac_laws: "mac_laws demo_ext"
proof -
  have "demo_mac_bytes (map (\<lambda>b. char_of (unat b)) bs) = Some bs" for bs :: "u8 list"
  proof (induction bs)
    case Nil
    then show ?case by simp
  next
    case (Cons b bs)
    have "unat b < 2 ^ LENGTH(8)" by (rule unsigned_less)
    then have "unat b mod 256 = unat b" by simp
    with Cons show ?case by (simp add: of_char_of)
  qed
  then show ?thesis by (auto simp: mac_laws_def demo_ext_def split: MacAddr.splits)
qed

definition demo_ok :: "demo_url \<Rightarrow> bool" where
  "demo_ok u = (case u of (s, h, p) \<Rightarrow>
     map_of demo_urls (demo_to_string u) = Some u \<and>
     (p = None \<or> p \<noteq> default_port s) \<and>
     (s = ''wss'' \<longrightarrow> map_of demo_urls (demo_to_string (s, h, Some 3001)) = Some (s, h, Some 3001)) \<and>
     (s = ''ws'' \<longrightarrow> map_of demo_urls (demo_to_string (s, h, Some 3000)) = Some (s, h, Some 3000)))"

lemma show_port: "show_nat 3000 = ''3000''" "show_nat 3001 = ''3001''"
  by (simp_all add: show_nat.simps char_of_def bit_Suc_0_iff)

lemma demo_ok_all: "list_all demo_ok (map snd demo_urls)"
  by (simp add: demo_urls_def demo_ok_def demo_to_string_def show_port default_port_def)

lemma demo_ok_parse: "demo_parse s = Inr u \<Longrightarrow> demo_ok u"
proof -
  assume "demo_parse s = Inr u"
  then have "(s, u) \<in> set demo_urls"
    by (auto simp: demo_parse_def dest: map_of_SomeD split: option.splits)
  then show ?thesis using demo_ok_all unfolding list_all_iff by force
qed

lemma demo_set_port_cases:
  "demo_set_port (s, h, q) (Some p) = Inr u' \<Longrightarrow>
     (s = ''wss'' \<and> p = 3001 \<or> s = ''ws'' \<and> p = 3000) \<and> u' = (s, h, Some p)"
  by (auto simp: demo_set_port_def split: if_splits)

lemma demo_url_facts:
  assumes "demo_parse x = Inr (s, h, q)"
  shows "demo_parse (demo_to_string (s, h, q)) = Inr (s, h, q)"
    and "q = Some p \<Longrightarrow> Some p \<noteq> default_port s"
    and "s = ''wss'' \<Longrightarrow> demo_parse (demo_to_string (s, h, Some 3001)) = Inr (s, h, Some 3001)"
    and "s = ''ws'' \<Longrightarrow> demo_parse (demo_to_string (s, h, Some 3000)) = Inr (s, h, Some 3000)"
proof -
  note ok = demo_ok_parse [OF assms, unfolded demo_ok_def prod.case]
  show "demo_parse (demo_to_string (s, h, q)) = Inr (s, h, q)"
    using ok unfolding demo_parse_def by simp
  show "Some p \<noteq> default_port s" if "q = Some p"
    using ok that by fastforce
  show "demo_parse (demo_to_string (s, h, Some 3001)) = Inr (s, h, Some 3001)" if "s = ''wss''"
    using ok that unfolding demo_parse_def by simp
  show "demo_parse (demo_to_string (s, h, Some 3000)) = Inr (s, h, Some 3000)" if "s = ''ws''"
    using ok that unfolding demo_parse_def by simp
qed

lemma demo_set_port_laws:
  assumes "demo_parse x = Inr (s, h, q)" "demo_set_port (s, h, q) (Some p) = Inr u'"
  shows "demo_parse (demo_to_string u') = Inr u' \<and> fst u' = s \<and>
    demo_host u' = demo_host (s, h, q) \<and>
    snd (snd u') = (if Some p = default_port s then None else Some p)"
proof -
  note c = demo_set_port_cases [OF assms(2)]
  then consider "s = ''wss''" "p = 3001" | "s = ''ws''" "p = 3000" by blast
  then show ?thesis
  proof cases
    case 1
    with c demo_url_facts(3) [OF assms(1) 1(1)] show ?thesis
      by (simp add: demo_host_def default_port_def)
  next
    case 2
    with c demo_url_facts(4) [OF assms(1) 2(1)] show ?thesis
      by (simp add: demo_host_def default_port_def)
  qed
qed

lemma demo_url_laws: "url_laws demo_ext"
  unfolding url_laws_def demo_ext_def ext.simps
proof (intro allI impI conjI)
  fix x and u :: demo_url
  assume u: "demo_parse x = Inr u"
  obtain s h q where uu: "u = (s, h, q)" by (cases u)
  note parsed = u [unfolded uu]
  show "demo_parse (demo_to_string u) = Inr u"
    unfolding uu by (rule demo_url_facts(1) [OF parsed])
  show "Some p \<noteq> default_port (fst u)" if "snd (snd u) = Some p" for p
    using demo_url_facts(2) [OF parsed] that by (simp add: uu)
  fix p u'
  assume set: "demo_set_port u (Some p) = Inr u'"
  note laws = demo_set_port_laws [OF parsed set [unfolded uu]]
  show "demo_parse (demo_to_string u') = Inr u'" "fst u' = fst u" "demo_host u' = demo_host u"
    "snd (snd u') = (if Some p = default_port (fst u) then None else Some p)"
    using laws by (simp_all add: uu)
qed

end
