(* ===== verification/Connection_Settings.thy ===== *)
theory Connection_Settings
  imports Lgtv_Prelude
begin

text \<open>
  \<open>src/src/connection_settings.rs\<close>: the settings of a connection, their builder, and the two
  kinds of connection, to a host or to a discovered device. The device itself is the struct
  \<open>LgTvDevice\<close> of \<open>src/src/discovery.rs\<close>.
\<close>

section \<open>Data\<close>

record LgTvDevice =
  dev_friendly_name :: string
  dev_model :: string
  dev_model_number :: "string option"
  dev_serial_number :: "string option"
  dev_url :: string
  dev_udn :: string
  dev_mac_addr :: "string option"

record ConnectionSettings =
  cs_is_tls :: bool
  cs_client_key :: "string option"
  cs_force_pairing :: bool
  cs_initial_connect_retries :: bool
  cs_auto_reconnect :: bool

datatype Connection =
    Host string ConnectionSettings
  | Device LgTvDevice ConnectionSettings

text \<open>
  Every place that reads a setting matches on both constructors and takes the settings of
  either; this is that match.
\<close>

primrec settings_of :: "Connection \<Rightarrow> ConnectionSettings" where
  "settings_of (Host _ settings) = settings"
| "settings_of (Device _ settings) = settings"

section \<open>The builder\<close>

record ConnectionSettingsBuilder =
  csb_is_tls :: bool
  csb_client_key :: "string option"
  csb_force_pairing :: bool
  csb_initial_connect_retries :: bool
  csb_auto_reconnect :: bool

definition csb_new :: ConnectionSettingsBuilder where
  "csb_new = \<lparr>csb_is_tls = True, csb_client_key = None, csb_force_pairing = False,
              csb_initial_connect_retries = False, csb_auto_reconnect = False\<rparr>"

definition with_no_tls :: "ConnectionSettingsBuilder \<Rightarrow> ConnectionSettingsBuilder" where
  "with_no_tls b = b\<lparr>csb_is_tls := False\<rparr>"

definition with_client_key :: "ConnectionSettingsBuilder \<Rightarrow> string \<Rightarrow> ConnectionSettingsBuilder" where
  "with_client_key b k = b\<lparr>csb_client_key := Some k\<rparr>"

definition with_forced_pairing :: "ConnectionSettingsBuilder \<Rightarrow> ConnectionSettingsBuilder" where
  "with_forced_pairing b = b\<lparr>csb_force_pairing := True\<rparr>"

definition with_initial_connect_retries :: "ConnectionSettingsBuilder \<Rightarrow> ConnectionSettingsBuilder" where
  "with_initial_connect_retries b = b\<lparr>csb_initial_connect_retries := True\<rparr>"

definition with_auto_reconnect :: "ConnectionSettingsBuilder \<Rightarrow> ConnectionSettingsBuilder" where
  "with_auto_reconnect b = b\<lparr>csb_auto_reconnect := True\<rparr>"

definition csb_build :: "ConnectionSettingsBuilder \<Rightarrow> ConnectionSettings" where
  "csb_build b = \<lparr>cs_is_tls = csb_is_tls b, cs_client_key = csb_client_key b,
                  cs_force_pairing = csb_force_pairing b,
                  cs_initial_connect_retries = csb_initial_connect_retries b,
                  cs_auto_reconnect = csb_auto_reconnect b\<rparr>"

definition default_settings :: ConnectionSettings where
  "default_settings = csb_build csb_new"

section \<open>Display\<close>

definition debug_settings :: "ConnectionSettings \<Rightarrow> string" where
  "debug_settings s =
     ''ConnectionSettings { is_tls: '' @ show_bool (cs_is_tls s) @
     '', client_key: '' @ debug_option debug_str (cs_client_key s) @
     '', force_pairing: '' @ show_bool (cs_force_pairing s) @
     '', initial_connect_retries: '' @ show_bool (cs_initial_connect_retries s) @
     '', auto_reconnect: '' @ show_bool (cs_auto_reconnect s) @ '' }''"

definition quote_char :: string where
  "quote_char = [CHR 0x27]"

primrec display_connection :: "Connection \<Rightarrow> string" where
  "display_connection (Host host settings) =
     ''Connection to host '' @ quote_char @ host @ quote_char @ '', '' @ debug_settings settings"
| "display_connection (Device device settings) =
     ''Connection to UPnP device '' @ quote_char @ dev_friendly_name device @ quote_char @
     '', '' @ debug_settings settings"

section \<open>Properties of the builder\<close>

lemmas builder_defs = csb_new_def with_no_tls_def with_client_key_def with_forced_pairing_def
  with_initial_connect_retries_def with_auto_reconnect_def csb_build_def

datatype builder_call =
  NoTls | ClientKey string | ForcedPairing | InitialConnectRetries | AutoReconnect

primrec apply_call :: "builder_call \<Rightarrow> ConnectionSettingsBuilder \<Rightarrow> ConnectionSettingsBuilder" where
  "apply_call NoTls b = with_no_tls b"
| "apply_call (ClientKey k) b = with_client_key b k"
| "apply_call ForcedPairing b = with_forced_pairing b"
| "apply_call InitialConnectRetries b = with_initial_connect_retries b"
| "apply_call AutoReconnect b = with_auto_reconnect b"

definition last_key :: "builder_call list \<Rightarrow> string option" where
  "last_key cs = fold (\<lambda>c k. case c of ClientKey k' \<Rightarrow> Some k' | _ \<Rightarrow> k) cs None"

lemma fold_apply_call:
  "fold apply_call cs b =
    \<lparr>csb_is_tls = (csb_is_tls b \<and> NoTls \<notin> set cs),
     csb_client_key = fold (\<lambda>c k. case c of ClientKey k' \<Rightarrow> Some k' | _ \<Rightarrow> k) cs (csb_client_key b),
     csb_force_pairing = (csb_force_pairing b \<or> ForcedPairing \<in> set cs),
     csb_initial_connect_retries = (csb_initial_connect_retries b \<or> InitialConnectRetries \<in> set cs),
     csb_auto_reconnect = (csb_auto_reconnect b \<or> AutoReconnect \<in> set cs)\<rparr>"
proof (induction cs arbitrary: b)
  case Nil
  then show ?case by simp
next
  case (Cons c cs)
  then show ?case by (cases c) (auto simp: builder_defs)
qed

text \<open>The settings a chain of builder calls gives do not depend on the order of the calls or on
  repetitions, except that the last client key counts: each option is on exactly when its call
  occurs, and everything else is the default.\<close>

theorem builder_settings:
  "csb_build (fold apply_call cs csb_new) =
    \<lparr>cs_is_tls = (NoTls \<notin> set cs), cs_client_key = last_key cs,
     cs_force_pairing = (ForcedPairing \<in> set cs),
     cs_initial_connect_retries = (InitialConnectRetries \<in> set cs),
     cs_auto_reconnect = (AutoReconnect \<in> set cs)\<rparr>"
  by (simp add: fold_apply_call last_key_def csb_build_def csb_new_def)

end
