(* ===== verification/Helpers.thy ===== *)
theory Helpers
  imports External Connection_Settings Ssap_Payloads
begin

text \<open>
  \<open>src/src/helpers.rs\<close>: message identifiers, the registration request, the WebSocket URL of a
  connection and the delay before a reconnect attempt. The \<open>url\<close> crate and the JSON text come
  with the record \<open>ext\<close>; the floating-point arithmetic of the delay is modelled on the values
  that occur in it, the non-negative integral doubles and infinity.
\<close>

section \<open>Identifiers and addresses\<close>

text \<open>\<open>Uuid::new_v4\<close>: the counter is the number of identifiers made so far.\<close>

definition generate_lgtv_message_id :: "'u ext \<Rightarrow> nat \<Rightarrow> string \<times> nat" where
  "generate_lgtv_message_id e n = (fresh_uuid e n, Suc n)"

definition url_ip_addr :: "'u ext \<Rightarrow> string \<Rightarrow> IpAddr option" where
  "url_ip_addr e url = (case url_parse e url of
       Inr parsed_url \<Rightarrow>
         (case url_host e parsed_url of
            Some host \<Rightarrow>
              (case host of
                 Ipv4 ipv4 \<Rightarrow> Some (V4 ipv4)
               | Ipv6 ipv6 \<Rightarrow> Some (V6 ipv6)
               | _ \<Rightarrow> None)
          | None \<Rightarrow> None)
     | Inl _ \<Rightarrow> None)"

section \<open>The registration request\<close>

definition generate_register_request ::
    "'u ext \<Rightarrow> string option \<Rightarrow> bool \<Rightarrow> nat \<Rightarrow> LgTvRequest result \<times> nat" where
  "generate_register_request e client_key force_pairing n =
     (case json_from_text e (register_payload e) of
        None \<Rightarrow> (Inl (''Could not create register payload: '' @ json_error e (register_payload e)), n)
      | Some json_data \<Rightarrow>
          (case json_data of
             JObj payload \<Rightarrow>
               let payload = map_insert ''client-key''
                     (case client_key of Some client_key \<Rightarrow> JStr client_key | None \<Rightarrow> JNull) payload;
                   payload = map_insert ''forcePairing'' (JBool force_pairing) payload;
                   (i, n) = generate_lgtv_message_id e n
               in (Inr \<lparr>rq_type = Register, rq_id = i, rq_uri = None,
                        rq_payload = Some (JObj payload)\<rparr>, n)
           | _ \<Rightarrow> (Inl ''Could not create register payload'', n)))"

section \<open>WebSocket URLs\<close>

text \<open>The two arms that add the default port of the TV to a URL that shows none.\<close>

definition with_port :: "'u ext \<Rightarrow> 'u \<Rightarrow> u16 \<Rightarrow> string \<Rightarrow> string result" where
  "with_port e parsed_url port err = (case url_port e parsed_url of
       Some _ \<Rightarrow> Inr (url_to_string e parsed_url)
     | None \<Rightarrow>
         (case url_set_port e parsed_url (Some port) of
            Inl _ \<Rightarrow> Inl err
          | Inr parsed_url \<Rightarrow> Inr (url_to_string e parsed_url)))"

definition add_scheme :: "string \<Rightarrow> bool \<Rightarrow> string" where
  "add_scheme in_str is_tls =
     (if \<not> str_contains in_str ''://''
      then (if is_tls then ''wss'' else ''ws'') @ ''://'' @ in_str else in_str)"

definition generate_possible_websocket_url :: "'u ext \<Rightarrow> string \<Rightarrow> bool \<Rightarrow> string result" where
  "generate_possible_websocket_url e in_str is_tls =
     (if in_str = [] then Inl ''No host specified''
      else
        (case url_parse e (add_scheme in_str is_tls) of
           Inr parsed_url \<Rightarrow>
             (if url_scheme e parsed_url = ''ws'' then
                (if is_tls
                 then Inl (''Cannot use '' @ quote_char @ ''ws'' @ quote_char @
                           '' scheme with TLS (must be wss)'')
                 else with_port e parsed_url 3000 ''Could not set URL to port 3000'')
              else if url_scheme e parsed_url = ''wss'' then
                (if is_tls
                 then with_port e parsed_url 3001 ''Could not set URL to port 3001''
                 else Inl (''Cannot use '' @ quote_char @ ''wss'' @ quote_char @
                           '' scheme without TLS (must be ws)''))
              else Inl (''Invalid scheme: '' @ url_scheme e parsed_url @ '' (must be '' @
                        quote_char @ ''wss'' @ quote_char @ '' or '' @
                        quote_char @ ''ws'' @ quote_char @ '')''))
         | Inl (debug, _) \<Rightarrow> Inl (''Could not parse host: '' @ debug)))"

definition device_host :: "'u ext \<Rightarrow> LgTvDevice \<Rightarrow> string result" where
  "device_host e device = (case url_parse e (dev_url device) of
       Inr url \<Rightarrow>
         (case url_host_str e url of
            Some host \<Rightarrow> Inr host
          | None \<Rightarrow> Inl (''Could not determine hostname for UPnP device '' @ quote_char @
                         dev_friendly_name device @ quote_char))
     | Inl (_, display) \<Rightarrow> Inl (''Could not determine hostname for UPnP device '' @ quote_char @
                             dev_friendly_name device @ quote_char @ '': '' @ display))"

definition websocket_url_for_connection :: "'u ext \<Rightarrow> Connection \<Rightarrow> string result" where
  "websocket_url_for_connection e connection =
     (case (case connection of
              Host host _ \<Rightarrow> Inr host
            | Device device _ \<Rightarrow> device_host e device) of
        Inl err \<Rightarrow> Inl err
      | Inr tv_url \<Rightarrow>
          generate_possible_websocket_url e tv_url (cs_is_tls (settings_of connection)))"

section \<open>The reconnect delay\<close>

text \<open>
  The doubles that occur: \<open>FNat n\<close> is the double of value \<open>n\<close>. A \<open>u64\<close> is converted by rounding
  to 53 significant bits, to nearest and to even in a tie; \<open>2.0.powf\<close> of an integral exponent is
  exact up to the largest finite power and infinite above; the conversion to \<open>u128\<close> saturates.
  The \<open>u64\<close> addition wraps (a build with overflow checks panics instead).
\<close>

datatype F64 = FNat nat | FInf

fun f64_shift :: "nat \<Rightarrow> nat" where
  "f64_shift n = (if n < 2 ^ 53 then 0 else Suc (f64_shift (n div 2)))"

declare f64_shift.simps [simp del]

definition f64_round :: "nat \<Rightarrow> nat" where
  "f64_round n =
     (let unit = 2 ^ f64_shift n; q = n div unit; r = n mod unit
      in (if unit < 2 * r \<or> (unit = 2 * r \<and> odd q) then q + 1 else q) * unit)"

definition f64_of_u64 :: "u64 \<Rightarrow> F64" where
  "f64_of_u64 w = FNat (f64_round (unat w))"

fun f64_pow2 :: "F64 \<Rightarrow> F64" where
  "f64_pow2 (FNat n) = (if n < 1024 then FNat (2 ^ n) else FInf)"
| "f64_pow2 FInf = FInf"

fun f64_min :: "F64 \<Rightarrow> F64 \<Rightarrow> F64" where
  "f64_min FInf y = y"
| "f64_min x FInf = x"
| "f64_min (FNat m) (FNat n) = FNat (min m n)"

fun f64_max :: "F64 \<Rightarrow> F64 \<Rightarrow> F64" where
  "f64_max (FNat m) (FNat n) = FNat (max m n)"
| "f64_max _ _ = FInf"

fun f64_as_u128 :: "F64 \<Rightarrow> nat" where
  "f64_as_u128 (FNat n) = min n (2 ^ 128 - 1)"
| "f64_as_u128 FInf = 2 ^ 128 - 1"

definition reconnect_falloff :: "u64 \<Rightarrow> u64 \<Rightarrow> u64 \<Rightarrow> nat" where
  "reconnect_falloff attempt min_delay max_delay =
     (let skip_count = 6;
          delay = f64_pow2 (f64_of_u64 (attempt + skip_count))
      in f64_as_u128 (f64_max (f64_min delay (f64_of_u64 max_delay)) (f64_of_u64 min_delay)))"

section \<open>The delay\<close>

lemma f64_shift_large: "2 ^ 53 \<le> n \<Longrightarrow> 2 ^ (52 + f64_shift n) \<le> n"
proof (induction n rule: f64_shift.induct)
  case (1 n)
  show ?case
  proof (cases "n div 2 < 2 ^ 53")
    case True
    with 1 show ?thesis by (simp add: f64_shift.simps [of n] f64_shift.simps [of "n div 2"])
  next
    case False
    with 1 have "2 ^ (52 + f64_shift (n div 2)) \<le> n div 2" by simp
    then have "2 * 2 ^ (52 + f64_shift (n div 2)) \<le> n" by linarith
    with 1(2) show ?thesis by (simp add: f64_shift.simps [of n] power_add)
  qed
qed

lemma f64_round_exact: "n < 2 ^ 53 \<Longrightarrow> f64_round n = n"
  by (simp add: f64_round_def f64_shift.simps)

lemma f64_round_large: "2 ^ 53 \<le> n \<Longrightarrow> 2 ^ 52 \<le> f64_round n"
proof -
  assume n: "2 ^ 53 \<le> n"
  define k :: nat where "k = 2 ^ f64_shift n"
  have "2 ^ 52 * k \<le> n" using f64_shift_large [OF n] by (simp add: k_def power_add)
  then have "2 ^ 52 * k div k \<le> n div k" by (rule div_le_mono)
  then have "2 ^ 52 \<le> n div k" by (simp add: k_def)
  then have "2 ^ 52 * 1 \<le> (if k < 2 * (n mod k) \<or> (k = 2 * (n mod k) \<and> odd (n div k))
      then n div k + 1 else n div k) * k"
    by (intro mult_le_mono) (simp_all add: k_def)
  then show ?thesis unfolding f64_round_def Let_def k_def [symmetric] by simp
qed

lemma f64_power_or_large:
  "f64_pow2 (FNat (f64_round n)) = (if n < 1024 then FNat (2 ^ n) else FInf)"
proof (cases "n < 2 ^ 53")
  case True
  then show ?thesis by (simp add: f64_round_exact)
next
  case False
  then have "2 ^ 52 \<le> f64_round n" by (intro f64_round_large) simp
  with False show ?thesis by simp
qed

text \<open>The delay, over the integers: a power of two, clamped.\<close>

lemma reconnect_falloff_eq:
  assumes "unat max_delay < 2 ^ 53" "unat min_delay < 2 ^ 53"
  shows "reconnect_falloff a min_delay max_delay =
    max (min (2 ^ unat (a + 6)) (unat max_delay)) (unat min_delay)"
proof -
  have exact: "f64_of_u64 max_delay = FNat (unat max_delay)"
    "f64_of_u64 min_delay = FNat (unat min_delay)"
    using assms by (simp_all add: f64_of_u64_def f64_round_exact)
  let ?d = "f64_pow2 (f64_of_u64 (a + 6))"
  have min: "f64_min ?d (FNat (unat max_delay)) = FNat (min (2 ^ unat (a + 6)) (unat max_delay))"
  proof (cases "unat (a + 6) < 1024")
    case True
    then show ?thesis unfolding f64_of_u64_def f64_power_or_large by simp
  next
    case False
    have "unat max_delay \<le> 2 ^ 53" using assms by simp
    also have "(2 :: nat) ^ 53 \<le> 2 ^ unat (a + 6)" using False by (intro power_increasing) simp_all
    finally have "min (2 ^ unat (a + 6)) (unat max_delay) = unat max_delay" by simp
    with False show ?thesis unfolding f64_of_u64_def f64_power_or_large by simp
  qed
  have small: "m \<le> 2 ^ 128 - 1" if "m < 2 ^ 53" for m :: nat
    using that by simp
  have "max (min (2 ^ unat (a + 6)) (unat max_delay)) (unat min_delay) < 2 ^ 53"
    using assms by (simp add: min_def max_def)
  from small [OF this] show ?thesis
    unfolding reconnect_falloff_def Let_def exact min by simp
qed

lemma unat_plus_6: "unat a + 6 < 2 ^ 64 \<Longrightarrow> unat (a + 6) = unat (a :: u64) + 6"
  by (simp add: unat_add_lem [THEN iffD1])

text \<open>The reconnect delay is the power \<open>2 ^ (attempt + 6)\<close> milliseconds clamped to the two
  bounds, for every attempt number the addition does not wrap on and all bounds that a double
  holds exactly. The detour over doubles, the infinite power included, loses nothing.\<close>

theorem falloff_is_clamped_power:
  assumes "unat attempt + 6 < 2 ^ 64" "unat min_delay < 2 ^ 53" "unat max_delay < 2 ^ 53"
  shows "reconnect_falloff attempt min_delay max_delay =
    max (min (2 ^ (unat attempt + 6)) (unat max_delay)) (unat min_delay)"
  using assms by (simp add: reconnect_falloff_eq unat_plus_6)

theorem falloff_is_clamped_power_witness:
  "reconnect_falloff 3 250 10000 = 512 \<and> reconnect_falloff 5000 250 10000 = 10000"
proof
  show "reconnect_falloff 3 250 10000 = 512"
    using falloff_is_clamped_power [of 3 250 10000] by simp
  have "(10000 :: nat) \<le> 2 ^ 14" by simp
  also have "(2 :: nat) ^ 14 \<le> 2 ^ 5006" by (intro power_increasing) simp_all
  finally show "reconnect_falloff 5000 250 10000 = 10000"
    using falloff_is_clamped_power [of 5000 250 10000] by simp
qed

text \<open>Whatever the attempt number, wrapped additions included, the delay of a reconnect with
  the manager's bounds is at least 250 milliseconds and at most ten seconds; it starts at the
  lower bound, doubles from the third attempt on and has reached ten seconds at the eighth.\<close>

theorem falloff_within_bounds:
  "250 \<le> reconnect_falloff attempt 250 10000 \<and> reconnect_falloff attempt 250 10000 \<le> 10000 \<and>
   map (\<lambda>a. reconnect_falloff a 250 10000) [0, 1, 2, 3, 4, 5, 6, 7, 8] =
     [250, 250, 256, 512, 1024, 2048, 4096, 8192, 10000]"
  by (simp add: reconnect_falloff_eq)

text \<open>The delay never shrinks from one attempt to a later one (short of the wrap).\<close>

theorem falloff_monotone:
  assumes "a \<le> b" "unat b + 6 < 2 ^ 64" "unat min_delay < 2 ^ 53" "unat max_delay < 2 ^ 53"
  shows "reconnect_falloff a min_delay max_delay \<le> reconnect_falloff b min_delay max_delay"
proof -
  have ab: "unat a \<le> unat b" using assms(1) by (simp add: word_le_nat_alt)
  with assms(2) have "unat (a + 6) \<le> unat (b + 6)" by (simp add: unat_plus_6)
  then have "(2 :: nat) ^ unat (a + 6) \<le> 2 ^ unat (b + 6)" by (intro power_increasing) simp_all
  then have "max (min (2 ^ unat (a + 6)) x) y \<le> max (min (2 ^ unat (b + 6)) x) y" for x y :: nat
    by (intro max.mono min.mono) simp_all
  then show ?thesis using assms(3,4) by (simp only: reconnect_falloff_eq)
qed

theorem falloff_monotone_witness:
  "reconnect_falloff 4 250 10000 \<le> reconnect_falloff 7 250 10000"
  by (rule falloff_monotone) simp_all

section \<open>The URL of a connection\<close>

lemma with_port_cases:
  assumes "url_laws e" "url_parse e x = Inr u" "with_port e u p err = Inr w"
  obtains u' where "url_parse e w = Inr u'" "url_scheme e u' = url_scheme e u"
    "url_host e u' = url_host e u"
    "Some p \<noteq> default_port (url_scheme e u) \<Longrightarrow>
       url_port e u' = (case url_port e u of None \<Rightarrow> Some p | Some q \<Rightarrow> Some q)"
proof (cases "url_port e u")
  case None
  with assms(3) obtain u' where u': "url_set_port e u (Some p) = Inr u'" "w = url_to_string e u'"
    by (auto simp: with_port_def split: sum.splits)
  show thesis
    using url_set_port_parse [OF assms(1,2) u'(1)] url_set_port_scheme [OF assms(1,2) u'(1)]
      url_set_port_host [OF assms(1,2) u'(1)] url_set_port_port [OF assms(1,2) u'(1)] None u'(2)
    by (intro that [of u']) auto
next
  case (Some q)
  with assms(3) have "w = url_to_string e u" by (simp add: with_port_def)
  with url_reparse [OF assms(1,2)] Some show thesis by (intro that [of u]) simp_all
qed

definition tls_scheme :: "bool \<Rightarrow> string" where
  "tls_scheme is_tls = (if is_tls then ''wss'' else ''ws'')"

definition tv_port :: "bool \<Rightarrow> u16" where
  "tv_port is_tls = (if is_tls then 3001 else 3000)"

lemma generate_url_eq:
  "generate_possible_websocket_url e s is_tls = Inr w \<longleftrightarrow>
     s \<noteq> [] \<and> (\<exists>u. url_parse e (add_scheme s is_tls) = Inr u \<and> url_scheme e u = tls_scheme is_tls \<and>
       with_port e u (tv_port is_tls) (''Could not set URL to port '' @
         (if is_tls then ''3001'' else ''3000'')) = Inr w)"
  by (cases is_tls)
     (auto simp: generate_possible_websocket_url_def tls_scheme_def tv_port_def
       split: sum.splits prod.splits if_splits)

text \<open>C34: A WebSocket URL the manager generates parses as a URL, with the scheme \<open>wss\<close> exactly
  when TLS was asked for (\<open>ws\<close> otherwise), the host that was given, and a port: the one given,
  or, where the parsed input shows none, 3001 with TLS and 3000 without.\<close>

theorem websocket_url_sound:
  assumes "url_laws e" "generate_possible_websocket_url e s is_tls = Inr w"
  shows "\<exists>given u. url_parse e (add_scheme s is_tls) = Inr given \<and> url_parse e w = Inr u \<and>
    url_scheme e u = tls_scheme is_tls \<and> url_host e u = url_host e given \<and>
    url_port e u = (case url_port e given of None \<Rightarrow> Some (tv_port is_tls) | Some p \<Rightarrow> Some p)"
proof -
  from assms(2) obtain given err where
    given: "url_parse e (add_scheme s is_tls) = Inr given" "url_scheme e given = tls_scheme is_tls"
      and w: "with_port e given (tv_port is_tls) err = Inr w"
    unfolding generate_url_eq by blast
  have "Some (tv_port is_tls) \<noteq> default_port (url_scheme e given)"
    by (simp add: given(2) tls_scheme_def tv_port_def default_port_def)
  with with_port_cases [OF assms(1) given(1) w] given show ?thesis by metis
qed

theorem websocket_url_sound_witness:
  "\<exists>given u. url_parse demo_ext ''wss://tv'' = Inr given \<and>
    url_parse demo_ext ''wss://tv:3001/'' = Inr u \<and> url_scheme demo_ext u = ''wss'' \<and>
    url_host demo_ext u = url_host demo_ext given \<and> url_port demo_ext u = Some 3001"
proof -
  have "generate_possible_websocket_url demo_ext ''tv'' True = Inr ''wss://tv:3001/''"
    by (simp add: generate_possible_websocket_url_def add_scheme_def with_port_def demo_ext_def
        demo_parse_def demo_urls_def demo_set_port_def demo_to_string_def show_port)
  from websocket_url_sound [OF demo_url_laws this] show ?thesis
    by (simp add: add_scheme_def tls_scheme_def tv_port_def demo_ext_def demo_parse_def demo_urls_def)
qed

text \<open>A connection gives a WebSocket URL exactly when its host text (for a device, the host of
  its URL) is not empty and parses, with the scheme its TLS setting calls for, and shows a port
  or accepts the default one; in every other case the result is an error text, never a URL.\<close>

theorem websocket_url_iff:
  "(\<exists>w. websocket_url_for_connection e connection = Inr w) \<longleftrightarrow>
     (\<exists>s u. (case connection of
               Host host _ \<Rightarrow> s = host
             | Device device _ \<Rightarrow> \<exists>d. url_parse e (dev_url device) = Inr d \<and> url_host_str e d = Some s) \<and>
       s \<noteq> [] \<and>
       url_parse e (add_scheme s (cs_is_tls (settings_of connection))) = Inr u \<and>
       url_scheme e u = tls_scheme (cs_is_tls (settings_of connection)) \<and>
       (case url_port e u of
          Some _ \<Rightarrow> True
        | None \<Rightarrow> \<exists>u'. url_set_port e u (Some (tv_port (cs_is_tls (settings_of connection)))) = Inr u'))"
proof -
  have port: "(\<exists>w. with_port e u p err = Inr w) \<longleftrightarrow>
      (case url_port e u of Some _ \<Rightarrow> True | None \<Rightarrow> \<exists>u'. url_set_port e u (Some p) = Inr u')"
    for u p err
    by (auto simp: with_port_def split: option.splits sum.splits)
  define good where "good s u is_tls \<longleftrightarrow> s \<noteq> [] \<and>
      url_parse e (add_scheme s is_tls) = Inr u \<and> url_scheme e u = tls_scheme is_tls \<and>
      (case url_port e u of
         Some _ \<Rightarrow> True | None \<Rightarrow> \<exists>u'. url_set_port e u (Some (tv_port is_tls)) = Inr u')"
    for s u is_tls
  have gen: "(\<exists>w. generate_possible_websocket_url e s is_tls = Inr w) \<longleftrightarrow> (\<exists>u. good s u is_tls)"
    for s is_tls
  proof -
    have "(\<exists>w. generate_possible_websocket_url e s is_tls = Inr w) \<longleftrightarrow>
        (\<exists>u. s \<noteq> [] \<and> url_parse e (add_scheme s is_tls) = Inr u \<and>
          url_scheme e u = tls_scheme is_tls \<and> (\<exists>w. with_port e u (tv_port is_tls)
            (''Could not set URL to port '' @ (if is_tls then ''3001'' else ''3000'')) = Inr w))"
      unfolding generate_url_eq by blast
    then show ?thesis unfolding port good_def .
  qed
  have dev: "device_host e device = Inr s \<longleftrightarrow>
      (\<exists>d. url_parse e (dev_url device) = Inr d \<and> url_host_str e d = Some s)" for device s
    by (auto simp: device_host_def split: sum.splits option.splits prod.splits)
  have "(\<exists>w. websocket_url_for_connection e connection = Inr w) \<longleftrightarrow>
     (\<exists>s u. (case connection of
               Host host _ \<Rightarrow> s = host
             | Device device _ \<Rightarrow> device_host e device = Inr s) \<and>
       good s u (cs_is_tls (settings_of connection)))"
  proof (cases connection)
    case (Host host settings)
    then have "websocket_url_for_connection e connection =
        generate_possible_websocket_url e host (cs_is_tls settings)"
      by (simp add: websocket_url_for_connection_def)
    then show ?thesis unfolding Host by (simp add: gen)
  next
    case (Device device settings)
    show ?thesis
    proof (cases "device_host e device")
      case (Inl err)
      then show ?thesis by (simp add: Device websocket_url_for_connection_def)
    next
      case (Inr s)
      then have "websocket_url_for_connection e connection =
          generate_possible_websocket_url e s (cs_is_tls settings)"
        by (simp add: Device websocket_url_for_connection_def)
      with Inr show ?thesis unfolding Device by (simp add: gen)
    qed
  qed
  then show ?thesis unfolding good_def dev .
qed

text \<open>
  A port written out that happens to be the scheme's default is not shown by the parsed URL, so
  it is replaced too.
\<close>

lemma explicit_default_port_replaced:
  "generate_possible_websocket_url demo_ext ''wss://tv:443/'' True = Inr ''wss://tv:3001/''"
  by (simp add: generate_possible_websocket_url_def add_scheme_def with_port_def demo_ext_def
      demo_parse_def demo_urls_def demo_set_port_def demo_to_string_def show_port)

section \<open>The registration request\<close>

text \<open>Registration: where the bundled payload is a JSON object with ordered keys, the request
  is of type \<open>register\<close> with a fresh identifier and no address; its payload holds the client key
  (null without one) and the pairing flag, and every other member of the bundled payload as it
  was, with the keys still ordered.\<close>

theorem register_request_payload:
  assumes "json_from_text e (register_payload e) = Some (JObj m)" "keys_sorted m"
  shows "\<exists>p. generate_register_request e key force n =
      (Inr \<lparr>rq_type = Register, rq_id = fresh_uuid e n, rq_uri = None, rq_payload = Some (JObj p)\<rparr>,
       Suc n) \<and>
    keys_sorted p \<and>
    map_of p = (map_of m)(''client-key'' \<mapsto> (case key of Some k \<Rightarrow> JStr k | None \<Rightarrow> JNull),
                          ''forcePairing'' \<mapsto> JBool force)"
  using assms
  by (simp add: generate_register_request_def generate_lgtv_message_id_def Let_def
      keys_sorted_map_insert map_of_map_insert)

theorem register_request_payload_witness:
  "generate_register_request demo_ext (Some ''key'') True 4 =
     (Inr \<lparr>rq_type = Register, rq_id = ''id-4'', rq_uri = None,
           rq_payload = Some (JObj [(''client-key'', JStr ''key''), (''forcePairing'', JBool True),
                                    (''k'', JNull)])\<rparr>, 5)"
proof -
  have payload: "json_from_text demo_ext (register_payload demo_ext) = Some (JObj [(''k'', JNull)])"
    by (simp add: demo_ext_def demo_from_text_def demo_read_str_def eval_nat_numeral)
  have four: "show_nat 4 = ''4''" by (simp add: show_nat.simps char_of_def bit_Suc_0_iff)
  from register_request_payload [OF payload, of "Some ''key''" True 4] payload show ?thesis
    by (auto simp: generate_register_request_def generate_lgtv_message_id_def demo_ext_def four)
qed

end
