(* ===== verification/Discovery.thy ===== *)
theory Discovery
  imports Helpers
begin

text \<open>
  \<open>src/src/discovery.rs\<close>: the search for LG TVs on the network and the MAC address of a host. What
  the UPnP crate finds is a list of search results (a device or an error, in the order they
  arrive), the output of the \<open>arp\<close> tool a text or an error; the standard library's formatting of
  addresses and its splitting of text are written out.
\<close>

section \<open>Text of an address\<close>

definition show_ipv4 :: "32 word \<Rightarrow> string" where
  "show_ipv4 w = (let n = unat w in
     show_nat (n div 2 ^ 24) @ ''.'' @ show_nat (n div 2 ^ 16 mod 256) @ ''.'' @
     show_nat (n div 2 ^ 8 mod 256) @ ''.'' @ show_nat (n mod 256))"

fun show_hex :: "nat \<Rightarrow> string" where
  "show_hex n = (if n < 16 then [hex_digit n] else show_hex (n div 16) @ [hex_digit (n mod 16)])"

declare show_hex.simps [simp del]

definition ipv6_segments :: "128 word \<Rightarrow> nat list" where
  "ipv6_segments w = map (\<lambda>i. unat w div 2 ^ (16 * i) mod 2 ^ 16) [7, 6, 5, 4, 3, 2, 1, 0]"

text \<open>The first longest run of zero segments, as its start and length.\<close>

fun zero_run :: "nat \<Rightarrow> nat list \<Rightarrow> nat \<times> nat \<Rightarrow> nat \<times> nat \<Rightarrow> nat \<times> nat" where
  "zero_run i [] cur longest = longest"
| "zero_run i (s # ss) cur longest =
     (if s = 0 then
        (let cur = (if snd cur = 0 then i else fst cur, Suc (snd cur))
         in zero_run (Suc i) ss cur (if snd longest < snd cur then cur else longest))
      else zero_run (Suc i) ss (0, 0) longest)"

fun join_hex :: "nat list \<Rightarrow> string" where
  "join_hex [] = []"
| "join_hex [s] = show_hex s"
| "join_hex (s # ss) = show_hex s @ '':'' @ join_hex ss"

definition show_ipv6 :: "128 word \<Rightarrow> string" where
  "show_ipv6 w = (let segs = ipv6_segments w in
     if take 6 segs = [0, 0, 0, 0, 0, 0xFFFF] then ''::ffff:'' @ show_ipv4 (ucast w)
     else case zero_run 0 segs (0, 0) (0, 0) of (start, len) \<Rightarrow>
       if 1 < len then join_hex (take start segs) @ ''::'' @ join_hex (drop (start + len) segs)
       else join_hex segs)"

primrec show_ip :: "IpAddr \<Rightarrow> string" where
  "show_ip (V4 w) = show_ipv4 w"
| "show_ip (V6 w) = show_ipv6 w"

section \<open>Lines and words\<close>

text \<open>\<open>str::lines\<close>: a line ends at a line feed, or at the two characters CR LF.\<close>

definition strip_cr :: "string \<Rightarrow> string" where
  "strip_cr s = (if s \<noteq> [] \<and> last s = CHR 0x0D then butlast s else s)"

fun lines_from :: "string \<Rightarrow> string \<Rightarrow> string list" where
  "lines_from acc [] = (if acc = [] then [] else [rev acc])"
| "lines_from acc (c # cs) =
     (if c = CHR 0x0A then strip_cr (rev acc) # lines_from [] cs else lines_from (c # acc) cs)"

definition is_whitespace :: "char \<Rightarrow> bool" where
  "is_whitespace c = (let n = (of_char c :: nat) in 9 \<le> n \<and> n \<le> 13 \<or> n = 32)"

text \<open>\<open>split_whitespace\<close>; the \<open>trim\<close> before it changes nothing.\<close>

fun words_from :: "string \<Rightarrow> string \<Rightarrow> string list" where
  "words_from acc [] = (if acc = [] then [] else [rev acc])"
| "words_from acc (c # cs) =
     (if is_whitespace c
      then (if acc = [] then words_from [] cs else rev acc # words_from [] cs)
      else words_from (c # acc) cs)"

section \<open>The MAC address of a host\<close>

text \<open>\<open>arp s\<close> is the standard output of \<open>arp -n s\<close>, or the error of starting it.\<close>

type_synonym arp_tool = "string \<Rightarrow> string result"

fun first_mac :: "'u ext \<Rightarrow> string list \<Rightarrow> MacAddr option" where
  "first_mac e [] = None"
| "first_mac e (output_chunk # output_chunks) =
     (case mac_from_str e output_chunk of
        Some mac_addr \<Rightarrow> Some mac_addr
      | None \<Rightarrow> first_mac e output_chunks)"

fun mac_in_lines :: "'u ext \<Rightarrow> string \<Rightarrow> string list \<Rightarrow> MacAddr option" where
  "mac_in_lines e ip [] = None"
| "mac_in_lines e ip (line # lns) =
     (if str_contains line ip then first_mac e (words_from [] line) else mac_in_lines e ip lns)"

definition mac_address_for_ip :: "'u ext \<Rightarrow> arp_tool \<Rightarrow> IpAddr \<Rightarrow> MacAddr option" where
  "mac_address_for_ip e arp ip = (case arp (show_ip ip) of
       Inr output_str \<Rightarrow> mac_in_lines e (show_ip ip) (lines_from [] output_str)
     | Inl _ \<Rightarrow> None)"

section \<open>Discovery\<close>

text \<open>A media renderer as the UPnP crate describes it.\<close>

record UpnpDevice =
  upnp_udn :: string
  upnp_manufacturer :: string
  upnp_friendly_name :: string
  upnp_model_name :: string
  upnp_model_number :: "string option"
  upnp_serial_number :: "string option"
  upnp_url :: string

definition display_device :: "LgTvDevice \<Rightarrow> string" where
  "display_device d = dev_friendly_name d @ '' ('' @ dev_model d @ '') ['' @ dev_udn d @ '']''"

definition is_lg_tv :: "UpnpDevice \<Rightarrow> bool" where
  "is_lg_tv device \<longleftrightarrow> starts_with (upnp_manufacturer device) ''LG Elec'' \<and>
     str_contains (upnp_model_name device) ''TV''"

definition lgtv_device_of :: "'u ext \<Rightarrow> arp_tool \<Rightarrow> UpnpDevice \<Rightarrow> LgTvDevice" where
  "lgtv_device_of e arp device =
     \<lparr>dev_friendly_name = upnp_friendly_name device,
      dev_model = upnp_model_name device,
      dev_model_number = upnp_model_number device,
      dev_serial_number = upnp_serial_number device,
      dev_url = upnp_url device,
      dev_udn = upnp_udn device,
      dev_mac_addr = map_option (mac_to_string e)
        (Option.bind (url_ip_addr e (upnp_url device)) (mac_address_for_ip e arp))\<rparr>"

text \<open>The loop over the search results, with the UDNs seen and the TVs found so far.\<close>

fun discover_loop :: "'u ext \<Rightarrow> arp_tool \<Rightarrow> string set \<Rightarrow> LgTvDevice list \<Rightarrow>
    UpnpDevice result list \<Rightarrow> LgTvDevice list result" where
  "discover_loop e arp seen_udns devices [] = Inr devices"
| "discover_loop e arp seen_udns devices (Inl err # results) =
     Inl (''UPnP discovery error: '' @ debug_str err)"
| "discover_loop e arp seen_udns devices (Inr device # results) =
     (if upnp_udn device \<in> seen_udns then discover_loop e arp seen_udns devices results
      else if is_lg_tv device
        then discover_loop e arp (insert (upnp_udn device) seen_udns)
               (devices @ [lgtv_device_of e arp device]) results
        else discover_loop e arp (insert (upnp_udn device) seen_udns) devices results)"

definition discover_lgtv_devices :: "'u ext \<Rightarrow> arp_tool \<Rightarrow> UpnpDevice result list result \<Rightarrow>
    LgTvDevice list result" where
  "discover_lgtv_devices e arp search = (case search of
       Inr discovered_devices \<Rightarrow> discover_loop e arp {} [] discovered_devices
     | Inl _ \<Rightarrow> Inr [])"

section \<open>Properties\<close>

text \<open>The specification: the devices whose UDN has not come before.\<close>

fun first_by_udn :: "string set \<Rightarrow> UpnpDevice list \<Rightarrow> UpnpDevice list" where
  "first_by_udn seen [] = []"
| "first_by_udn seen (d # ds) =
     (if upnp_udn d \<in> seen then first_by_udn seen ds
      else d # first_by_udn (insert (upnp_udn d) seen) ds)"

lemma discover_loop_devices:
  "discover_loop e arp seen devices (map Inr ds) =
    Inr (devices @ map (lgtv_device_of e arp) (filter is_lg_tv (first_by_udn seen ds)))"
  by (induction ds arbitrary: seen devices) simp_all

lemma discover_loop_error:
  "discover_loop e arp seen devices (map Inr ds @ Inl err # rs) =
    Inl (''UPnP discovery error: '' @ debug_str err)"
  by (induction ds arbitrary: seen devices) simp_all

lemma split_results: "(\<exists>ds. rs = map Inr ds) \<or> (\<exists>ds err rest. rs = map Inr ds @ Inl err # rest)"
proof (induction rs)
  case Nil
  then show ?case by simp
next
  case (Cons r rs)
  show ?case
  proof (cases r)
    case (Inl err)
    then have "r # rs = map Inr [] @ Inl err # rs" by simp
    then show ?thesis by blast
  next
    case (Inr d)
    with Cons.IH show ?thesis
      by (metis append_Cons list.simps(9))
  qed
qed

lemma first_by_udn_udns:
  "distinct (map upnp_udn (first_by_udn seen ds)) \<and>
   upnp_udn ` set (first_by_udn seen ds) = upnp_udn ` set ds - seen"
  by (induction ds arbitrary: seen) auto

lemma distinct_map_filter_udn:
  "distinct (map upnp_udn ds) \<Longrightarrow>
    distinct (map dev_udn (map (lgtv_device_of e arp) (filter P ds)))"
  by (induction ds) (auto simp: lgtv_device_of_def)

text \<open>C36: Discovery returns the LG TVs among the first device of each UDN, in the order they were
  found, each once and with the fields of its description; one error from the search, wherever
  it comes, loses every TV found and is the result; a search that does not start finds none.\<close>

theorem discovery_spec:
  "discover_lgtv_devices e arp (Inr (map Inr ds)) =
     Inr (map (lgtv_device_of e arp) (filter is_lg_tv (first_by_udn {} ds))) \<and>
   discover_lgtv_devices e arp (Inr (map Inr ds @ Inl err # rest)) =
     Inl (''UPnP discovery error: '' @ debug_str err) \<and>
   discover_lgtv_devices e arp (Inl err) = Inr []"
  by (simp add: discover_lgtv_devices_def discover_loop_devices discover_loop_error)

text \<open>No two discovered TVs share a UDN, and the UDNs found are among those of the LG TVs that
  answered.\<close>

theorem discovered_devices_distinct:
  assumes "discover_lgtv_devices e arp search = Inr tvs"
  shows "distinct (map dev_udn tvs) \<and>
    (\<forall>tv \<in> set tvs. \<exists>rs d. search = Inr rs \<and> Inr d \<in> set rs \<and> is_lg_tv d \<and>
       tv = lgtv_device_of e arp d)"
proof (cases search)
  case (Inl err)
  with assms show ?thesis by (simp add: discover_lgtv_devices_def)
next
  case (Inr rs)
  consider ds where "rs = map Inr ds" | ds err rest where "rs = map Inr ds @ Inl err # rest"
    using split_results [of rs] by blast
  then show ?thesis
  proof cases
    case 1
    with assms Inr have tvs: "tvs = map (lgtv_device_of e arp) (filter is_lg_tv (first_by_udn {} ds))"
      by (simp add: discovery_spec)
    have sub: "set (first_by_udn seen ds) \<subseteq> set ds" for seen
      by (induction ds arbitrary: seen) auto
    show ?thesis
      using Inr 1 sub distinct_map_filter_udn [of "first_by_udn {} ds"] first_by_udn_udns [of "{}" ds]
      by (auto simp: tvs)
  next
    case 2
    with assms Inr show ?thesis by (simp add: discovery_spec)
  qed
qed

theorem discovered_devices_distinct_witness:
  "\<exists>tv. discover_lgtv_devices demo_ext (\<lambda>_. Inl ''no arp'')
      (Inr [Inr \<lparr>upnp_udn = ''a'', upnp_manufacturer = ''LG Electronics'',
                 upnp_friendly_name = ''tv'', upnp_model_name = ''LG TV'', upnp_model_number = None,
                 upnp_serial_number = None, upnp_url = ''http://tv/''\<rparr>,
            Inr \<lparr>upnp_udn = ''a'', upnp_manufacturer = ''LG Electronics'',
                 upnp_friendly_name = ''tv'', upnp_model_name = ''LG TV'', upnp_model_number = None,
                 upnp_serial_number = None, upnp_url = ''http://tv/''\<rparr>]) = Inr [tv] \<and>
    distinct (map dev_udn [tv])"
proof -
  let ?d = "\<lparr>upnp_udn = ''a'', upnp_manufacturer = ''LG Electronics'',
      upnp_friendly_name = ''tv'', upnp_model_name = ''LG TV'', upnp_model_number = None,
      upnp_serial_number = None, upnp_url = ''http://tv/''\<rparr>"
  have run: "discover_lgtv_devices demo_ext (\<lambda>_. Inl ''no arp'') (Inr [Inr ?d, Inr ?d]) =
      Inr [lgtv_device_of demo_ext (\<lambda>_. Inl ''no arp'') ?d]"
    by (simp add: discover_lgtv_devices_def is_lg_tv_def)
  from discovered_devices_distinct [OF run] run show ?thesis by blast
qed

text \<open>
  The MAC address: the first word that is one, of the first line that names the address; a later
  line that names it is never looked at.
\<close>

lemma first_mac_SomeD:
  "first_mac e ws = Some m \<Longrightarrow>
    \<exists>pre w post. ws = pre @ w # post \<and> mac_from_str e w = Some m \<and>
      (\<forall>v \<in> set pre. mac_from_str e v = None)"
proof (induction ws)
  case Nil
  then show ?case by simp
next
  case (Cons w ws)
  show ?case
  proof (cases "mac_from_str e w")
    case None
    with Cons obtain pre v post where "ws = pre @ v # post" "mac_from_str e v = Some m"
      "\<forall>v \<in> set pre. mac_from_str e v = None" by auto
    with None have "w # ws = (w # pre) @ v # post \<and> mac_from_str e v = Some m \<and>
        (\<forall>v \<in> set (w # pre). mac_from_str e v = None)" by simp
    then show ?thesis by blast
  next
    case (Some m')
    with Cons.prems have "w # ws = [] @ w # ws \<and> mac_from_str e w = Some m" by simp
    then show ?thesis by fastforce
  qed
qed

lemma mac_in_lines_find:
  "mac_in_lines e ip lns = (case find (\<lambda>line. str_contains line ip) lns of
     None \<Rightarrow> None | Some line \<Rightarrow> first_mac e (words_from [] line))"
  by (induction lns) simp_all

text \<open>A MAC address is read from the output of \<open>arp\<close> for the address: it is the first word
  that is a MAC address on the first line in which the text of the address occurs.\<close>

theorem mac_address_from_first_line:
  assumes "mac_address_for_ip e arp ip = Some m"
  shows "\<exists>out line pre w post. arp (show_ip ip) = Inr out \<and>
    find (\<lambda>line. str_contains line (show_ip ip)) (lines_from [] out) = Some line \<and>
    words_from [] line = pre @ w # post \<and> mac_from_str e w = Some m \<and>
    (\<forall>v \<in> set pre. mac_from_str e v = None)"
proof -
  from assms obtain out line where "arp (show_ip ip) = Inr out"
    "find (\<lambda>line. str_contains line (show_ip ip)) (lines_from [] out) = Some line"
    "first_mac e (words_from [] line) = Some m"
    by (auto simp: mac_address_for_ip_def mac_in_lines_find split: sum.splits option.splits)
  with first_mac_SomeD show ?thesis by metis
qed

theorem mac_address_from_first_line_witness:
  "\<exists>line pre w post. find (\<lambda>line. str_contains line ''10.0.0.1'')
      (lines_from [] ''Address MAC\<newline>10.0.0.1 x\<newline>10.0.0.1 y'') = Some line \<and>
    words_from [] line = pre @ w # post \<and> mac_from_str demo_ext w = Some (MacAddr [49, 48, 46, 48, 46, 48, 46, 49])"
proof -
  have Inr_inject: "(Inr x = (Inr y :: string result)) = (x = y)" for x y by simp
  have ip: "show_ipv4 167772161 = ''10.0.0.1''"
    by (simp add: show_ipv4_def Let_def show_nat.simps char_of_def bit_Suc_0_iff)
  have "mac_address_for_ip demo_ext (\<lambda>_. Inr ''Address MAC\<newline>10.0.0.1 x\<newline>10.0.0.1 y'') (V4 0x0A000001) =
      Some (MacAddr [49, 48, 46, 48, 46, 48, 46, 49])"
    by (simp add: mac_address_for_ip_def ip strip_cr_def is_whitespace_def demo_ext_def Let_def)
  from mac_address_from_first_line [OF this] show ?thesis
    unfolding show_ip.simps ip Inr_inject [THEN eq_reflection] by blast
qed

end
