(* ===== verification/Tv_State.thy ===== *)
theory Tv_State
  imports Ssap_Payloads
begin

text \<open>
  \<open>src/src/state.rs\<close>: what the manager knows about the TV, and the conversions from the payloads
  that report it.
\<close>

record LastSeenTv =
  lst_websocket_url :: "string option"
  lst_client_key :: "string option"
  lst_mac_addr :: "MacAddr option"

record PowerState =
  ps_state :: string
  ps_processing :: "string option"

definition power_state_from :: "GetPowerStatePayload \<Rightarrow> PowerState" where
  "power_state_from p = \<lparr>ps_state = gps_state p, ps_processing = gps_processing p\<rparr>"

record TvState =
  ts_power_state :: "PowerState option"
  ts_volume :: "u8 option"
  ts_is_muted :: "bool option"
  ts_is_screen_on :: "bool option"
  ts_is_volume_settable :: "bool option"

definition tv_state_default :: TvState where
  "tv_state_default = \<lparr>ts_power_state = None, ts_volume = None, ts_is_muted = None,
                       ts_is_screen_on = None, ts_is_volume_settable = None\<rparr>"

record TvInfo =
  ti_receiver_type :: string
  ti_model_name :: string
  ti_serial_number :: "string option"
  ti_program_mode :: bool

definition tv_info_from :: "GetSystemInfoPayload \<Rightarrow> TvInfo" where
  "tv_info_from p = \<lparr>ti_receiver_type = gsi_receiver_type p, ti_model_name = gsi_model_name p,
                     ti_serial_number = gsi_serial_number p, ti_program_mode = gsi_program_mode p\<rparr>"

end
