(* ===== verification/Persisted_State.thy ===== *)
theory Persisted_State
  imports External Tv_State
begin

text \<open>
  \<open>src/src/lgtv_manager/persisted_state.rs\<close>: the details kept on disk between sessions, and how
  they are read and written. The file system is the record \<open>Disk\<close>: the contents of the files,
  and which of its operations fail, with the \<open>Debug\<close> text of the error.
\<close>

section \<open>The file system\<close>

text \<open>
  A path by its components. \<open>disk_write\<close> is None where a write succeeds, otherwise the error and
  the number of characters written before it; \<open>disk_project_dir\<close> is None where no home directory
  is known.
\<close>

type_synonym path = "string list"

record Disk =
  disk_files :: "path \<Rightarrow> string option"
  disk_project_dir :: "path option"
  disk_mkdir :: "path \<Rightarrow> string option"
  disk_open :: "path \<Rightarrow> string option"
  disk_read :: "path \<Rightarrow> string option"
  disk_create :: "path \<Rightarrow> string option"
  disk_write :: "path \<Rightarrow> (string \<times> nat) option"

definition set_file :: "Disk \<Rightarrow> path \<Rightarrow> string \<Rightarrow> Disk" where
  "set_file d p t = d\<lparr>disk_files := (disk_files d)(p \<mapsto> t)\<rparr>"

text \<open>\<open>File::open\<close>: a file that is not there cannot be opened.\<close>

definition file_open :: "Disk \<Rightarrow> path \<Rightarrow> string result" where
  "file_open d p = (case disk_open d p of
       Some err \<Rightarrow> Inl err
     | None \<Rightarrow> (case disk_files d p of
           None \<Rightarrow> Inl ''Os { code: 2, kind: NotFound }''
         | Some t \<Rightarrow> Inr t))"

text \<open>\<open>File::create\<close>: an empty file, whether or not there was one.\<close>

definition file_create :: "Disk \<Rightarrow> path \<Rightarrow> Disk result" where
  "file_create d p = (case disk_create d p of
       Some err \<Rightarrow> Inl err
     | None \<Rightarrow> Inr (set_file d p []))"

definition file_write_all :: "Disk \<Rightarrow> path \<Rightarrow> string \<Rightarrow> unit result \<times> Disk" where
  "file_write_all d p t = (case disk_write d p of
       None \<Rightarrow> (Inr (), set_file d p t)
     | Some (err, n) \<Rightarrow> (Inl err, set_file d p (take n t)))"

section \<open>The persisted state\<close>

record PersistedState =
  per_ws_url :: "string option"
  per_client_key :: "string option"
  per_mac_addr :: "string option"

definition PersistedState_fields :: "string list" where
  [decode_defs]: "PersistedState_fields = [''ws_url'', ''client_key'', ''mac_addr'']"

definition json_of_PersistedState :: "PersistedState \<Rightarrow> json" where
  "json_of_PersistedState p =
     JObj [(''ws_url'', json_opt JStr (per_ws_url p)),
           (''client_key'', json_opt JStr (per_client_key p)),
           (''mac_addr'', json_opt JStr (per_mac_addr p))]"

definition de_PersistedState :: "PersistedState decoder" where
  [decode_defs]: "de_PersistedState j = do {
     f \<leftarrow> fields_of False PersistedState_fields j;
     u \<leftarrow> opt f ''ws_url'' de_string;
     k \<leftarrow> opt f ''client_key'' de_string;
     m \<leftarrow> opt f ''mac_addr'' de_string;
     Some \<lparr>per_ws_url = u, per_client_key = k, per_mac_addr = m\<rparr> }"

text \<open>\<open>serde_json::from_str::<PersistedState>\<close>.\<close>

definition persisted_from_text :: "'u ext \<Rightarrow> string \<Rightarrow> PersistedState option" where
  "persisted_from_text e t = Option.bind (json_from_text e t) de_PersistedState"

section \<open>Reading and writing\<close>

definition PERSISTED_STATE_FILE :: string where
  "PERSISTED_STATE_FILE = ''lgtv_manager_data.json''"

definition get_data_file :: "Disk \<Rightarrow> path option \<Rightarrow> path result" where
  "get_data_file d passed_path =
     (case (case passed_path of
              Some path \<Rightarrow> Inr path
            | None \<Rightarrow>
                (case disk_project_dir d of
                   Some data_dir \<Rightarrow> Inr data_dir
                 | None \<Rightarrow>
                     Inl ''Could not determine where to write data file: home directory unknown'')) of
        Inl err \<Rightarrow> Inl err
      | Inr dir_path_buf \<Rightarrow>
          (case disk_mkdir d dir_path_buf of
             Some err \<Rightarrow> Inl (''Could not create data directory: '' @ err)
           | None \<Rightarrow> Inr (dir_path_buf @ [PERSISTED_STATE_FILE])))"

definition read_persisted_state :: "'u ext \<Rightarrow> Disk \<Rightarrow> path option \<Rightarrow> PersistedState result" where
  "read_persisted_state e d data_dir =
     (case get_data_file d data_dir of
        Inl err \<Rightarrow> Inl err
      | Inr data_file \<Rightarrow>
          (case file_open d data_file of
             Inr file_data \<Rightarrow>
               (case disk_read d data_file of
                  None \<Rightarrow>
                    (case persisted_from_text e file_data of
                       Some persisted_state \<Rightarrow> Inr persisted_state
                     | None \<Rightarrow> Inl (''Error reading persisted state: '' @ json_error e file_data))
                | Some err \<Rightarrow> Inl (''Error reading persisted state: '' @ err))
           | Inl err \<Rightarrow> Inl (''Could not read persisted state: '' @ err)))"

definition write_persisted_state ::
    "'u ext \<Rightarrow> Disk \<Rightarrow> PersistedState \<Rightarrow> path option \<Rightarrow> unit result \<times> Disk" where
  "write_persisted_state e d state data_dir =
     (case get_data_file d data_dir of
        Inl err \<Rightarrow> (Inl err, d)
      | Inr data_file \<Rightarrow>
          (case file_create d data_file of
             Inr d \<Rightarrow>
               (case json_to_text e (json_of_PersistedState state) of
                  Inr json \<Rightarrow>
                    (case file_write_all d data_file json of
                       (Inr _, d) \<Rightarrow> (Inr (), d)
                     | (Inl err, d) \<Rightarrow> (Inl (''Error writing persisted state: '' @ err), d))
                | Inl err \<Rightarrow> (Inl (''Error writing persisted state: '' @ err), d))
           | Inl err \<Rightarrow> (Inl (''Error writing persisted state: '' @ err), d)))"

section \<open>Properties\<close>

lemma de_json_of_PersistedState [simp]: "de_PersistedState (json_of_PersistedState p) = Some p"
  by (cases p)
     (auto simp: de_PersistedState_def json_of_PersistedState_def PersistedState_fields_def
       fields_of.simps key_count_def opt_def de_option_def json_opt_def split: option.splits)

lemma set_file_simps [simp]:
  "disk_files (set_file d p t) = (disk_files d)(p \<mapsto> t)"
  "disk_open (set_file d p t) = disk_open d" "disk_read (set_file d p t) = disk_read d"
  "disk_create (set_file d p t) = disk_create d" "disk_write (set_file d p t) = disk_write d"
  "get_data_file (set_file d p t) dir = get_data_file d dir"
  "set_file (set_file d p t) p t' = set_file d p t'"
  by (simp_all add: set_file_def get_data_file_def cong: option.case_cong sum.case_cong)

text \<open>What a write leaves behind, in one equation for each outcome.\<close>

lemma write_Inr_D:
  assumes "write_persisted_state e d st dir = (Inr (), d')"
  obtains p t where "get_data_file d dir = Inr p" "json_to_text e (json_of_PersistedState st) = Inr t"
    "d' = set_file d p t"
  using assms
  by (auto simp: write_persisted_state_def file_create_def file_write_all_def
      split: sum.splits option.splits prod.splits)

lemma write_Inl_D:
  assumes "write_persisted_state e d st dir = (Inl err, d')"
  shows "d' = d \<or> (\<exists>p t n. get_data_file d dir = Inr p \<and> d' = set_file d p (take n t) \<and>
    (t = [] \<or> json_to_text e (json_of_PersistedState st) = Inr t))"
proof (cases "get_data_file d dir")
  case (Inl a)
  with assms show ?thesis by (simp add: write_persisted_state_def)
next
  case p: (Inr p)
  show ?thesis
  proof (cases "disk_create d p")
    case (Some a)
    with p assms show ?thesis by (simp add: write_persisted_state_def file_create_def)
  next
    case None
    show ?thesis
    proof (cases "json_to_text e (json_of_PersistedState st)")
      case (Inl a)
      with p None assms have "d' = set_file d p (take 0 [])"
        by (simp add: write_persisted_state_def file_create_def)
      with p show ?thesis by blast
    next
      case (Inr t)
      with p None assms have "\<exists>n. d' = set_file d p (take n t)"
        by (auto simp: write_persisted_state_def file_create_def file_write_all_def
            split: option.splits)
      with p Inr show ?thesis by blast
    qed
  qed
qed

lemma write_keeps_disk:
  "write_persisted_state e d st dir = (r, d') \<Longrightarrow> disk_open d' = disk_open d \<and> disk_read d' = disk_read d"
proof (cases r)
  case (Inl err)
  assume "write_persisted_state e d st dir = (r, d')"
  from write_Inl_D [OF this [unfolded Inl]] show ?thesis by auto
next
  case (Inr u)
  assume "write_persisted_state e d st dir = (r, d')"
  then have "write_persisted_state e d st dir = (Inr (), d')" using Inr by simp
  then show ?thesis by (rule write_Inr_D) simp
qed

lemma read_after_write:
  assumes "json_laws e"
    and "write_persisted_state e d st dir = (Inr (), d')"
    and "\<And>p. disk_open d p = None \<and> disk_read d p = None"
  shows "read_persisted_state e d' dir = Inr st"
proof -
  from assms(2) obtain p t where p: "get_data_file d dir = Inr p"
    and t: "json_to_text e (json_of_PersistedState st) = Inr t" and d': "d' = set_file d p t"
    by (rule write_Inr_D)
  from t assms(1) have "json_from_text e t = Some (json_of_PersistedState st)"
    by (simp add: json_laws_def)
  then show ?thesis using assms(3)
    by (simp add: d' read_persisted_state_def p file_open_def persisted_from_text_def)
qed

text \<open>
  What the manager relies on between sessions: a store whose reads give the state of the last
  write that reported success. Failed writes may come before it.
\<close>

locale persisted_store =
  fixes put :: "'d \<Rightarrow> 's \<Rightarrow> bool \<times> 'd"
    and get :: "'d \<Rightarrow> 's option"
    and sound :: "'d \<Rightarrow> bool"
  assumes put_get: "sound d \<Longrightarrow> put d s = (True, d') \<Longrightarrow> get d' = Some s"
    and put_sound: "sound d \<Longrightarrow> put d s = (ok, d') \<Longrightarrow> sound d'"
begin

primrec puts :: "'d \<Rightarrow> 's list \<Rightarrow> 'd" where
  "puts d [] = d"
| "puts d (s # ss) = puts (snd (put d s)) ss"

lemma puts_sound: "sound d \<Longrightarrow> sound (puts d ss)"
proof (induction ss arbitrary: d)
  case Nil
  then show ?case by simp
next
  case (Cons s ss)
  then show ?case using put_sound [of d s] by (cases "put d s") simp
qed

lemma get_after_puts: "sound d \<Longrightarrow> put (puts d ss) s = (True, d') \<Longrightarrow> get d' = Some s"
  using puts_sound put_get by blast

end

definition put_state :: "'u ext \<times> path option \<times> Disk \<Rightarrow> PersistedState \<Rightarrow>
    bool \<times> 'u ext \<times> path option \<times> Disk" where
  "put_state x st = (case x of (e, dir, d) \<Rightarrow>
     (case write_persisted_state e d st dir of (r, d') \<Rightarrow> (r = Inr (), e, dir, d')))"

definition get_state :: "'u ext \<times> path option \<times> Disk \<Rightarrow> PersistedState option" where
  "get_state x = (case x of (e, dir, d) \<Rightarrow>
     (case read_persisted_state e d dir of Inr st \<Rightarrow> Some st | Inl _ \<Rightarrow> None))"

definition sound_store :: "'u ext \<times> path option \<times> Disk \<Rightarrow> bool" where
  "sound_store x = (case x of (e, dir, d) \<Rightarrow>
     json_laws e \<and> (\<forall>p. disk_open d p = None \<and> disk_read d p = None))"

interpretation disk_store: persisted_store put_state get_state sound_store
proof
  fix x :: "'u ext \<times> path option \<times> Disk" and st x'
  obtain e dir d where x: "x = (e, dir, d)" by (cases x)
  assume "sound_store x" "put_state x st = (True, x')"
  then show "get_state x' = Some st"
    using read_after_write [of e d st dir]
    by (auto simp: x sound_store_def put_state_def get_state_def split: prod.splits)
next
  fix x :: "'u ext \<times> path option \<times> Disk" and st ok x'
  obtain e dir d where x: "x = (e, dir, d)" by (cases x)
  assume "sound_store x" "put_state x st = (ok, x')"
  then show "sound_store x'"
    using write_keeps_disk [of e d st dir]
    by (auto simp: x sound_store_def put_state_def split: prod.splits)
qed

text \<open>What the last successful write put on disk is what the next read returns, whatever writes,
  successful or not, came before it, whenever the file can be opened and read, and for every URL,
  client key and MAC address, present or not.\<close>

theorem persisted_state_roundtrip:
  assumes "json_laws e" and "\<forall>p. disk_open d p = None \<and> disk_read d p = None"
    and "d1 = fold (\<lambda>st d. snd (write_persisted_state e d st dir)) sts d"
    and "write_persisted_state e d1 st dir = (Inr (), d')"
  shows "read_persisted_state e d' dir = Inr st"
proof -
  have "snd (snd (disk_store.puts (e, dir, d) sts)) =
      fold (\<lambda>st d. snd (write_persisted_state e d st dir)) sts d \<and>
    fst (disk_store.puts (e, dir, d) sts) = e \<and> fst (snd (disk_store.puts (e, dir, d) sts)) = dir" for d
    by (induction sts arbitrary: d) (simp_all add: put_state_def split: prod.split)
  then have puts: "disk_store.puts (e, dir, d) sts = (e, dir, d1)"
    using assms(3) by (metis prod.collapse)
  have "sound_store (e, dir, d)" using assms(1,2) by (simp add: sound_store_def)
  from disk_store.get_after_puts [OF this, of sts st "(e, dir, d')"] assms(4)
  have "get_state (e, dir, d') = Some st" by (simp add: puts put_state_def)
  then show ?thesis by (simp add: get_state_def split: sum.splits)
qed

definition demo_disk :: Disk where
  "demo_disk = \<lparr>disk_files = (\<lambda>_. None), disk_project_dir = Some [''home''],
     disk_mkdir = (\<lambda>_. None), disk_open = (\<lambda>_. None), disk_read = (\<lambda>_. None),
     disk_create = (\<lambda>_. None), disk_write = (\<lambda>_. None)\<rparr>"

lemma demo_disk_write:
  "write_persisted_state demo_ext demo_disk st None =
    (Inr (), set_file demo_disk [''home'', ''lgtv_manager_data.json'']
       (projr (demo_to_text (json_of_PersistedState st))))"
proof -
  have "\<exists>t. demo_to_text (json_of_PersistedState st) = Inr t"
    by (cases st) (auto simp: json_of_PersistedState_def json_opt_def split: option.splits)
  then show ?thesis
    by (auto simp: write_persisted_state_def get_data_file_def file_create_def file_write_all_def
        demo_disk_def demo_ext_def PERSISTED_STATE_FILE_def set_file_def)
qed

theorem persisted_state_roundtrip_witness:
  "read_persisted_state demo_ext
     (snd (write_persisted_state demo_ext demo_disk
        \<lparr>per_ws_url = Some ''wss://tv/'', per_client_key = Some ''k'', per_mac_addr = None\<rparr> None)) None =
   Inr \<lparr>per_ws_url = Some ''wss://tv/'', per_client_key = Some ''k'', per_mac_addr = None\<rparr>"
  unfolding demo_disk_write snd_conv
  by (rule persisted_state_roundtrip [OF demo_json_laws _ _ demo_disk_write, where sts = "[]" and d = demo_disk])
     (simp_all add: demo_disk_def)



end
