(* ===== verification/Websocket_Client.thy ===== *)
theory Websocket_Client
  imports Helpers
begin

text \<open>
  \<open>src/src/websocket_client.rs\<close>: the handler of one WebSocket connection. It is a task that
  connects, then serves the messages of the manager, the messages of the socket and a timer until
  something ends it. Each turn of its \<open>select!\<close> is an event (\<open>WsEvent\<close>) with what the socket
  answered; \<open>wt_written\<close> is the messages that reached the socket, and is not part of the program.
\<close>

section \<open>Messages\<close>

datatype WsCommand = ShutDown

datatype WsMessage =
    Command WsCommand
  | Payload string
  | TestConnection

datatype WsStatus =
    Idle
  | Connected
  | Disconnected
  | ConnectError string
  | MessageReadError string
  | ServerClosedConnection

datatype WsUpdateMessage =
    Status WsStatus
  | Payload string
  | IsConnectionOk bool

definition CONNECTION_TIMEOUT :: nat where
  "CONNECTION_TIMEOUT = 5000"

definition TEST_CONNECTION_DURATION :: nat where
  "TEST_CONNECTION_DURATION = 1500"

section \<open>The task\<close>

datatype WsPhase = WsSpawned | WsConnecting | WsRunning | WsEnded

record WsTask =
  wt_host :: string
  wt_use_tls :: bool
  wt_phase :: WsPhase
  wt_test_start :: "nat option"
  wt_rx :: "WsMessage chan"
  wt_tx :: "WsUpdateMessage chan"
  wt_written :: "SocketMessage list"

definition ws_start :: "string \<Rightarrow> bool \<Rightarrow> WsMessage chan \<Rightarrow> WsUpdateMessage chan \<Rightarrow> WsTask" where
  "ws_start host use_tls rx tx =
     \<lparr>wt_host = host, wt_use_tls = use_tls, wt_phase = WsSpawned, wt_test_start = None,
      wt_rx = rx, wt_tx = tx, wt_written = []\<rparr>"

definition ws_send_update :: "WsTask \<Rightarrow> WsUpdateMessage \<Rightarrow> unit + WsTask" where
  "ws_send_update t msg = (case chan_send (wt_tx t) msg of
       Inl u \<Rightarrow> Inl u
     | Inr tx \<Rightarrow> Inr (t\<lparr>wt_tx := tx\<rparr>))"

text \<open>\<open>let _ = send_update(..)\<close>\<close>

definition ws_send_ignore :: "WsUpdateMessage \<Rightarrow> WsTask \<Rightarrow> WsTask" where
  "ws_send_ignore msg t = (case ws_send_update t msg of Inl _ \<Rightarrow> t | Inr t \<Rightarrow> t)"

text \<open>Returning drops the receiving half of the manager's channel.\<close>

definition ws_return :: "WsTask \<Rightarrow> WsTask" where
  "ws_return t = t\<lparr>wt_phase := WsEnded, wt_rx := chan_close (wt_rx t)\<rparr>"

text \<open>Leaving the loop: a last status, then the return.\<close>

definition ws_break :: "WsTask \<Rightarrow> WsTask" where
  "ws_break t = ws_return (ws_send_ignore (Status Disconnected) t)"

text \<open>A write to the socket; the library's answer comes with the event.\<close>

definition ws_write :: "SocketMessage \<Rightarrow> string option \<Rightarrow> WsTask \<Rightarrow> WsTask result" where
  "ws_write msg err t = (case err of
       Some e \<Rightarrow> Inl e
     | None \<Rightarrow> Inr (t\<lparr>wt_written := wt_written t @ [msg]\<rparr>))"

section \<open>Connecting\<close>

text \<open>
  \<open>connect\<close>: the host must parse; then the outcome of building the TLS connector and of the
  connection attempt, which is given up after \<open>CONNECTION_TIMEOUT\<close>.
\<close>

definition ws_connect :: "'u ext \<Rightarrow> string \<Rightarrow> ConnectOutcome \<Rightarrow> unit result" where
  "ws_connect e host outcome = (case url_parse e host of
       Inl (debug, _) \<Rightarrow> Inl (''Could not parse host '' @ quote_char @ host @ quote_char @ '': '' @ debug)
     | Inr _ \<Rightarrow>
         (case outcome of
            TlsBuildError err \<Rightarrow> Inl (''Could not create TLS connector: '' @ err)
          | Established \<Rightarrow> Inr ()
          | IoError error_string \<Rightarrow>
              (if str_contains error_string ''Host is down'' then Inl ''Host is down''
               else Inl error_string)
          | OtherError err \<Rightarrow> Inl err
          | TimedOut \<Rightarrow> Inl ''Connection timeout''))"

definition ws_resolve :: "'u ext \<Rightarrow> ConnectOutcome \<Rightarrow> WsTask \<Rightarrow> WsTask" where
  "ws_resolve e outcome t = (case ws_connect e (wt_host t) outcome of
       Inl err \<Rightarrow> ws_return (ws_send_ignore (Status (ConnectError err)) t)
     | Inr _ \<Rightarrow>
         (case ws_send_update t (Status Connected) of
            Inl _ \<Rightarrow> ws_return t
          | Inr t \<Rightarrow> t\<lparr>wt_phase := WsRunning, wt_test_start := None\<rparr>))"

section \<open>The loop\<close>

text \<open>Closing the socket, whatever the write answers, and leaving the loop.\<close>

definition ws_close :: "string option \<Rightarrow> WsTask \<Rightarrow> WsTask" where
  "ws_close err t = (case ws_write Close err t of Inl _ \<Rightarrow> ws_break t | Inr t \<Rightarrow> ws_break t)"

fun ws_on_caller :: "WsMessage \<Rightarrow> string option \<Rightarrow> nat \<Rightarrow> WsTask \<Rightarrow> WsTask" where
  "ws_on_caller (Command command) err now t = (case command of ShutDown \<Rightarrow> ws_close err t)"
| "ws_on_caller (WsMessage.Payload payload) err now t =
     (case ws_write (Text payload) err t of Inl _ \<Rightarrow> ws_break t | Inr t \<Rightarrow> t)"
| "ws_on_caller TestConnection err now t =
     (if wt_test_start t \<noteq> None then t
      else case ws_write Ping err t of
          Inl _ \<Rightarrow> ws_break t
        | Inr t \<Rightarrow> t\<lparr>wt_test_start := Some now\<rparr>)"

fun ws_on_socket :: "string + SocketMessage \<Rightarrow> WsTask \<Rightarrow> WsTask" where
  "ws_on_socket (Inr (Text payload)) t =
     (case ws_send_update t (WsUpdateMessage.Payload payload) of Inl _ \<Rightarrow> ws_break t | Inr t \<Rightarrow> t)"
| "ws_on_socket (Inr Pong) t =
     (if wt_test_start t \<noteq> None
      then ws_send_ignore (IsConnectionOk True) (t\<lparr>wt_test_start := None\<rparr>) else t)"
| "ws_on_socket (Inr Close) t = ws_break (ws_send_ignore (Status ServerClosedConnection) t)"
| "ws_on_socket (Inr _) t = t"
| "ws_on_socket (Inl err) t = ws_break (ws_send_ignore (Status (MessageReadError err)) t)"

text \<open>
  The timer: a test that has waited longer than allowed has failed. A clock that went backwards
  is ignored.
\<close>

definition ws_on_tick :: "nat \<Rightarrow> WsTask \<Rightarrow> WsTask" where
  "ws_on_tick now t = (case wt_test_start t of
       Some connection_test_start \<Rightarrow>
         (if connection_test_start \<le> now \<and> TEST_CONNECTION_DURATION < now - connection_test_start
          then ws_send_ignore (IsConnectionOk False) t else t)
     | None \<Rightarrow> t)"

text \<open>One event; the events a phase does not wait for change nothing.\<close>

definition ws_step :: "'u ext \<Rightarrow> WsEvent \<Rightarrow> WsTask \<Rightarrow> WsTask" where
  "ws_step e ev t = (case (wt_phase t, ev) of
       (WsSpawned, Begin) \<Rightarrow>
         (case ws_send_update t (Status Idle) of
            Inl _ \<Rightarrow> ws_return t
          | Inr t \<Rightarrow> t\<lparr>wt_phase := WsConnecting\<rparr>)
     | (WsConnecting, Resolved outcome) \<Rightarrow> ws_resolve e outcome t
     | (WsRunning, CallerMessage err now) \<Rightarrow>
         (case chan_recv (wt_rx t) of
            None \<Rightarrow> t
          | Some (msg, rx) \<Rightarrow> ws_on_caller msg err now (t\<lparr>wt_rx := rx\<rparr>))
     | (WsRunning, CallerClosed err) \<Rightarrow> ws_close err t
     | (WsRunning, Incoming msg) \<Rightarrow> ws_on_socket msg t
     | (WsRunning, Tick now) \<Rightarrow> ws_on_tick now t
     | _ \<Rightarrow> t)"

definition ws_run :: "'u ext \<Rightarrow> WsEvent list \<Rightarrow> WsTask \<Rightarrow> WsTask" where
  "ws_run e evs t = fold (ws_step e) evs t"

text \<open>
  Waiting for the task to end (\<open>ws_join_handle.await\<close>): it goes through the events \<open>evs\<close>, then
  through what is left for it to do: connecting is given up after the timeout, and a running
  task takes the messages that wait for it.
\<close>

definition ws_drain :: "'u ext \<Rightarrow> WsTask \<Rightarrow> WsTask" where
  "ws_drain e t = ws_run e (map (\<lambda>_. CallerMessage None 0) (queue (wt_rx t))) t"

definition ws_run_out :: "'u ext \<Rightarrow> WsEvent list \<Rightarrow> WsTask \<Rightarrow> WsTask" where
  "ws_run_out e evs t = ws_drain e (ws_run e (evs @ [Begin, Resolved TimedOut]) t)"

section \<open>Rewriting\<close>

lemmas ws_defs = ws_return_def ws_break_def ws_send_ignore_def ws_send_update_def ws_write_def
  ws_close_def ws_resolve_def ws_on_tick_def

lemma ws_run_simps [simp]:
  "ws_run e [] t = t"
  "ws_run e (ev # evs) t = ws_run e evs (ws_step e ev t)"
  "ws_run e (evs @ evs') t = ws_run e evs' (ws_run e evs t)"
  by (simp_all add: ws_run_def)

lemma ws_step_ended [simp]: "wt_phase t = WsEnded \<Longrightarrow> ws_step e ev t = t"
  by (simp add: ws_step_def split: WsEvent.splits)

lemma ws_run_ended [simp]: "wt_phase t = WsEnded \<Longrightarrow> ws_run e evs t = t"
  by (induction evs) simp_all

section \<open>Ending\<close>

lemma ws_close_ended [simp]: "wt_phase (ws_close err t) = WsEnded"
  by (auto simp: ws_defs split: option.splits sum.splits)

lemma ws_break_ended [simp]: "wt_phase (ws_break t) = WsEnded"
  by (simp add: ws_break_def ws_return_def)

lemma ws_on_caller_queue:
  "queue (wt_rx (ws_on_caller msg None now t)) = queue (wt_rx t) \<and>
     wt_phase (ws_on_caller msg None now t) = wt_phase t \<or>
   wt_phase (ws_on_caller msg None now t) = WsEnded"
  by (cases msg) (auto simp: ws_write_def split: WsCommand.splits)

lemma ws_drain_ends_running:
  "Command ShutDown \<in> set (queue (wt_rx t)) \<Longrightarrow> wt_phase t = WsRunning \<Longrightarrow>
    wt_phase (ws_run e (map (\<lambda>_. CallerMessage None 0) (queue (wt_rx t))) t) = WsEnded"
proof (induction "queue (wt_rx t)" arbitrary: t)
  case Nil
  then show ?case by simp
next
  case (Cons msg msgs)
  let ?t = "ws_on_caller msg None 0 (t\<lparr>wt_rx := (wt_rx t)\<lparr>queue := msgs\<rparr>\<rparr>)"
  from Cons.hyps(2) [symmetric] Cons.prems(2) have step: "ws_step e (CallerMessage None 0) t = ?t"
    by (simp add: ws_step_def chan_recv_def)
  show ?case
  proof (cases "wt_phase ?t = WsEnded")
    case True
    then show ?thesis unfolding Cons.hyps(2) [symmetric] by (simp add: step)
  next
    case False
    then have "queue (wt_rx ?t) = msgs" "wt_phase ?t = WsRunning"
      using ws_on_caller_queue [of msg 0 "t\<lparr>wt_rx := (wt_rx t)\<lparr>queue := msgs\<rparr>\<rparr>"] Cons.prems(2)
      by auto
    moreover have "msg \<noteq> Command ShutDown" using False by auto
    with Cons.prems(1) Cons.hyps(2) [symmetric] have "Command ShutDown \<in> set msgs" by simp
    ultimately show ?thesis using Cons.hyps(1) [of ?t] unfolding Cons.hyps(2) [symmetric]
      by (simp add: step)
  qed
qed

lemma caller_keeps_shutdown:
  assumes "wt_phase (ws_on_caller msg err now t) \<noteq> WsEnded"
    "Command ShutDown \<in> insert msg (set (queue (wt_rx t)))"
  shows "Command ShutDown \<in> set (queue (wt_rx (ws_on_caller msg err now t)))"
  using assms by (cases msg) (auto simp: ws_write_def split: WsCommand.splits option.splits if_splits)

lemma ws_rx_kept:
  "wt_phase (ws_on_socket msg t) \<noteq> WsEnded \<Longrightarrow> wt_rx (ws_on_socket msg t) = wt_rx t"
  "wt_phase (ws_resolve e outcome t) \<noteq> WsEnded \<Longrightarrow> wt_rx (ws_resolve e outcome t) = wt_rx t"
  "wt_rx (ws_on_tick now t) = wt_rx t"
  by (induction msg t rule: ws_on_socket.induct)
     (auto simp: ws_defs split: sum.splits if_splits option.splits)

lemma ws_step_keeps_shutdown:
  assumes "Command ShutDown \<in> set (queue (wt_rx t))" "wt_phase (ws_step e ev t) \<noteq> WsEnded"
  shows "Command ShutDown \<in> set (queue (wt_rx (ws_step e ev t)))"
proof -
  show ?thesis
  proof (cases "wt_phase t")
    case WsSpawned
    with assms show ?thesis
      by (cases ev) (auto simp: ws_step_def ws_send_update_def ws_return_def split: sum.splits)
  next
    case WsConnecting
    show ?thesis
    proof (cases ev)
      case (Resolved outcome)
      with assms WsConnecting show ?thesis by (simp add: ws_step_def ws_rx_kept)
    qed (use assms WsConnecting in \<open>simp_all add: ws_step_def\<close>)
  next
    case WsRunning
    show ?thesis
    proof (cases ev)
      case (CallerMessage err now)
      show ?thesis
      proof (cases "queue (wt_rx t)")
        case Nil
        with assms show ?thesis by simp
      next
        case (Cons msg msgs)
        with assms CallerMessage WsRunning
        show ?thesis by (auto simp: ws_step_def chan_recv_def intro!: caller_keeps_shutdown)
      qed
    next
      case (Incoming msg)
      with assms WsRunning show ?thesis by (simp add: ws_step_def ws_rx_kept)
    qed (use assms WsRunning ws_rx_kept(3) in \<open>simp_all add: ws_step_def\<close>)
  next
    case WsEnded
    with assms show ?thesis by simp
  qed
qed

lemma ws_run_keeps_shutdown:
  "Command ShutDown \<in> set (queue (wt_rx t)) \<Longrightarrow>
    wt_phase (ws_run e evs t) = WsEnded \<or> Command ShutDown \<in> set (queue (wt_rx (ws_run e evs t)))"
proof (induction evs arbitrary: t)
  case Nil
  then show ?case by simp
next
  case (Cons ev evs)
  then show ?case
    using ws_step_keeps_shutdown [of t e ev] by (cases "wt_phase (ws_step e ev t) = WsEnded") simp_all
qed

lemma ws_after_connecting:
  "wt_phase (ws_run e [Begin, Resolved TimedOut] t) \<in> {WsRunning, WsEnded}"
proof -
  have resolved: "wt_phase (ws_resolve e TimedOut t') = WsEnded" for t'
    by (auto simp: ws_resolve_def ws_connect_def ws_return_def split: sum.splits)
  show ?thesis
    by (cases "wt_phase t") (auto simp: ws_step_def ws_return_def resolved split: sum.splits)
qed

lemma ws_run_out_ends:
  assumes "Command ShutDown \<in> set (queue (wt_rx t)) \<or> wt_phase t = WsEnded"
  shows "wt_phase (ws_run_out e evs t) = WsEnded"
proof -
  let ?t = "ws_run e (evs @ [Begin, Resolved TimedOut]) t"
  show ?thesis
  proof (cases "wt_phase ?t = WsEnded")
    case True
    then show ?thesis unfolding ws_run_out_def ws_drain_def by (rule ws_run_ended [THEN ssubst]) (rule True)
  next
    case False
    then have "wt_phase t \<noteq> WsEnded" by auto
    with assms ws_run_keeps_shutdown [of t e "evs @ [Begin, Resolved TimedOut]"] False
    have "Command ShutDown \<in> set (queue (wt_rx ?t))" by blast
    moreover have "wt_phase ?t = WsRunning"
      using ws_after_connecting [of e "ws_run e evs t"] False unfolding ws_run_simps(3) by blast
    ultimately show ?thesis unfolding ws_run_out_def ws_drain_def by (rule ws_drain_ends_running)
  qed
qed

text \<open>The manager's wait for the handler always comes to an end: a handler that has a shutdown
  request in its channel, in whatever phase it is and whatever happens to it while the manager
  waits, has ended once it has done what is left to do.\<close>

theorem join_after_shutdown_ends:
  assumes "Command ShutDown \<in> set (queue (wt_rx t)) \<or> wt_phase t = WsEnded"
  shows "wt_phase (ws_run_out e evs t) = WsEnded"
  using assms by (rule ws_run_out_ends)

theorem join_after_shutdown_ends_witness:
  "wt_phase (ws_run_out demo_ext [Begin]
     (ws_start ''wss://tv/'' True \<lparr>queue = [Command ShutDown], rx_open = True\<rparr> new_chan)) = WsEnded"
  by (rule join_after_shutdown_ends) (simp add: ws_start_def)

section \<open>What the manager is told\<close>

text \<open>The updates of a connection's life so far, by the phase it is in.\<close>

fun is_traffic :: "WsUpdateMessage \<Rightarrow> bool" where
  "is_traffic (Status _) = False"
| "is_traffic _ = True"

fun is_loss :: "WsUpdateMessage list \<Rightarrow> bool" where
  "is_loss [] = True"
| "is_loss [Status ServerClosedConnection] = True"
| "is_loss [Status (MessageReadError _)] = True"
| "is_loss _ = False"

fun ws_log :: "WsPhase \<Rightarrow> WsUpdateMessage list \<Rightarrow> bool" where
  "ws_log WsSpawned us = (us = [])"
| "ws_log WsConnecting us = (us = [Status Idle])"
| "ws_log WsRunning us =
     (\<exists>ts. us = [Status Idle, Status Connected] @ ts \<and> list_all is_traffic ts)"
| "ws_log WsEnded us =
     ((\<exists>err. us = [Status Idle, Status (ConnectError err)]) \<or>
      (\<exists>ts loss. us = [Status Idle, Status Connected] @ ts @ loss @ [Status Disconnected] \<and>
         list_all is_traffic ts \<and> is_loss loss))"

definition ws_logged :: "WsUpdateMessage list \<Rightarrow> WsTask \<Rightarrow> bool" where
  "ws_logged us0 t \<longleftrightarrow> rx_open (wt_tx t) \<and>
     (\<exists>us. queue (wt_tx t) = us0 @ us \<and> ws_log (wt_phase t) us)"

lemma ws_loggedI:
  "rx_open (wt_tx t) \<Longrightarrow> queue (wt_tx t) = us0 @ us \<Longrightarrow> ws_log (wt_phase t) us \<Longrightarrow> ws_logged us0 t"
  by (auto simp: ws_logged_def)

lemma ws_send_open:
  "rx_open (wt_tx t) \<Longrightarrow>
    ws_send_update t msg = Inr (t\<lparr>wt_tx := (wt_tx t)\<lparr>queue := queue (wt_tx t) @ [msg]\<rparr>\<rparr>)"
  "rx_open (wt_tx t) \<Longrightarrow>
    ws_send_ignore msg t = t\<lparr>wt_tx := (wt_tx t)\<lparr>queue := queue (wt_tx t) @ [msg]\<rparr>\<rparr>"
  by (simp_all add: ws_send_update_def ws_send_ignore_def chan_simps)

lemma ws_log_ended:
  "list_all is_traffic ts \<Longrightarrow> is_loss loss \<Longrightarrow>
    ws_log WsEnded ([Status Idle, Status Connected] @ ts @ loss @ [Status Disconnected])"
  by auto

text \<open>The ways a running task goes on.\<close>

lemma running_goes_on:
  assumes "ws_logged us0 t" "wt_phase t = WsRunning" "is_loss loss"
  shows "list_all is_traffic [msg] \<Longrightarrow> ws_logged us0 (ws_send_ignore msg t)"
    and "ws_logged us0 (ws_break t)"
    and "loss = [msg] \<Longrightarrow> ws_logged us0 (ws_break (ws_send_ignore msg t))"
proof -
  from assms obtain ts where o: "rx_open (wt_tx t)" and ts: "list_all is_traffic ts"
    and q: "queue (wt_tx t) = us0 @ [Status Idle, Status Connected] @ ts"
    by (auto simp: ws_logged_def)
  show "ws_logged us0 (ws_send_ignore msg t)" if "list_all is_traffic [msg]"
    using o q ts that assms(2)
    by (intro ws_loggedI [of _ _ "[Status Idle, Status Connected] @ ts @ [msg]"])
       (simp_all add: ws_send_open)
  show "ws_logged us0 (ws_break t)"
    using o q ws_log_ended [OF ts, of "[]"]
    by (intro ws_loggedI [of _ _ "[Status Idle, Status Connected] @ ts @ [] @ [Status Disconnected]"])
       (simp_all add: ws_break_def ws_return_def ws_send_open del: ws_log.simps(4))
  show "ws_logged us0 (ws_break (ws_send_ignore msg t))" if "loss = [msg]"
    using o q ws_log_ended [OF ts assms(3)] that
    by (intro ws_loggedI [of _ _ "[Status Idle, Status Connected] @ ts @ loss @ [Status Disconnected]"])
       (simp_all add: ws_break_def ws_return_def ws_send_open del: ws_log.simps(4))
qed

lemma ws_logged_fields [simp]:
  "ws_logged us0 (t\<lparr>wt_written := ws\<rparr>) = ws_logged us0 t"
  "ws_logged us0 (t\<lparr>wt_test_start := s\<rparr>) = ws_logged us0 t"
  "ws_logged us0 (t\<lparr>wt_rx := rx\<rparr>) = ws_logged us0 t"
  by (simp_all add: ws_logged_def)

lemma ws_logged_close:
  "ws_logged us0 t \<Longrightarrow> wt_phase t = WsRunning \<Longrightarrow> ws_logged us0 (ws_close err t)"
  by (auto simp: ws_close_def ws_write_def intro!: running_goes_on(2) [where loss = "[]"]
      split: option.splits)

lemma ws_logged_caller:
  "ws_logged us0 t \<Longrightarrow> wt_phase t = WsRunning \<Longrightarrow> ws_logged us0 (ws_on_caller msg err now t)"
  by (cases msg)
     (auto simp: ws_write_def intro!: running_goes_on(2) [where loss = "[]"] ws_logged_close
       split: WsCommand.splits option.splits)

lemma ws_logged_socket:
  assumes "ws_logged us0 t" "wt_phase t = WsRunning"
  shows "ws_logged us0 (ws_on_socket msg t)"
proof -
  have payload: "ws_logged us0 (case ws_send_update t (WsUpdateMessage.Payload p) of
      Inl _ \<Rightarrow> ws_break t | Inr t \<Rightarrow> t)" for p
    using running_goes_on(1) [OF assms, of "[]" "WsUpdateMessage.Payload p"] assms(1)
    by (simp add: ws_logged_def ws_send_open)
  show ?thesis
  proof (cases msg)
    case (Inl err)
    then show ?thesis
      using running_goes_on(3) [OF assms, of "[Status (MessageReadError err)]"] by simp
  next
    case (Inr m)
    then show ?thesis
      using assms payload running_goes_on(3) [OF assms, of "[Status ServerClosedConnection]"]
        running_goes_on(1) [of us0 "t\<lparr>wt_test_start := None\<rparr>" "[]" "IsConnectionOk True"]
      by (cases m) simp_all
  qed
qed

lemma ws_logged_step:
  assumes "ws_logged us0 t"
  shows "ws_logged us0 (ws_step e ev t)"
proof -
  from assms have o: "rx_open (wt_tx t)" by (simp add: ws_logged_def)
  have spawned: "ws_logged us0 (ws_step e Begin t)" if "wt_phase t = WsSpawned"
    using assms that by (simp add: ws_logged_def ws_step_def ws_send_open)
  have connecting: "ws_logged us0 (ws_resolve e outcome t)" if "wt_phase t = WsConnecting" for outcome
    using assms that o
    by (auto simp: ws_logged_def ws_resolve_def ws_send_open ws_return_def split: sum.splits)
  have ticked: "ws_logged us0 (ws_on_tick now t)" if "wt_phase t = WsRunning" for now
    using running_goes_on(1) [OF assms that, of "[]" "IsConnectionOk False"] assms
    by (simp add: ws_on_tick_def split: option.splits)
  show ?thesis
  proof (cases "wt_phase t")
    case WsSpawned
    with assms spawned show ?thesis by (cases ev) (simp_all add: ws_step_def)
  next
    case WsConnecting
    with assms connecting show ?thesis by (cases ev) (simp_all add: ws_step_def)
  next
    case WsRunning
    with assms ticked show ?thesis
      by (cases ev)
         (auto simp: ws_step_def chan_recv_def intro!: ws_logged_caller ws_logged_socket ws_logged_close
           split: list.splits)
  next
    case WsEnded
    with assms show ?thesis by simp
  qed
qed

text \<open>C30: Whatever the socket, the manager and the clock do, what a handler reports while the manager
  listens is \<open>Idle\<close>; then a connect error, after which it is gone, or \<open>Connected\<close>; then only
  payloads and test results; and when it ends, at most one loss (a closed connection or a read
  error), and \<open>Disconnected\<close> as the last word.\<close>

theorem ws_update_protocol:
  assumes "rx_open tx"
  shows "\<exists>us. queue (wt_tx (ws_run e evs (ws_start host use_tls rx tx))) = queue tx @ us \<and>
    ws_log (wt_phase (ws_run e evs (ws_start host use_tls rx tx))) us"
proof -
  have "ws_logged us0 t \<Longrightarrow> ws_logged us0 (ws_run e evs t)" for us0 t
    by (induction evs arbitrary: t) (simp_all add: ws_logged_step)
  moreover have "ws_logged (queue tx) (ws_start host use_tls rx tx)"
    using assms by (simp add: ws_logged_def ws_start_def)
  ultimately show ?thesis by (auto simp: ws_logged_def)
qed

theorem ws_update_protocol_witness:
  "\<exists>us. queue (wt_tx (ws_run demo_ext [Begin, Resolved Established, Incoming (Inr Close)]
      (ws_start ''wss://tv/'' True new_chan new_chan))) = us \<and>
    ws_log (wt_phase (ws_run demo_ext [Begin, Resolved Established, Incoming (Inr Close)]
      (ws_start ''wss://tv/'' True new_chan new_chan))) us"
  using ws_update_protocol [of new_chan demo_ext "[Begin, Resolved Established, Incoming (Inr Close)]"
      "''wss://tv/''" True new_chan] by simp

section \<open>What reaches the TV\<close>

text \<open>A history of the connection: messages of the manager and turns of the handler.\<close>

datatype ws_io = Sent WsMessage | Turn WsEvent

primrec ws_io_step :: "'u ext \<Rightarrow> ws_io \<Rightarrow> WsTask \<Rightarrow> WsTask" where
  "ws_io_step e (Sent msg) t =
     (case chan_send (wt_rx t) msg of Inl _ \<Rightarrow> t | Inr rx \<Rightarrow> t\<lparr>wt_rx := rx\<rparr>)"
| "ws_io_step e (Turn ev) t = ws_step e ev t"

primrec payloads :: "WsMessage list \<Rightarrow> string list" where
  "payloads [] = []"
| "payloads (msg # msgs) =
     (case msg of WsMessage.Payload p \<Rightarrow> [p] | _ \<Rightarrow> []) @ payloads msgs"

primrec texts :: "SocketMessage list \<Rightarrow> string list" where
  "texts [] = []"
| "texts (msg # msgs) = (case msg of Text p \<Rightarrow> [p] | _ \<Rightarrow> []) @ texts msgs"

primrec sent_messages :: "ws_io list \<Rightarrow> WsMessage list" where
  "sent_messages [] = []"
| "sent_messages (io # ios) = (case io of Sent msg \<Rightarrow> [msg] | Turn _ \<Rightarrow> []) @ sent_messages ios"

lemma payloads_append [simp]: "payloads (xs @ ys) = payloads xs @ payloads ys"
  by (induction xs) simp_all

lemma texts_append [simp]: "texts (xs @ ys) = texts xs @ texts ys"
  by (induction xs) simp_all

text \<open>
  What has been asked for is what was written, then what waits; an ended task has written a
  part of it.
\<close>

definition forwarding :: "string list \<Rightarrow> WsTask \<Rightarrow> bool" where
  "forwarding ps t \<longleftrightarrow>
     (if wt_phase t = WsEnded then \<exists>rest. ps = texts (wt_written t) @ rest
      else rx_open (wt_rx t) \<and> ps = texts (wt_written t) @ payloads (queue (wt_rx t)))"

lemma ended_written:
  "texts (wt_written (ws_break t)) = texts (wt_written t)"
  "texts (wt_written (ws_close err t)) = texts (wt_written t)"
  "wt_written (ws_return t) = wt_written t"
  "wt_written (ws_send_ignore msg t) = wt_written t"
  by (auto simp: ws_defs split: sum.splits option.splits)

lemma forwarding_ended:
  "ps = texts (wt_written t) @ rest \<Longrightarrow> wt_phase t = WsEnded \<Longrightarrow> forwarding ps t"
  by (auto simp: forwarding_def)

lemma forwarding_caller:
  assumes "ps = texts (wt_written t) @ payloads (msg # queue (wt_rx t))"
    "wt_phase t = WsRunning" "rx_open (wt_rx t)"
  shows "forwarding ps (ws_on_caller msg err now t)"
proof (cases msg)
  case (Command c)
  then show ?thesis using assms(1)
    by (cases c) (auto intro!: forwarding_ended simp: ended_written)
next
  case (Payload p)
  show ?thesis
  proof (cases err)
    case None
    then show ?thesis using Payload assms by (simp add: ws_write_def forwarding_def)
  next
    case (Some a)
    then show ?thesis using Payload assms(1)
      by (auto simp: ws_write_def ended_written intro!: forwarding_ended)
  qed
next
  case TestConnection
  then show ?thesis using assms
    by (cases err) (auto simp: ws_write_def forwarding_def ended_written)
qed

lemma socket_keeps:
  "wt_phase (ws_on_socket msg t) \<noteq> WsEnded \<Longrightarrow> wt_phase (ws_on_socket msg t) = wt_phase t \<and>
     wt_rx (ws_on_socket msg t) = wt_rx t"
  "texts (wt_written (ws_on_socket msg t)) = texts (wt_written t)"
  by (induction msg t rule: ws_on_socket.induct)
     (auto simp: ended_written ws_send_update_def ws_send_ignore_def split: sum.splits)

lemma forwarding_same:
  assumes "forwarding ps t" "texts (wt_written t') = texts (wt_written t)" "wt_phase t \<noteq> WsEnded"
    "wt_phase t' \<noteq> WsEnded \<Longrightarrow> wt_rx t' = wt_rx t"
  shows "forwarding ps t'"
  using assms by (auto simp: forwarding_def split: if_splits)

lemma forwarding_running:
  assumes "forwarding ps t" "wt_phase t = WsRunning"
  shows "forwarding ps (ws_step e ev t)"
proof -
  note same = forwarding_same [OF assms(1)]
  have ticked: "forwarding ps (ws_on_tick now t)" for now
    using assms(2) by (intro same)
      (auto simp: ws_on_tick_def ended_written ws_send_ignore_def ws_send_update_def
        split: option.splits sum.splits)
  show ?thesis
  proof (cases ev)
    case (CallerMessage err now)
    show ?thesis
    proof (cases "queue (wt_rx t)")
      case Nil
      with assms CallerMessage show ?thesis by (simp add: ws_step_def chan_recv_def)
    next
      case (Cons msg msgs)
      with assms have "forwarding ps (ws_on_caller msg err now (t\<lparr>wt_rx := (wt_rx t)\<lparr>queue := msgs\<rparr>\<rparr>))"
        by (intro forwarding_caller) (simp_all add: forwarding_def)
      with CallerMessage assms(2) Cons show ?thesis by (simp add: ws_step_def chan_recv_def)
    qed
  next
    case (CallerClosed err)
    with assms(2) have "ws_step e ev t = ws_close err t" by (simp add: ws_step_def)
    then show ?thesis using same [of "ws_close err t"] assms(2) by (simp add: ended_written)
  next
    case (Incoming msg)
    with assms(2) have "ws_step e ev t = ws_on_socket msg t" by (simp add: ws_step_def)
    then show ?thesis using same [of "ws_on_socket msg t"] assms(2) socket_keeps by simp
  qed (use assms ticked in \<open>simp_all add: ws_step_def\<close>)
qed

lemma forwarding_step:
  assumes "forwarding ps t"
  shows "forwarding ps (ws_step e ev t)"
proof -
  note same = forwarding_same [OF assms]
  have spawned: "forwarding ps (ws_step e Begin t)" if "wt_phase t = WsSpawned"
    using that by (intro same)
      (auto simp: ws_step_def ws_send_update_def ws_return_def split: sum.splits)
  have connecting: "forwarding ps (ws_resolve e outcome t)" if "wt_phase t = WsConnecting" for outcome
    using that by (intro same)
      (auto simp: ws_resolve_def ws_send_update_def ws_send_ignore_def ws_return_def split: sum.splits)
  show ?thesis
  proof (cases "wt_phase t")
    case WsSpawned
    with assms spawned show ?thesis by (cases ev) (simp_all add: ws_step_def)
  next
    case WsConnecting
    with assms connecting show ?thesis by (cases ev) (simp_all add: ws_step_def)
  qed (use assms forwarding_running in simp_all)
qed

lemma forwarding_sent:
  "forwarding ps t \<Longrightarrow>
    forwarding (ps @ payloads [msg]) (ws_io_step e (Sent msg) t)"
  by (cases "rx_open (wt_rx t)") (auto simp: forwarding_def chan_simps split: if_splits)

lemma forwarding_io:
  "forwarding ps t \<Longrightarrow>
    forwarding (ps @ payloads (sent_messages ios)) (fold (ws_io_step e) ios t)"
proof (induction ios arbitrary: ps t)
  case Nil
  then show ?case by simp
next
  case (Cons io ios)
  show ?case
  proof (cases io)
    case (Sent msg)
    from Cons.IH [OF forwarding_sent [OF Cons.prems, of msg e]] Sent show ?thesis by simp
  next
    case (Turn ev)
    with Cons.IH [OF forwarding_step [OF Cons.prems, of e ev]] show ?thesis by simp
  qed
qed

text \<open>C31: The TV gets the manager's payloads in order, each at most once and none made up: over any
  history of a connection the texts written are a prefix of the payloads sent, and as long as the
  handler lives the payloads sent are exactly those written followed by those still waiting.\<close>

theorem payloads_forwarded_in_order:
  "let final = fold (ws_io_step e) ios (ws_start host use_tls new_chan tx)
   in (\<exists>rest. payloads (sent_messages ios) = texts (wt_written final) @ rest) \<and>
     (wt_phase final = WsEnded \<or>
      payloads (sent_messages ios) = texts (wt_written final) @ payloads (queue (wt_rx final)))"
proof -
  have "forwarding [] (ws_start host use_tls new_chan tx)"
    by (simp add: forwarding_def ws_start_def)
  from forwarding_io [OF this, of ios e] show ?thesis
    by (auto simp: Let_def forwarding_def split: if_splits)
qed

section \<open>The connection test\<close>

text \<open>A connection test starts with one ping and the clock; until it is answered further requests
  change nothing, an answer within or after the time is reported as passed once and ends the
  test, and a timer that finds more than 1500 milliseconds gone reports it as failed.\<close>

theorem connection_test_cycle:
  assumes "rx_open (wt_tx t)" "wt_phase t = WsRunning" "wt_test_start t = None"
    "start \<le> late" "1500 < late - start"
  shows "let tested = ws_on_caller TestConnection None start t;
             reported = \<lambda>ok t'. t'\<lparr>wt_tx := (wt_tx t')\<lparr>queue := queue (wt_tx t') @ [IsConnectionOk ok]\<rparr>\<rparr>
         in wt_written tested = wt_written t @ [Ping] \<and>
            ws_on_caller TestConnection err now tested = tested \<and>
            ws_on_socket (Inr Pong) tested = (reported True tested)\<lparr>wt_test_start := None\<rparr> \<and>
            ws_on_tick late tested = reported False tested \<and>
            (\<forall>soon. soon \<le> start + 1500 \<longrightarrow> ws_on_tick soon tested = tested)"
  using assms
  by (auto simp: Let_def ws_write_def ws_send_open ws_on_tick_def TEST_CONNECTION_DURATION_def)

theorem connection_test_cycle_witness:
  "ws_on_tick 1501 (ws_on_caller TestConnection None 0
      (ws_start ''wss://tv/'' True new_chan new_chan\<lparr>wt_phase := WsRunning\<rparr>)) \<noteq>
   ws_on_caller TestConnection None 0
      (ws_start ''wss://tv/'' True new_chan new_chan\<lparr>wt_phase := WsRunning\<rparr>)"
  using connection_test_cycle [of "ws_start ''wss://tv/'' True new_chan new_chan\<lparr>wt_phase := WsRunning\<rparr>"
      0 1501 None 0]
  by (simp add: ws_start_def Let_def ws_write_def new_chan_def)

text \<open>A failed test is not forgotten: while no answer comes, every later timer reports the same
  test as failed again, and requests for a new test stay without effect.\<close>

theorem failed_test_repeats:
  assumes "rx_open (wt_tx t)" "wt_test_start t = Some start"
    "\<forall>now \<in> set ticks. start \<le> now \<and> 1500 < now - start"
  shows "fold ws_on_tick ticks t =
      t\<lparr>wt_tx := (wt_tx t)\<lparr>queue := queue (wt_tx t) @ replicate (length ticks) (IsConnectionOk False)\<rparr>\<rparr> \<and>
    ws_on_caller TestConnection err now (fold ws_on_tick ticks t) = fold ws_on_tick ticks t"
  using assms
proof (induction ticks arbitrary: t)
  case Nil
  then show ?case by simp
next
  case (Cons tick ticks)
  let ?t = "ws_on_tick tick t"
  have t: "?t = t\<lparr>wt_tx := (wt_tx t)\<lparr>queue := queue (wt_tx t) @ [IsConnectionOk False]\<rparr>\<rparr>"
    using Cons.prems by (simp add: ws_on_tick_def TEST_CONNECTION_DURATION_def ws_send_open)
  have "rx_open (wt_tx ?t)" "wt_test_start ?t = Some start"
    "\<forall>now \<in> set ticks. start \<le> now \<and> 1500 < now - start"
    using Cons.prems by (simp_all add: t)
  from Cons.IH [OF this] Cons.prems(2) show ?case by (simp add: t)
qed

theorem failed_test_repeats_witness:
  "queue (wt_tx (fold ws_on_tick [2000, 3000]
     (ws_start ''wss://tv/'' True new_chan new_chan\<lparr>wt_phase := WsRunning, wt_test_start := Some 0\<rparr>))) =
   [IsConnectionOk False, IsConnectionOk False]"
  using failed_test_repeats [of
      "ws_start ''wss://tv/'' True new_chan new_chan\<lparr>wt_phase := WsRunning, wt_test_start := Some 0\<rparr>"
      0 "[2000, 3000]" None 0]
  by (simp add: ws_start_def numeral_2_eq_2)

end
