(* ===== verification/Tv_Network_Check.thy ===== *)
theory Tv_Network_Check
  imports Lgtv_Prelude
begin

text \<open>
  \<open>src/src/tv_network_check.rs\<close>: the checker that pings the TV. Its shared flags are booleans; a
  \<open>Notify\<close> is the permit it stores, so several notifications before one is waited for are one.
  The ICMP client is not modelled: whether it can be made, and whether a ping is answered, comes
  with the event.
\<close>

section \<open>State\<close>

text \<open>
  \<open>nc_pinging\<close> is the address the task waits for an answer of, \<open>nc_ping_target_ip\<close> its local
  variable; both matter only once the task runs.
\<close>

record TvNetworkChecker =
  nc_is_tv_on_network :: bool
  nc_is_operational :: bool
  nc_check :: bool
  nc_on_network_notify :: bool
  nc_tv_ip :: "IpAddr option"
  nc_tv_ip_notify :: bool
  nc_is_pinging :: bool
  nc_pinging_notify :: bool
  nc_ping_target_ip :: "IpAddr option"
  nc_pinging :: "IpAddr option"

definition nc_new :: TvNetworkChecker where
  "nc_new = \<lparr>nc_is_tv_on_network = False, nc_is_operational = False, nc_check = False,
     nc_on_network_notify = False, nc_tv_ip = None, nc_tv_ip_notify = False,
     nc_is_pinging = False, nc_pinging_notify = False, nc_ping_target_ip = None,
     nc_pinging = None\<rparr>"

section \<open>Operations of the manager\<close>

text \<open>\<open>start\<close>: without a ping client it fails, and the task does not run.\<close>

definition nc_start :: "unit result \<Rightarrow> TvNetworkChecker \<Rightarrow> TvNetworkChecker result" where
  "nc_start client c = (case client of
       Inl err \<Rightarrow> Inl err
     | Inr _ \<Rightarrow> Inr (c\<lparr>nc_is_operational := True\<rparr>))"

definition nc_check_now :: "TvNetworkChecker \<Rightarrow> TvNetworkChecker" where
  "nc_check_now c = c\<lparr>nc_check := True\<rparr>"

definition nc_set_tv_ip :: "IpAddr \<Rightarrow> TvNetworkChecker \<Rightarrow> TvNetworkChecker" where
  "nc_set_tv_ip ip c = nc_check_now (c\<lparr>nc_tv_ip := Some ip, nc_tv_ip_notify := True\<rparr>)"

definition nc_get_tv_ip :: "TvNetworkChecker \<Rightarrow> IpAddr option" where
  "nc_get_tv_ip c = nc_tv_ip c"

section \<open>The task\<close>

text \<open>\<open>check_tv\<close> up to the wait for the answer, and from there on.\<close>

definition check_tv_begin :: "IpAddr \<Rightarrow> TvNetworkChecker \<Rightarrow> TvNetworkChecker" where
  "check_tv_begin ip c =
     (if nc_is_pinging c then c
      else c\<lparr>nc_is_pinging := True, nc_pinging_notify := True, nc_pinging := Some ip\<rparr>)"

definition check_tv_end :: "bool \<Rightarrow> TvNetworkChecker \<Rightarrow> TvNetworkChecker" where
  "check_tv_end answered c =
     c\<lparr>nc_is_tv_on_network := answered, nc_on_network_notify := True,
       nc_is_pinging := False, nc_pinging_notify := True, nc_pinging := None\<rparr>"

definition check_target :: "TvNetworkChecker \<Rightarrow> TvNetworkChecker" where
  "check_target c = (case nc_ping_target_ip c of
       Some target_ip \<Rightarrow> check_tv_begin target_ip c
     | None \<Rightarrow> c)"

datatype nc_event = MinuteTick | IpNotified | CheckNotified | Answer bool

text \<open>While the task waits for an answer nothing else of its \<open>select!\<close> runs.\<close>

definition nc_step :: "nc_event \<Rightarrow> TvNetworkChecker \<Rightarrow> TvNetworkChecker" where
  "nc_step ev c =
     (if \<not> nc_is_operational c then c
      else case nc_pinging c of
          Some _ \<Rightarrow> (case ev of Answer answered \<Rightarrow> check_tv_end answered c | _ \<Rightarrow> c)
        | None \<Rightarrow>
            (case ev of
               MinuteTick \<Rightarrow> check_target c
             | IpNotified \<Rightarrow>
                 (if nc_tv_ip_notify c
                  then nc_check_now (c\<lparr>nc_tv_ip_notify := False, nc_ping_target_ip := nc_tv_ip c\<rparr>)
                  else c)
             | CheckNotified \<Rightarrow>
                 (if nc_check c then check_target (c\<lparr>nc_check := False\<rparr>) else c)
             | Answer _ \<Rightarrow> c))"

lemmas nc_defs = nc_new_def nc_start_def nc_check_now_def nc_set_tv_ip_def nc_get_tv_ip_def
  check_tv_begin_def check_tv_end_def check_target_def nc_step_def

section \<open>Properties\<close>

text \<open>What the manager and the task do, in any order.\<close>

datatype nc_io = CheckNow | SetIp IpAddr | Task nc_event

primrec nc_io_step :: "nc_io \<Rightarrow> TvNetworkChecker \<Rightarrow> TvNetworkChecker" where
  "nc_io_step CheckNow c = nc_check_now c"
| "nc_io_step (SetIp ip) c = nc_set_tv_ip ip c"
| "nc_io_step (Task ev) c = nc_step ev c"

definition nc_inv :: "TvNetworkChecker \<Rightarrow> bool" where
  "nc_inv c \<longleftrightarrow> (nc_is_pinging c \<longleftrightarrow> nc_pinging c \<noteq> None)"

definition nc_ips :: "IpAddr set \<Rightarrow> TvNetworkChecker \<Rightarrow> bool" where
  "nc_ips ips c \<longleftrightarrow> set_option (nc_tv_ip c) \<subseteq> ips \<and> set_option (nc_ping_target_ip c) \<subseteq> ips \<and>
     set_option (nc_pinging c) \<subseteq> ips \<and> (nc_is_tv_on_network c \<longrightarrow> ips \<noteq> {})"

lemma nc_io_step_inv: "nc_inv c \<Longrightarrow> nc_inv (nc_io_step io c)"
  by (cases io) (auto simp: nc_inv_def nc_defs split: option.splits nc_event.splits)

lemma nc_io_step_ips:
  "nc_ips ips c \<Longrightarrow> nc_ips (ips \<union> (case io of SetIp ip \<Rightarrow> {ip} | _ \<Rightarrow> {})) (nc_io_step io c)"
  by (cases io) (auto simp: nc_ips_def nc_defs split: option.splits nc_event.splits)

definition ips_set :: "nc_io list \<Rightarrow> IpAddr set" where
  "ips_set ios = {ip. SetIp ip \<in> set ios}"

lemma nc_run_inv: "nc_inv c \<Longrightarrow> nc_inv (fold nc_io_step ios c)"
  by (induction ios arbitrary: c) (simp_all add: nc_io_step_inv)

lemma nc_run_ips: "nc_ips ips c \<Longrightarrow> nc_ips (ips \<union> ips_set ios) (fold nc_io_step ios c)"
proof (induction ios arbitrary: ips c)
  case Nil
  then show ?case by (simp add: ips_set_def)
next
  case (Cons io ios)
  have "(ips \<union> (case io of SetIp ip \<Rightarrow> {ip} | _ \<Rightarrow> {})) \<union> ips_set ios = ips \<union> ips_set (io # ios)"
    by (cases io) (auto simp: ips_set_def)
  with Cons.IH [OF nc_io_step_ips [OF Cons.prems, of io]] show ?case by simp
qed

lemma nc_started_inv: "nc_start client nc_new = Inr c \<Longrightarrow> nc_inv c \<and> nc_ips {} c"
  by (auto simp: nc_inv_def nc_ips_def nc_defs split: sum.splits)



text \<open>A checker that was never given an address never finds the TV on the network, however often
  it is asked and whatever the network answers.\<close>

theorem no_address_never_on_network:
  assumes "nc_start client nc_new = Inr c0" "ips_set ios = {}"
  shows "\<not> nc_is_tv_on_network (fold nc_io_step ios c0)"
  using nc_run_ips [of "{}" c0 ios] nc_started_inv [OF assms(1)] assms(2)
  by (simp add: nc_ips_def)

theorem no_address_never_on_network_witness:
  "\<not> nc_is_tv_on_network (fold nc_io_step [CheckNow, Task CheckNotified, Task (Answer True)]
      (nc_new\<lparr>nc_is_operational := True\<rparr>))"
  by (rule no_address_never_on_network [of "Inr ()"]) (simp_all add: nc_start_def ips_set_def)

text \<open>A new address is checked at once: given to an idle task, it is the next one pinged, and the
  answer becomes the state of the TV, with a notification waiting for the manager.\<close>

theorem new_address_checked:
  assumes "nc_is_operational c" "nc_inv c" "nc_pinging c = None"
  shows "let pinging = fold nc_io_step [SetIp ip, Task IpNotified, Task CheckNotified] c;
             answered = nc_io_step (Task (Answer ok)) pinging
         in nc_pinging pinging = Some ip \<and> nc_is_tv_on_network answered = ok \<and>
            nc_on_network_notify answered \<and> nc_pinging answered = None \<and> nc_get_tv_ip answered = Some ip"
  using assms by (simp add: Let_def nc_inv_def nc_defs)

theorem new_address_checked_witness:
  "nc_is_tv_on_network (fold nc_io_step
      [SetIp (V4 1), Task IpNotified, Task CheckNotified, Task (Answer True)]
      (nc_new\<lparr>nc_is_operational := True\<rparr>))"
  using new_address_checked [of "nc_new\<lparr>nc_is_operational := True\<rparr>" "V4 1" True]
  by (simp add: Let_def nc_inv_def nc_new_def)

end
