(* ===== verification/Manager.thy ===== *)
theory Manager
  imports State_Machine Discovery Persisted_State Websocket_Client Tv_Network_Check
begin

text \<open>
  The manager's state (\<open>src/src/lgtv_manager.rs\<close>) and its small operations: what it sends
  (\<open>message_senders.rs\<close>, \<open>out_emitters.rs\<close>), the setters (\<open>setters.rs\<close>), the persisted state
  (\<open>persisted_state.rs\<close>), the resets, and the network helpers (\<open>network_utils.rs\<close>). Every method is
  a function from the manager to the manager it leaves; the record \<open>ext\<close> comes first where the
  method calls code outside the repository.
\<close>

section \<open>Messages\<close>

datatype ManagerMessage =
    CancelReconnect
  | Connect Connection
  | ConnectLastGoodConnection
  | Disconnect
  | Discover
  | EmitAllState
  | SendTvCommand TvCommand
  | ShutDown
  | TestConnection
  | TestTvOnNetwork
  | WakeLastSeenTv

datatype ManagerError =
    Action string
  | Connection string
  | Discovery string
  | Fatal string
  | Pair string

datatype TestStatus = Unknown | InProgress | Passed | Failed

datatype ReconnectFlowStatus = Active | Cancelled | Inactive | WaitingForTvOnNetwork

type_synonym ManagerStatus = State

datatype ManagerOutputMessage =
    ConnectionTestStatus TestStatus
  | DiscoveredDevices "LgTvDevice list"
  | Error ManagerError
  | IsDiscovering bool
  | ReconnectFlowStatus ReconnectFlowStatus
  | IsWakeLastSeenTvAvailable bool
  | LastSeenTv LastSeenTv
  | Resetting string
  | Status ManagerStatus
  | TvOnNetworkTestStatus TestStatus
  | TvInfo "TvInfo option"
  | TvInputs "ExternalInput list option"
  | TvSoftwareInfo "CurrentSwInfoPayload option"
  | TvState TvState
  | TvError string
  | TvUnrecognizedPayload string

section \<open>State\<close>

text \<open>
  A flag the manager shares: one of its own, which nobody sets, or, once the network checker has
  started, that of the checker.
\<close>

datatype SharedFlag = OwnFlag bool | CheckerFlag

text \<open>
  The fields of the struct. A sender or receiver is the channel it belongs to; the handler of
  the WebSocket is the task behind \<open>ws_join_handle\<close>. The last seven fields are not in the
  program: the disk, and how many identifiers, reconnect waits and waits for the handler there
  have been, which select what \<open>ext\<close> answers next; \<open>discovery_tasks\<close> counts the discoveries
  spawned and not yet started, \<open>discovery_searching\<close> those that search, \<open>discovery_ending\<close> those
  that have reported and not yet said that they are over.
\<close>

record Manager =
  manager_status :: ManagerStatus
  tv_info :: "TvInfo option"
  tv_inputs :: "ExternalInput list option"
  tv_software_info :: "CurrentSwInfoPayload option"
  tv_state :: TvState
  client_key :: "string option"
  mac_addr :: "MacAddr option"
  connection_details :: "Connection option"
  last_good_connection :: "Connection option"
  tv_host_ip :: "IpAddr option"
  tv_host_ip_notifier :: bool
  is_connection_initialized :: bool
  is_manual_disconnect_requested :: bool
  is_pairing :: bool
  tv_on_network_checker :: TvNetworkChecker
  is_testing_tv_on_network :: SharedFlag
  is_tv_on_network :: SharedFlag
  reconnect_flow_status :: ReconnectFlowStatus
  reconnect_attempts :: u64
  session_connection_count :: u64
  command_rx :: "ManagerMessage chan"
  output_tx :: "ManagerOutputMessage chan"
  to_fsm_tx :: "Input chan option"
  ws_url :: "string option"
  to_ws_tx :: "WsMessage chan option"
  from_ws_rx :: "WsUpdateMessage chan option"
  ws_join_handle :: "WsTask option"
  data_dir :: "path option"
  disk :: Disk
  uuid_count :: nat
  wait_count :: nat
  join_count :: nat
  discovery_tasks :: nat
  discovery_searching :: nat
  discovery_ending :: nat

primrec shared_load :: "SharedFlag \<Rightarrow> bool \<Rightarrow> bool" where
  "shared_load (OwnFlag b) checker = b"
| "shared_load CheckerFlag checker = checker"

definition load_is_tv_on_network :: "Manager \<Rightarrow> bool" where
  "load_is_tv_on_network m =
     shared_load (is_tv_on_network m) (nc_is_tv_on_network (tv_on_network_checker m))"

definition load_is_testing_tv_on_network :: "Manager \<Rightarrow> bool" where
  "load_is_testing_tv_on_network m =
     shared_load (is_testing_tv_on_network m) (nc_is_pinging (tv_on_network_checker m))"

section \<open>Sending to the caller\<close>

definition send_out :: "ManagerOutputMessage \<Rightarrow> Manager \<Rightarrow> Manager" where
  "send_out message m = (case chan_send (output_tx m) message of
       Inl _ \<Rightarrow> m
     | Inr tx \<Rightarrow> m\<lparr>output_tx := tx\<rparr>)"

text \<open>A task of its own sends with a sender of its own, into the same channel.\<close>

definition send_out_with_sender :: "'a chan \<Rightarrow> 'a \<Rightarrow> (unit + unit) \<times> 'a chan" where
  "send_out_with_sender sender message = (case chan_send sender message of
       Inl _ \<Rightarrow> (Inl (), sender)
     | Inr tx \<Rightarrow> (Inr (), tx))"

definition discovery_send :: "ManagerOutputMessage \<Rightarrow> Manager \<Rightarrow> Manager" where
  "discovery_send message m =
     m\<lparr>output_tx := snd (send_out_with_sender (output_tx m) message)\<rparr>"

definition emit_manager_status :: "Manager \<Rightarrow> Manager" where
  [manager_defs]: "emit_manager_status m = send_out (Status (manager_status m)) m"

definition emit_last_seen_tv :: "Manager \<Rightarrow> Manager" where
  [manager_defs]: "emit_last_seen_tv m = send_out (LastSeenTv
     \<lparr>lst_websocket_url = ws_url m, lst_client_key = client_key m, lst_mac_addr = mac_addr m\<rparr>) m"

definition emit_tv_info :: "Manager \<Rightarrow> Manager" where
  [manager_defs]: "emit_tv_info m = send_out (TvInfo (tv_info m)) m"

definition emit_tv_inputs :: "Manager \<Rightarrow> Manager" where
  [manager_defs]: "emit_tv_inputs m = send_out (TvInputs (tv_inputs m)) m"

definition emit_tv_software_info :: "Manager \<Rightarrow> Manager" where
  [manager_defs]: "emit_tv_software_info m = send_out (TvSoftwareInfo (tv_software_info m)) m"

definition emit_tv_state :: "Manager \<Rightarrow> Manager" where
  [manager_defs]: "emit_tv_state m = send_out (TvState (tv_state m)) m"

definition emit_is_wake_tv_available :: "Manager \<Rightarrow> Manager" where
  [manager_defs]: "emit_is_wake_tv_available m =
     send_out (IsWakeLastSeenTvAvailable (load_is_tv_on_network m \<and> mac_addr m \<noteq> None)) m"

definition emit_all_tv_details :: "Manager \<Rightarrow> Manager" where
  [manager_defs]: "emit_all_tv_details m =
     (let m = emit_last_seen_tv m;
          m = emit_tv_info m;
          m = emit_tv_inputs m;
          m = emit_tv_software_info m;
          m = emit_tv_state m
      in emit_is_wake_tv_available m)"

section \<open>Setters\<close>

definition is_communicating :: "State \<Rightarrow> bool" where
  "is_communicating s = (case s of Communicating _ \<Rightarrow> True | _ \<Rightarrow> False)"

definition set_manager_status :: "ManagerStatus \<Rightarrow> Manager \<Rightarrow> Manager" where
  "set_manager_status status m =
     (if status = manager_status m then m
      else
        let m = m\<lparr>manager_status := status\<rparr>;
            m = emit_manager_status m
        in if is_communicating (manager_status m) then emit_last_seen_tv m else m)"

definition set_reconnect_flow_status :: "ReconnectFlowStatus \<Rightarrow> Manager \<Rightarrow> Manager" where
  "set_reconnect_flow_status reconnect_status m =
     (let m = (if reconnect_flow_status m \<noteq> Active then m\<lparr>reconnect_attempts := 0\<rparr> else m);
          m = m\<lparr>reconnect_flow_status := reconnect_status\<rparr>
      in send_out (ReconnectFlowStatus (reconnect_flow_status m)) m)"

definition set_host_ip_from_ws_url :: "'u ext \<Rightarrow> Manager \<Rightarrow> Manager" where
  "set_host_ip_from_ws_url e m = (case ws_url m of
       Some url \<Rightarrow>
         (case url_ip_addr e url of
            Some ip_addr \<Rightarrow> m\<lparr>tv_host_ip := Some ip_addr, tv_host_ip_notifier := True\<rparr>
          | None \<Rightarrow> m)
     | None \<Rightarrow> m)"

section \<open>Sending to the state machine\<close>

definition enter_zombie_state :: "string \<Rightarrow> Manager \<Rightarrow> Manager" where
  "enter_zombie_state reason m = set_manager_status Zombie (send_out (Error (Fatal reason)) m)"

definition send_to_fsm :: "Input \<Rightarrow> Manager \<Rightarrow> Manager" where
  "send_to_fsm message m = (case to_fsm_tx m of
       Some tx \<Rightarrow>
         (case chan_send tx message of
            Inr tx \<Rightarrow> m\<lparr>to_fsm_tx := Some tx\<rparr>
          | Inl _ \<Rightarrow>
              enter_zombie_state ''The channel to the state machine has unexpectedly closed'' m)
     | None \<Rightarrow> m)"

definition attempt_fsm_error :: "ManagerError \<Rightarrow> Manager \<Rightarrow> Manager" where
  "attempt_fsm_error manager_error m = send_out (Error manager_error) (send_to_fsm Input.Error m)"

section \<open>Persisted state\<close>

definition import_persisted_state :: "'u ext \<Rightarrow> Manager \<Rightarrow> Manager" where
  "import_persisted_state e m = (case read_persisted_state e (disk m) (data_dir m) of
       Inr persisted_state \<Rightarrow>
         m\<lparr>ws_url := per_ws_url persisted_state,
           client_key := per_client_key persisted_state,
           mac_addr := Option.bind (per_mac_addr persisted_state) (mac_from_str e)\<rparr>
     | Inl _ \<Rightarrow> m)"

definition manager_write_persisted_state :: "'u ext \<Rightarrow> Manager \<Rightarrow> Manager" where
  "manager_write_persisted_state e m =
     (case write_persisted_state e (disk m)
             \<lparr>per_ws_url = ws_url m, per_client_key = client_key m,
              per_mac_addr = map_option (mac_to_string e) (mac_addr m)\<rparr>
             (data_dir m) of
        (Inr _, d) \<Rightarrow> emit_is_wake_tv_available (m\<lparr>disk := d\<rparr>)
      | (Inl _, d) \<Rightarrow> m\<lparr>disk := d\<rparr>)"

definition clear_persisted_state_on_manager :: "Manager \<Rightarrow> Manager" where
  "clear_persisted_state_on_manager m = m\<lparr>ws_url := None, client_key := None, mac_addr := None\<rparr>"

section \<open>Creating a manager\<close>

definition manager_new :: "'u ext \<Rightarrow> Disk \<Rightarrow> ManagerMessage chan \<Rightarrow> Manager" where
  "manager_new e d rx = import_persisted_state e
     \<lparr>manager_status = State.Disconnected, tv_info = None, tv_inputs = None, tv_software_info = None,
      tv_state = tv_state_default, client_key = None, mac_addr = None, connection_details = None,
      last_good_connection = None, tv_host_ip = None, tv_host_ip_notifier = False,
      is_connection_initialized = False, is_manual_disconnect_requested = False,
      is_pairing = False, tv_on_network_checker = nc_new,
      is_testing_tv_on_network = OwnFlag False, is_tv_on_network = OwnFlag False,
      reconnect_flow_status = Inactive, reconnect_attempts = 0, session_connection_count = 0,
      command_rx = rx, output_tx = new_chan, to_fsm_tx = None, ws_url = None, to_ws_tx = None,
      from_ws_rx = None, ws_join_handle = None, data_dir = None, disk = d,
      uuid_count = 0, wait_count = 0, join_count = 0, discovery_tasks = 0,
      discovery_searching = 0, discovery_ending = 0\<rparr>"

text \<open>
  \<open>LgTvManagerBuilder\<close> of \<open>src/src/lgtv_manager_builder.rs\<close>: the manager being built and the
  receiver of its messages, which is the receiving end of \<open>output_tx\<close>.
\<close>

record LgTvManagerBuilder =
  bu_manager :: Manager
  bu_out_channel :: "ManagerOutputMessage chan"

definition builder_new :: "'u ext \<Rightarrow> Disk \<Rightarrow> ManagerMessage chan \<Rightarrow> LgTvManagerBuilder" where
  "builder_new e d command_receiver =
     (let m = manager_new e d command_receiver
      in \<lparr>bu_manager = m, bu_out_channel = output_tx m\<rparr>)"

definition builder_with_data_dir :: "'u ext \<Rightarrow> path \<Rightarrow> LgTvManagerBuilder \<Rightarrow> LgTvManagerBuilder" where
  "builder_with_data_dir e dir b =
     (let m = (bu_manager b)\<lparr>data_dir := Some dir\<rparr>;
          m = clear_persisted_state_on_manager m;
          m = import_persisted_state e m
      in b\<lparr>bu_manager := m\<rparr>)"

definition builder_build :: "LgTvManagerBuilder \<Rightarrow> Manager \<times> ManagerOutputMessage chan" where
  "builder_build b = (bu_manager b, bu_out_channel b)"

section \<open>Resets\<close>

definition check_network :: "Manager \<Rightarrow> Manager" where
  [manager_defs]: "check_network m = m\<lparr>tv_on_network_checker := nc_check_now (tv_on_network_checker m)\<rparr>"

definition in_reconnect_flow :: "Manager \<Rightarrow> bool" where
  "in_reconnect_flow m \<longleftrightarrow>
     reconnect_flow_status m = Active \<or> reconnect_flow_status m = WaitingForTvOnNetwork"

definition initialize_manager_state :: "'u ext \<Rightarrow> Manager \<Rightarrow> Manager" where
  "initialize_manager_state e m =
     (let m = m\<lparr>tv_info := None, tv_inputs := None, tv_software_info := None,
                tv_state := tv_state_default, is_connection_initialized := False\<rparr>;
          m = (if \<not> in_reconnect_flow m
               then m\<lparr>connection_details := None, ws_url := None, mac_addr := None,
                      session_connection_count := 0, is_pairing := False\<rparr>
               else m);
          m = (if reconnect_flow_status m = Cancelled then set_reconnect_flow_status Inactive m else m);
          m = import_persisted_state e m;
          m = check_network m;
          m = emit_all_tv_details m;
          m = send_out (ConnectionTestStatus Unknown) m
      in send_out (TvOnNetworkTestStatus Unknown) m)"

text \<open>\<open>if let Some(to_ws_tx) = &self.to_ws_tx { let _ = to_ws_tx.send(..) }\<close>\<close>

definition shut_down_ws :: "Manager \<Rightarrow> Manager" where
  "shut_down_ws m = (case to_ws_tx m of
       Some tx \<Rightarrow>
         (case chan_send tx (WsMessage.Command WsCommand.ShutDown) of
            Inl _ \<Rightarrow> m
          | Inr tx \<Rightarrow> m\<lparr>to_ws_tx := Some tx\<rparr>)
     | None \<Rightarrow> m)"

text \<open>
  The task with the ends of its channels as the manager has left them, and
  \<open>if let Some(handle) = self.ws_join_handle.take() { handle.await }\<close>: the task runs until it has
  ended.
\<close>

definition attach_ws :: "Manager \<Rightarrow> WsTask \<Rightarrow> WsTask" where
  "attach_ws m t = t\<lparr>wt_rx := (case to_ws_tx m of Some c \<Rightarrow> c | None \<Rightarrow> wt_rx t),
                     wt_tx := (case from_ws_rx m of Some c \<Rightarrow> c | None \<Rightarrow> wt_tx t)\<rparr>"

definition await_ws_handler :: "'u ext \<Rightarrow> Manager \<Rightarrow> Manager" where
  "await_ws_handler e m = (case ws_join_handle m of
       None \<Rightarrow> m
     | Some t \<Rightarrow>
         let t = ws_run_out e (join_events e (join_count m)) (attach_ws m t)
         in m\<lparr>ws_join_handle := None, to_ws_tx := Some (wt_rx t), from_ws_rx := Some (wt_tx t),
              join_count := Suc (join_count m)\<rparr>)"

definition force_manager_reset :: "'u ext \<Rightarrow> string \<Rightarrow> Manager \<Rightarrow> Manager" where
  "force_manager_reset e reason m =
     (let m = send_out (Resetting reason) m;
          m = shut_down_ws m;
          m = await_ws_handler e m;
          m = initialize_manager_state e m;
          m = send_to_fsm Reset m
      in emit_manager_status m)"

definition send_to_ws :: "'u ext \<Rightarrow> WsMessage \<Rightarrow> Manager \<Rightarrow> Manager" where
  "send_to_ws e message m = (case to_ws_tx m of
       Some tx \<Rightarrow>
         (case chan_send tx message of
            Inr tx \<Rightarrow> m\<lparr>to_ws_tx := Some tx\<rparr>
          | Inl _ \<Rightarrow> force_manager_reset e
              ''Cannot send message to WebSocket handler: channel unexpectedly closed'' m)
     | None \<Rightarrow> m)"

section \<open>Network helpers\<close>

text \<open>
  \<open>discover\<close> spawns a task with a sender of its own. \<open>discovery_begins\<close>, \<open>discovery_reports\<close> and
  \<open>discovery_ends\<close> are what the task sends before the search, after it and last.
\<close>

definition discover :: "Manager \<Rightarrow> Manager" where
  "discover m = m\<lparr>discovery_tasks := Suc (discovery_tasks m)\<rparr>"

definition discovery_begins :: "Manager \<Rightarrow> Manager" where
  "discovery_begins m = discovery_send (IsDiscovering True)
     (m\<lparr>discovery_tasks := discovery_tasks m - 1,
        discovery_searching := Suc (discovery_searching m)\<rparr>)"

definition discovery_reports :: "LgTvDevice list result \<Rightarrow> Manager \<Rightarrow> Manager" where
  "discovery_reports found m =
     discovery_send
       (case found of
          Inr discovered_lgtv_devices \<Rightarrow> DiscoveredDevices discovered_lgtv_devices
        | Inl err \<Rightarrow> Error (Discovery (''Discovery failed: '' @ err)))
       (m\<lparr>discovery_searching := discovery_searching m - 1,
          discovery_ending := Suc (discovery_ending m)\<rparr>)"

definition discovery_ends :: "Manager \<Rightarrow> Manager" where
  "discovery_ends m = discovery_send (IsDiscovering False)
     (m\<lparr>discovery_ending := discovery_ending m - 1\<rparr>)"

definition wake_result :: "'u ext \<Rightarrow> PersistedState result \<Rightarrow> string option" where
  "wake_result e persisted = (case persisted of
       Inl err \<Rightarrow> Some (''Cannot read persisted data: '' @ err)
     | Inr persisted_state \<Rightarrow>
         (case (per_ws_url persisted_state, per_mac_addr persisted_state) of
            (Some url, Some mac) \<Rightarrow>
              (case (url_ip_addr e url, wol_mac e mac) of
                 (Some ip, Some addr) \<Rightarrow>
                   (case send_wol e addr ip of
                      Some err \<Rightarrow> Some (''Send error: '' @ err)
                    | None \<Rightarrow> None)
               | _ \<Rightarrow> Some (''Cannot determine host IP and MAC from URL: '' @ url @ '' MAC: '' @ mac))
          | _ \<Rightarrow> Some ''Missing WebSocket URL or MAC address''))"

definition wake_last_seen_tv :: "'u ext \<Rightarrow> Manager \<Rightarrow> Manager" where
  "wake_last_seen_tv e m = (case wake_result e (read_persisted_state e (disk m) (data_dir m)) of
       Some msg \<Rightarrow> send_out (Error (Action (''Cannot send Wake-on-LAN: '' @ msg))) m
     | None \<Rightarrow> m)"

definition is_initial_connect_retries_enabled :: "Manager \<Rightarrow> bool" where
  "is_initial_connect_retries_enabled m = (case connection_details m of
       Some connection \<Rightarrow> cs_initial_connect_retries (settings_of connection)
     | None \<Rightarrow> False)"

definition is_auto_reconnect_enabled :: "Manager \<Rightarrow> bool" where
  "is_auto_reconnect_enabled m = (case connection_details m of
       Some connection \<Rightarrow> cs_auto_reconnect (settings_of connection)
     | None \<Rightarrow> False)"

definition optionally_prepare_for_reconnect :: "Manager \<Rightarrow> Manager" where
  "optionally_prepare_for_reconnect m =
     (if is_manual_disconnect_requested m \<or> reconnect_flow_status m = Cancelled then m
      else set_reconnect_flow_status
        (if is_auto_reconnect_enabled m then
           (if load_is_tv_on_network m then Active
            else if \<not> load_is_tv_on_network m \<and> \<not> nc_is_operational (tv_on_network_checker m)
              then Active
            else WaitingForTvOnNetwork)
         else Inactive) m)"

definition should_retry_connect_failure :: "Manager \<Rightarrow> bool" where
  "should_retry_connect_failure m =
     (if is_initial_connect_retries_enabled m \<and> session_connection_count m = 0 then True
      else if is_auto_reconnect_enabled m \<and> 0 < session_connection_count m then True
      else False)"

end
