(* ===== verification/Orchestration.thy ===== *)
theory Orchestration
  imports Manager
begin

text \<open>
  \<open>src/src/lgtv_manager/orchestration.rs\<close>: the operations that connect the manager, the state
  machine and the WebSocket handler: connecting, registering, initialising, reading the TV's
  responses, disconnecting, reconnecting.
\<close>

section \<open>Connecting\<close>

text \<open>Register the address of the connection with the network checker, if it is a new one.\<close>

definition register_tv_ip :: "'u ext \<Rightarrow> string \<Rightarrow> Manager \<Rightarrow> Manager" where
  "register_tv_ip e url m = (case url_ip_addr e url of
       Some conn_ip_addr \<Rightarrow>
         (case nc_get_tv_ip (tv_on_network_checker m) of
            Some existing_ip \<Rightarrow>
              (if conn_ip_addr \<noteq> existing_ip
               then m\<lparr>tv_on_network_checker := nc_set_tv_ip conn_ip_addr (tv_on_network_checker m)\<rparr>
               else m)
          | None \<Rightarrow> m\<lparr>tv_on_network_checker := nc_set_tv_ip conn_ip_addr (tv_on_network_checker m)\<rparr>)
     | None \<Rightarrow> m)"

definition mac_addr_for :: "'u ext \<Rightarrow> Connection \<Rightarrow> string \<Rightarrow> Manager \<Rightarrow> MacAddr option" where
  "mac_addr_for e connection url m = (case connection of
       Host _ _ \<Rightarrow>
         (case read_persisted_state e (disk m) (data_dir m) of
            Inr persisted \<Rightarrow>
              (if per_ws_url persisted = Some url
               then Option.bind (per_mac_addr persisted) (mac_from_str e)
               else None)
          | Inl _ \<Rightarrow> None)
     | Device device _ \<Rightarrow> Option.bind (dev_mac_addr device) (mac_from_str e))"

definition initiate_connect_to_tv ::
    "'u ext \<Rightarrow> Connection \<Rightarrow> Manager \<Rightarrow> unit result \<times> Manager" where
  "initiate_connect_to_tv e connection m =
     (let m = (case cs_client_key (settings_of connection) of
                 Some manual_client_key \<Rightarrow> m\<lparr>client_key := Some manual_client_key\<rparr>
               | None \<Rightarrow> m)
      in if manager_status m \<noteq> State.Disconnected then
           (Inl (''Cannot connect while not in Disconnected state (current state: '' @
                 debug_state (manager_status m) @ '')''), m)
         else case to_fsm_tx m of
           None \<Rightarrow> (Inl ''Cannot connect before state machine channel is available'', m)
         | Some _ \<Rightarrow>
             (case websocket_url_for_connection e connection of
                Inl err \<Rightarrow> (Inl (''Error determining TV URL: '' @ err), m)
              | Inr url \<Rightarrow>
                  let m = m\<lparr>connection_details := Some connection\<rparr>;
                      m = register_tv_ip e url m;
                      m = set_reconnect_flow_status
                            (if is_initial_connect_retries_enabled m then Active else Inactive) m;
                      m = send_to_fsm (Input.Connect url) m;
                      m = m\<lparr>ws_url := Some url\<rparr>;
                      m = m\<lparr>mac_addr := mac_addr_for e connection url m\<rparr>
                  in (Inr (), m)))"

text \<open>The callers report the error of a connection attempt.\<close>

definition report_connect_error :: "unit result \<times> Manager \<Rightarrow> Manager" where
  "report_connect_error r = (case r of
       (Inl err, m) \<Rightarrow> send_out (Error (Connection err)) m
     | (Inr _, m) \<Rightarrow> m)"

definition start_websocket_handler_and_connect :: "string \<Rightarrow> Manager \<Rightarrow> Manager" where
  "start_websocket_handler_and_connect host m =
     (let is_tls = (case connection_details m of
              Some connection \<Rightarrow> cs_is_tls (settings_of connection)
            | None \<Rightarrow> True)
      in m\<lparr>to_ws_tx := Some new_chan, from_ws_rx := Some new_chan,
           ws_join_handle := Some (ws_start host is_tls new_chan new_chan)\<rparr>)"

definition send_register_payload :: "'u ext \<Rightarrow> Manager \<Rightarrow> Manager" where
  "send_register_payload e m =
     (let force_pairing = (case connection_details m of
              Some connection \<Rightarrow> cs_force_pairing (settings_of connection)
            | None \<Rightarrow> False);
          (request, n) = generate_register_request e (client_key m) force_pairing (uuid_count m);
          m = m\<lparr>uuid_count := n\<rparr>
      in case request of
           Inl err \<Rightarrow> force_manager_reset e err m
         | Inr register_request \<Rightarrow>
             (case json_to_text e (json_of_LgTvRequest register_request) of
                Inr register_payload_string \<Rightarrow>
                  send_to_ws e (WsMessage.Payload register_payload_string) m
              | Inl err \<Rightarrow>
                  force_manager_reset e (''Could not generate register payload string: '' @ err) m))"

text \<open>\<open>TvCommand::into\<close> makes an identifier for every command, used or not.\<close>

definition send_command :: "'u ext \<Rightarrow> TvCommand \<Rightarrow> Manager \<Rightarrow> Manager" where
  "send_command e command m =
     (let (i, n) = generate_lgtv_message_id e (uuid_count m);
          payload = command_payload
            (\<lambda>j. case json_to_text e j of Inl _ \<Rightarrow> None | Inr t \<Rightarrow> Some t) i command
      in send_to_ws e (WsMessage.Payload payload) (m\<lparr>uuid_count := n\<rparr>))"

definition initialize_connection :: "'u ext \<Rightarrow> Manager \<Rightarrow> Manager" where
  "initialize_connection e m =
     (let m = send_command e TvCommand.GetCurrentSWInfo m;
          m = send_command e TvCommand.GetExternalInputList m;
          m = send_command e TvCommand.GetPowerState m;
          m = send_command e TvCommand.GetSystemInfo m;
          m = send_command e TvCommand.SubscribeGetVolume m;
          m = send_command e TvCommand.SubscribeGetPowerState m
      in case connection_details m of
           Some current_connection \<Rightarrow> m\<lparr>last_good_connection := Some current_connection\<rparr>
         | None \<Rightarrow> m)"

section \<open>Responses of the TV\<close>

text \<open>The first volume response completes the initialisation of a connection.\<close>

definition complete_initialization :: "'u ext \<Rightarrow> Manager \<Rightarrow> Manager" where
  "complete_initialization e m =
     (if \<not> is_connection_initialized m then
        let m = send_to_fsm StartCommunication m;
            m = m\<lparr>is_connection_initialized := True\<rparr>
        in set_host_ip_from_ws_url e m
      else m)"

definition set_volume_state :: "u8 \<Rightarrow> bool \<Rightarrow> bool \<Rightarrow> Manager \<Rightarrow> Manager" where
  "set_volume_state volume muted settable m =
     m\<lparr>tv_state := (tv_state m)\<lparr>ts_volume := Some volume, ts_is_muted := Some muted,
                               ts_is_volume_settable := Some settable\<rparr>\<rparr>"

definition handle_pair :: "PairPayload \<Rightarrow> Manager \<Rightarrow> Manager" where
  "handle_pair pair_info m =
     (if pr_pairing_type pair_info = ''PROMPT'' then send_to_fsm Input.Pair m
      else attempt_fsm_error (Pair (''Unexpected pair type: '' @ pr_pairing_type pair_info)) m)"

fun handle_payload :: "'u ext \<Rightarrow> LgTvResponsePayload \<Rightarrow> Manager \<Rightarrow> Manager" where
  "handle_payload e (CurrentSwInfo software_info_payload) m =
     emit_tv_software_info (m\<lparr>tv_software_info := Some software_info_payload\<rparr>)"
| "handle_payload e (LgTvResponsePayload.GetExternalInputList external_inputs_payload) m =
     emit_tv_inputs (m\<lparr>tv_inputs := Some (gei_devices external_inputs_payload)\<rparr>)"
| "handle_payload e (LgTvResponsePayload.GetPowerState power_state_payload) m =
     emit_tv_state (m\<lparr>tv_state := (tv_state m)
       \<lparr>ts_power_state := Some (power_state_from power_state_payload)\<rparr>\<rparr>)"
| "handle_payload e (LgTvResponsePayload.GetSystemInfo system_info_payload) m =
     emit_tv_info (m\<lparr>tv_info := Some (tv_info_from system_info_payload)\<rparr>)"
| "handle_payload e (GetVolumeVariantA volume_payload) m =
     emit_tv_state (set_volume_state (vsa_volume (gva_volume_status volume_payload))
       (vsa_mute_status (gva_volume_status volume_payload))
       (vsa_adjust_volume (gva_volume_status volume_payload)) (complete_initialization e m))"
| "handle_payload e (GetVolumeVariantB volume_payload) m =
     emit_tv_state (set_volume_state (gvb_volume volume_payload) (gvb_muted volume_payload)
       (gvb_supportvolume volume_payload) (complete_initialization e m))"
| "handle_payload e (LgTvResponsePayload.Pair pair_info) m = handle_pair pair_info m"
| "handle_payload e (PlainReturnValue _) m = m"
| "handle_payload e (LgTvResponsePayload.SetScreenOn screen_on_payload) m =
     emit_tv_state (m\<lparr>tv_state := (tv_state m)
       \<lparr>ts_is_screen_on := Some (sso_state screen_on_payload = ''Active'')\<rparr>\<rparr>)"
| "handle_payload e _ m = m"

definition is_pairing_error :: "string option \<Rightarrow> bool" where
  "is_pairing_error err = (case err of
       Some error_string \<Rightarrow>
         str_contains error_string ''pairing'' \<or> str_contains error_string ''403 cancelled''
     | None \<Rightarrow> False)"

definition handle_lgtv_response :: "'u ext \<Rightarrow> LgTvResponse \<Rightarrow> Manager \<Rightarrow> unit result \<times> Manager" where
  "handle_lgtv_response e lgtv_response m =
     (if to_fsm_tx m = None
      then (Inl ''Cannot handle LG response payload without a FSM tx channel'', m)
      else (Inr (),
        (case lgtv_response of
           LgTvResponse.Command command_response \<Rightarrow> handle_payload e (cr_payload command_response) m
         | Registered registered_response \<Rightarrow>
             let m = m\<lparr>client_key := Some (rp_client_key (rr_payload registered_response))\<rparr>;
                 m = manager_write_persisted_state e m
             in send_to_fsm Initialize m
         | LgTvResponse.Error error_response \<Rightarrow>
             let m = send_out (TvError (case er_error error_response of
                         Some error_string \<Rightarrow> error_string
                       | None \<Rightarrow> ''Unknown TV error'')) m
             in if is_pairing_error (er_error error_response) then send_to_fsm Input.Error m else m)))"

section \<open>Disconnecting and reconnecting\<close>

definition initiate_disconnect_from_tv :: "'u ext \<Rightarrow> Manager \<Rightarrow> Manager" where
  "initiate_disconnect_from_tv e m =
     (if ws_join_handle m \<noteq> None
      then send_to_ws e (WsMessage.Command WsCommand.ShutDown) m else m)"

text \<open>
  The wait before a reconnect: at every feedback tick the time left is reported, unless the
  clock went backwards.
\<close>

definition wait_feedback :: "nat \<Rightarrow> string \<Rightarrow> nat option \<Rightarrow> Manager \<Rightarrow> Manager" where
  "wait_feedback retry_duration url clock m = (case clock of
       Some elapsed \<Rightarrow> send_out (Status (WaitingToReconnect
         \<lparr>rd_url = url, rd_attempts = reconnect_attempts m,
          rd_next_attempt_ms = retry_duration - elapsed\<rparr>)) m
     | None \<Rightarrow> m)"

definition wait_to_reconnect :: "'u ext \<Rightarrow> string \<Rightarrow> Manager \<Rightarrow> Manager" where
  "wait_to_reconnect e url m =
     (let retry_duration = reconnect_falloff (reconnect_attempts m) 250 10000
      in fold (wait_feedback retry_duration url) (feedback_clock e (wait_count m))
           (m\<lparr>wait_count := Suc (wait_count m)\<rparr>))"

definition initiate_reconnect :: "'u ext \<Rightarrow> bool \<Rightarrow> Manager \<Rightarrow> Manager" where
  "initiate_reconnect e immediate m =
     (if \<not> load_is_tv_on_network m \<and> nc_is_operational (tv_on_network_checker m) then m
      else
        let m = set_reconnect_flow_status Active m
        in case ws_url m of
             None \<Rightarrow> force_manager_reset e
               ''Unable to initiate reconnect: cannot determine URL to re-connect to''
               (set_reconnect_flow_status Inactive m)
           | Some url \<Rightarrow>
               (case connection_details m of
                  None \<Rightarrow> m
                | Some connection \<Rightarrow>
                    let m = (if immediate then m else wait_to_reconnect e url m);
                        m = m\<lparr>reconnect_attempts := reconnect_attempts m + 1\<rparr>
                    in report_connect_error (initiate_connect_to_tv e connection m)))"

definition handle_disconnected :: "'u ext \<Rightarrow> Manager \<Rightarrow> Manager" where
  "handle_disconnected e m =
     (let m = await_ws_handler e m;
          m = initialize_manager_state e m
      in if reconnect_flow_status m = Active then
           (if is_pairing m
            then (set_reconnect_flow_status Inactive m)\<lparr>is_pairing := False\<rparr>
            else initiate_reconnect e False m)
         else m)"

end
