(* ===== verification/State_Machine_Task.thy ===== *)
theory State_Machine_Task
  imports State_Machine
begin

text \<open>
  The task of \<open>src/src/state_machine.rs\<close> that runs the machine (\<open>start_state_machine\<close>), the
  contract of the crate \<open>rust_fsm\<close> it relies on, and what holds of every sequence of inputs the
  machine accepts.
\<close>

section \<open>The contract of the state machine crate\<close>

text \<open>
  \<open>StateMachine::consume\<close>: an input the current state has a transition for moves the machine and
  gives the output of the old state; any other input is refused with an error (here its \<open>Debug\<close>
  text) and leaves the machine as it was.
\<close>

locale rust_fsm =
  fixes trans :: "'s \<Rightarrow> 'i \<Rightarrow> 's option"
    and out :: "'s \<Rightarrow> 'i \<Rightarrow> 'o option"
    and consume :: "'s \<Rightarrow> 'i \<Rightarrow> string + ('s \<times> 'o option)"
  assumes consume_allowed: "trans s i = Some s' \<Longrightarrow> consume s i = Inr (s', out s i)"
    and consume_refused: "trans s i = None \<Longrightarrow> \<exists>e. consume s i = Inl e"
begin

lemma consume_Inr_iff: "consume s i = Inr (s', x) \<longleftrightarrow> trans s i = Some s' \<and> x = out s i"
  by (cases "trans s i") (auto simp: consume_allowed dest: consume_refused)

lemma consume_Inl_D: "consume s i = Inl e \<Longrightarrow> trans s i = None"
  by (cases "trans s i") (auto simp: consume_allowed)

primrec final_state :: "'s \<Rightarrow> 'i list \<Rightarrow> 's" where
  "final_state s [] = s"
| "final_state s (i # xs) =
     final_state (case consume s i of Inl _ \<Rightarrow> s | Inr (s', _) \<Rightarrow> s') xs"

lemma final_state_append: "final_state s (xs @ ys) = final_state (final_state s xs) ys"
  by (induction xs arbitrary: s) simp_all

lemma final_state_invariant:
  assumes step: "\<And>s i s'. P s \<Longrightarrow> trans s i = Some s' \<Longrightarrow> P s'" and init: "P s"
  shows "P (final_state s xs)"
  using init
proof (induction xs arbitrary: s)
  case Nil
  then show ?case by simp
next
  case (Cons i xs)
  show ?case
  proof (cases "consume s i")
    case (Inl e)
    with Cons show ?thesis by simp
  next
    case (Inr r)
    then obtain s' x where eq: "consume s i = Inr (s', x)" by (cases r) auto
    then have "trans s i = Some s'" by (simp add: consume_Inr_iff)
    with Cons step have "P (final_state s' xs)" by blast
    with eq show ?thesis by simp
  qed
qed

end

text \<open>The documented behaviour, written out for the machine of the program.\<close>

definition consume_doc :: "State \<Rightarrow> Input \<Rightarrow> string + (State \<times> Output option)" where
  "consume_doc s i = (case transition s i of
       None \<Rightarrow> Inl ''TransitionImpossibleError''
     | Some s' \<Rightarrow> Inr (s', fsm_output s i))"

interpretation lgtv_fsm: rust_fsm transition fsm_output consume_doc
  by unfold_locales (auto simp: consume_doc_def)

section \<open>The task\<close>

record FsmTask =
  fsm_state :: State
  fsm_rx :: "Input chan"
  fsm_tx :: "StateMachineUpdateMessage chan"
  fsm_running :: bool

type_synonym consumer = "State \<Rightarrow> Input \<Rightarrow> string + (State \<times> Output option)"

text \<open>Leaving the loop drops the receiving half of the input channel.\<close>

definition fsm_stop :: "FsmTask \<Rightarrow> FsmTask" where
  "fsm_stop t = t\<lparr>fsm_running := False, fsm_rx := chan_close (fsm_rx t)\<rparr>"

definition send_update :: "FsmTask \<Rightarrow> StateMachineUpdateMessage \<Rightarrow> unit + FsmTask" where
  "send_update t m = (case chan_send (fsm_tx t) m of
       Inl u \<Rightarrow> Inl u
     | Inr tx \<Rightarrow> Inr (t\<lparr>fsm_tx := tx\<rparr>))"

definition fsm_error_text :: "Input \<Rightarrow> State \<Rightarrow> string \<Rightarrow> string" where
  "fsm_error_text i s e =
     ''FSM transition error with Input ['' @ debug_input i @ ''] while in State '' @ [CHR 0x27] @
     debug_state s @ [CHR 0x27] @ '': '' @ e"

definition fsm_handle :: "consumer \<Rightarrow> FsmTask \<Rightarrow> Input \<Rightarrow> FsmTask" where
  "fsm_handle consume t i = (case consume (fsm_state t) i of
       Inr (s', fsm_out) \<Rightarrow>
         let t = t\<lparr>fsm_state := s'\<rparr> in
         (case send_update t (State s') of
            Inl _ \<Rightarrow> fsm_stop t
          | Inr t \<Rightarrow>
              (case fsm_out of
                 None \<Rightarrow> t
               | Some x \<Rightarrow> (case send_update t (Output x) of Inl _ \<Rightarrow> fsm_stop t | Inr t \<Rightarrow> t)))
     | Inl e \<Rightarrow>
         (case send_update t (TransitionError (fsm_error_text i (fsm_state t) e)) of
            Inl _ \<Rightarrow> fsm_stop t
          | Inr t \<Rightarrow> t))"

text \<open>One turn of the loop that receives an input, and the whole of a run.\<close>

definition fsm_recv :: "consumer \<Rightarrow> FsmTask \<Rightarrow> FsmTask" where
  "fsm_recv consume t =
     (if fsm_running t then
        (case chan_recv (fsm_rx t) of
           None \<Rightarrow> t
         | Some (i, rx) \<Rightarrow> fsm_handle consume (t\<lparr>fsm_rx := rx\<rparr>) i)
      else t)"

primrec fsm_recv_n :: "consumer \<Rightarrow> nat \<Rightarrow> FsmTask \<Rightarrow> FsmTask" where
  "fsm_recv_n consume 0 t = t"
| "fsm_recv_n consume (Suc n) t = fsm_recv_n consume n (fsm_recv consume t)"

text \<open>
  The task chooses between a waiting input and a cancelled token, in any order when both are
  there.
\<close>

inductive fsm_task_step :: "consumer \<Rightarrow> bool \<Rightarrow> FsmTask \<Rightarrow> FsmTask \<Rightarrow> bool" for consume where
  receive: "fsm_running t \<Longrightarrow> queue (fsm_rx t) \<noteq> [] \<Longrightarrow>
     fsm_task_step consume cancelled t (fsm_recv consume t)"
| cancel: "fsm_running t \<Longrightarrow> fsm_task_step consume True t (fsm_stop t)"

inductive_cases fsm_task_stepE: "fsm_task_step consume cancelled t t'"

section \<open>What the task reports\<close>

text \<open>The messages an input gives, from the transition and output functions alone.\<close>

definition fsm_report :: "consumer \<Rightarrow> State \<Rightarrow> Input \<Rightarrow> StateMachineUpdateMessage list" where
  "fsm_report consume s i = (case transition s i of
       Some s' \<Rightarrow> State s' # (case fsm_output s i of None \<Rightarrow> [] | Some x \<Rightarrow> [Output x])
     | None \<Rightarrow> [TransitionError (fsm_error_text i s (projl (consume s i)))])"

definition fsm_next :: "State \<Rightarrow> Input \<Rightarrow> State" where
  "fsm_next s i = (case transition s i of None \<Rightarrow> s | Some s' \<Rightarrow> s')"

primrec fsm_reports :: "consumer \<Rightarrow> State \<Rightarrow> Input list \<Rightarrow> StateMachineUpdateMessage list" where
  "fsm_reports consume s [] = []"
| "fsm_reports consume s (i # xs) =
     fsm_report consume s i @ fsm_reports consume (fsm_next s i) xs"

lemma send_update_open:
  "rx_open (fsm_tx t) \<Longrightarrow>
    send_update t m = Inr (t\<lparr>fsm_tx := (fsm_tx t)\<lparr>queue := queue (fsm_tx t) @ [m]\<rparr>\<rparr>)"
  by (simp add: send_update_def chan_simps)

lemma send_update_closed: "\<not> rx_open (fsm_tx t) \<Longrightarrow> send_update t m = Inl ()"
  by (simp add: send_update_def chan_simps)

lemma fsm_handle_open:
  assumes "rust_fsm transition fsm_output consume" "rx_open (fsm_tx t)"
  shows "fsm_handle consume t i =
    t\<lparr>fsm_state := fsm_next (fsm_state t) i,
      fsm_tx := (fsm_tx t)\<lparr>queue := queue (fsm_tx t) @ fsm_report consume (fsm_state t) i\<rparr>\<rparr>"
proof (cases "transition (fsm_state t) i")
  case None
  then obtain e where "consume (fsm_state t) i = Inl e"
    using rust_fsm.consume_refused [OF assms(1)] by blast
  with None assms(2) show ?thesis
    by (simp add: fsm_handle_def fsm_report_def fsm_next_def send_update_open)
next
  case (Some s')
  then have "consume (fsm_state t) i = Inr (s', fsm_output (fsm_state t) i)"
    by (rule rust_fsm.consume_allowed [OF assms(1)])
  with Some assms(2) show ?thesis
    by (simp add: fsm_handle_def fsm_report_def fsm_next_def send_update_open Let_def
        split: option.splits)
qed

text \<open>C5: The task refines the pure machine: while the manager listens, taking \<open>n\<close> waiting
  inputs leaves the machine in the state the transition function leads to and appends, in order
  and with nothing lost, exactly the reports of those inputs: the new state and then the output,
  or one transition error with the state unchanged.\<close>

theorem fsm_task_refines:
  assumes "rust_fsm transition fsm_output consume"
    and "fsm_running t" "rx_open (fsm_tx t)" "queue (fsm_rx t) = xs @ ys"
  shows "fsm_recv_n consume (length xs) t =
    t\<lparr>fsm_state := fold (\<lambda>i s. fsm_next s i) xs (fsm_state t),
      fsm_rx := (fsm_rx t)\<lparr>queue := ys\<rparr>,
      fsm_tx := (fsm_tx t)\<lparr>queue := queue (fsm_tx t) @ fsm_reports consume (fsm_state t) xs\<rparr>\<rparr>"
  using assms(2-)
proof (induction xs arbitrary: t)
  case Nil
  then show ?case by simp
next
  case (Cons i xs)
  let ?t = "fsm_recv consume t"
  have t: "?t = t\<lparr>fsm_state := fsm_next (fsm_state t) i,
      fsm_rx := (fsm_rx t)\<lparr>queue := xs @ ys\<rparr>,
      fsm_tx := (fsm_tx t)\<lparr>queue := queue (fsm_tx t) @ fsm_report consume (fsm_state t) i\<rparr>\<rparr>"
    using Cons.prems by (simp add: fsm_recv_def chan_recv_def fsm_handle_open [OF assms(1)])
  then have "fsm_running ?t" "rx_open (fsm_tx ?t)" "queue (fsm_rx ?t) = xs @ ys"
    using Cons.prems by simp_all
  then show ?case using Cons.IH [of ?t] by (simp add: t)
qed

theorem fsm_task_refines_witness:
  "queue (fsm_tx (fsm_recv_n consume_doc 2
     \<lparr>fsm_state = Disconnected,
      fsm_rx = \<lparr>queue = [Connect ''u'', Disconnect], rx_open = True\<rparr>,
      fsm_tx = new_chan, fsm_running = True\<rparr>)) =
   [State (Connecting ''u''), Output (ConnectToTv ''u''),
    TransitionError (fsm_error_text Disconnect (Connecting ''u'') ''TransitionImpossibleError'')]"
  using fsm_task_refines [OF lgtv_fsm.rust_fsm_axioms,
      of "\<lparr>fsm_state = Disconnected,
           fsm_rx = \<lparr>queue = [Connect ''u'', Disconnect], rx_open = True\<rparr>,
           fsm_tx = new_chan, fsm_running = True\<rparr>" "[Connect ''u'', Disconnect]" "[]"]
  by (simp add: fsm_report_def fsm_next_def consume_doc_def numeral_2_eq_2)

section \<open>Accepted inputs\<close>

text \<open>The sequences of inputs the machine accepts, with the state they lead to.\<close>

inductive accepts :: "Input list \<Rightarrow> State \<Rightarrow> bool" where
  start: "accepts [] INITIAL_STATE"
| step: "accepts xs s \<Longrightarrow> transition s i = Some s' \<Longrightarrow> accepts (xs @ [i]) s'"

fun_cases transitionE: "transition s i = Some s'"

text \<open>How far a connection has come since its \<open>Connect\<close>.\<close>

definition handshake :: "string \<Rightarrow> Input list \<Rightarrow> bool" where
  "handshake u xs \<longleftrightarrow> xs = [Connect u, AttemptRegister, Initialize] \<or>
                     xs = [Connect u, AttemptRegister, Pair, Initialize]"

fun since_connect :: "State \<Rightarrow> Input list \<Rightarrow> bool" where
  "since_connect Disconnected xs = (xs = [])"
| "since_connect (Connecting u) xs = (xs = [Connect u])"
| "since_connect (Connected u) xs = (xs = [Connect u, AttemptRegister])"
| "since_connect (Pairing u) xs = (xs = [Connect u, AttemptRegister, Pair])"
| "since_connect (Initializing u) xs = handshake u xs"
| "since_connect (Communicating u) xs =
     (\<exists>hs cmds. handshake u hs \<and> xs = hs @ StartCommunication # map Input.SendCommand cmds)"
| "since_connect (Disconnecting u) xs = (take 2 xs = [Connect u, AttemptRegister])"
| "since_connect (WaitingToReconnect _) xs = False"
| "since_connect Zombie xs = False"

lemma handshake_prefix: "handshake u hs \<Longrightarrow> take 2 (hs @ ys) = [Connect u, AttemptRegister]"
  by (auto simp: handshake_def)

lemma handshakeI [simp]:
  "handshake u [Connect u, AttemptRegister, Initialize]"
  "handshake u [Connect u, AttemptRegister, Pair, Initialize]"
  by (simp_all add: handshake_def)

lemma since_connect_start:
  "handshake u xs \<Longrightarrow> since_connect (Communicating u) (xs @ [StartCommunication])"
  by (simp only: since_connect.simps) (rule exI [of _ xs], rule exI [of _ "[]"], simp)

lemma since_connect_command:
  assumes "since_connect (Communicating u) xs"
  shows "since_connect (Communicating u) (xs @ [Input.SendCommand c])"
proof -
  from assms obtain hs cmds
    where "handshake u hs" "xs = hs @ StartCommunication # map Input.SendCommand cmds" by auto
  then show ?thesis by (auto intro!: exI [of _ hs] exI [of _ "cmds @ [c]"])
qed

lemma take_two: "take 2 xs = [a, b] \<Longrightarrow> take 2 (xs @ ys) = [a, b]"
  by (cases xs; cases "tl xs") auto

lemma communicating_prefix:
  "since_connect (Communicating u) xs \<Longrightarrow> take 2 (xs @ ys) = [Connect u, AttemptRegister]"
  by (auto simp: handshake_prefix simp del: take_append)

lemma since_connect_step:
  "since_connect s xs \<Longrightarrow> transition s i = Some s' \<Longrightarrow> s' \<noteq> Disconnected \<Longrightarrow>
    since_connect s' (xs @ [i])"
  by (erule transitionE)
     (simp_all add: since_connect_start since_connect_command communicating_prefix handshake_prefix
       take_two del: since_connect.simps(6) take_append)

lemma accepts_history:
  "accepts xs s \<Longrightarrow> \<exists>pre cur. xs = pre @ cur \<and> accepts pre Disconnected \<and> since_connect s cur"
proof (induction rule: accepts.induct)
  case start
  show ?case by (auto simp: INITIAL_STATE_def intro: accepts.start [unfolded INITIAL_STATE_def])
next
  case (step xs s i s')
  then obtain pre cur where *: "xs = pre @ cur" "accepts pre Disconnected" "since_connect s cur"
    by blast
  show ?case
  proof (cases "s' = Disconnected")
    case True
    have "accepts (xs @ [i]) Disconnected" using step True by (auto intro: accepts.step)
    with True show ?thesis by (intro exI [of _ "xs @ [i]"] exI [of _ "[]"]) simp
  next
    case False
    with * step.hyps show ?thesis
      by (intro exI [of _ pre] exI [of _ "cur @ [i]"]) (simp add: since_connect_step)
  qed
qed

text \<open>A run of accepted inputs, evaluated.\<close>

fun run_inputs :: "State \<Rightarrow> Input list \<Rightarrow> State option" where
  "run_inputs s [] = Some s"
| "run_inputs s (i # xs) = (case transition s i of None \<Rightarrow> None | Some s' \<Rightarrow> run_inputs s' xs)"

lemma run_inputs_accepts_from:
  "accepts ys s \<Longrightarrow> run_inputs s xs = Some s' \<Longrightarrow> accepts (ys @ xs) s'"
proof (induction xs arbitrary: ys s)
  case Nil
  then show ?case by simp
next
  case (Cons i xs)
  then obtain s1 where "transition s i = Some s1" "run_inputs s1 xs = Some s'"
    by (auto split: option.splits)
  with Cons.IH [of "ys @ [i]" s1] Cons.prems(1) show ?case by (simp add: accepts.step)
qed

lemma run_inputs_accepts: "run_inputs INITIAL_STATE xs = Some s \<Longrightarrow> accepts xs s"
  using run_inputs_accepts_from [OF accepts.start] by simp

section \<open>Properties\<close>

text \<open>Commands reach the TV only after a complete handshake. Whenever the machine is
  \<open>Communicating\<close> with a URL, the inputs it accepted since it was last \<open>Disconnected\<close> are exactly
  the connect to that URL, the registration, at most one pairing, the initialization, the start of
  communication, and then only commands.\<close>

theorem communicating_after_handshake:
  assumes "accepts xs (Communicating u)"
  shows "\<exists>pre pair cmds. accepts pre Disconnected \<and> pair \<in> {[], [Pair]} \<and>
    xs = pre @ Connect u # AttemptRegister # pair @
         Initialize # StartCommunication # map Input.SendCommand cmds"
proof -
  from accepts_history [OF assms] obtain pre hs cmds
    where "accepts pre Disconnected" "handshake u hs"
      "xs = pre @ hs @ StartCommunication # map Input.SendCommand cmds"
    by auto
  then show ?thesis
    by (intro exI [of _ pre] exI [of _ "if hs ! 2 = Pair then [Pair] else []"] exI [of _ cmds])
       (auto simp: handshake_def)
qed

theorem communicating_after_handshake_witness:
  "\<exists>pre pair cmds. accepts pre Disconnected \<and> pair \<in> {[], [Pair]} \<and>
    [Connect ''u'', AttemptRegister, Initialize, StartCommunication] =
      pre @ Connect ''u'' # AttemptRegister # pair @
        Initialize # StartCommunication # map Input.SendCommand cmds"
proof -
  have "run_inputs INITIAL_STATE [Connect ''u'', AttemptRegister, Initialize, StartCommunication] =
      Some (Communicating ''u'')"
    by (simp add: INITIAL_STATE_def)
  then show ?thesis by (intro communicating_after_handshake run_inputs_accepts)
qed

text \<open>The states of the machine proper: not the two that only the manager reports.\<close>

definition live :: "State \<Rightarrow> bool" where
  "live s \<longleftrightarrow> (\<forall>d. s \<noteq> WaitingToReconnect d) \<and> s \<noteq> Zombie"

lemma live_step: "transition s i = Some s' \<Longrightarrow> live s \<and> live s'"
  by (erule transitionE) (simp_all add: live_def)

lemma live_init: "live INITIAL_STATE"
  by (simp add: live_def INITIAL_STATE_def)

text \<open>However the task is fed, and whatever it refuses on the way, the machine never enters
  \<open>WaitingToReconnect\<close> or \<open>Zombie\<close>: those two are reported by the manager alone.\<close>

theorem machine_stays_live: "live (fold (\<lambda>i s. fsm_next s i) xs INITIAL_STATE)"
proof -
  have "live (fsm_next s i)" if "live s" for s i
    using that by (auto simp: fsm_next_def dest: live_step split: option.splits)
  then have "live s \<Longrightarrow> live (fold (\<lambda>i s. fsm_next s i) xs s)" for s
    by (induction xs arbitrary: s) simp_all
  then show ?thesis by (simp add: live_init)
qed

text \<open>From every state of the machine, \<open>Reset\<close> is accepted, leads to \<open>Disconnected\<close> and
  asks the manager for nothing; and every connection can be abandoned by errors alone: from any
  state but \<open>Disconnected\<close>, one or two \<open>Error\<close> inputs lead to \<open>Disconnected\<close>, the first with an
  output that has the manager shut the WebSocket down or handle the end of the connection.\<close>

theorem reset_and_error_recover:
  assumes "live s"
  shows "transition s Reset = Some Disconnected \<and> fsm_output s Reset = None \<and>
    (s = Disconnected \<or>
     (transition s Error = Some Disconnected \<and>
       fsm_output s Error \<in> {Some HandleConnectError, Some HandleDisconnectError}) \<or>
     (\<exists>u. transition s Error = Some (Disconnecting u) \<and>
          fsm_output s Error = Some DisconnectFromTv \<and>
          transition (Disconnecting u) Error = Some Disconnected))"
  using assms by (cases s) (simp_all add: live_def)

theorem reset_and_error_recover_witness:
  "transition (Communicating ''u'') Reset = Some Disconnected \<and>
   (\<exists>u. transition (Communicating ''u'') Error = Some (Disconnecting u))"
proof -
  have "live (Communicating ''u'')" by (simp add: live_def)
  from reset_and_error_recover [OF this] show ?thesis by auto
qed

text \<open>An input has an output only where it has a transition, so the manager is never asked to
  act on a refused input; and the only accepted inputs without an output are \<open>Reset\<close> and
  \<open>StartCommunication\<close>.\<close>

theorem output_iff_accepted:
  "fsm_output s i \<noteq> None \<longleftrightarrow> transition s i \<noteq> None \<and> i \<noteq> Reset \<and> i \<noteq> StartCommunication"
  by (cases s; cases i) simp_all

text \<open>
  The table documented in the source (the DSL and Mermaid comments), by the names of the states,
  inputs and outputs, without the \<open>BecomeZombie\<close> rows, which have no input in the code.
\<close>

datatype phase = PDisconnected | PConnecting | PConnected | PPairing | PInitializing
  | PCommunicating | PDisconnecting

definition doc_table :: "(phase \<times> string \<times> phase \<times> string) list" where
  "doc_table =
    [(PDisconnected, ''Connect'', PConnecting, ''ConnectToTv''),
     (PConnecting, ''AttemptRegister'', PConnected, ''SendRegisterPayload''),
     (PConnecting, ''Error'', PDisconnected, ''HandleConnectError''),
     (PConnected, ''Pair'', PPairing, ''PairWithTv''),
     (PConnected, ''Initialize'', PInitializing, ''InitializeConnection''),
     (PConnected, ''Error'', PDisconnecting, ''DisconnectFromTv''),
     (PPairing, ''Initialize'', PInitializing, ''InitializeConnection''),
     (PPairing, ''Error'', PDisconnecting, ''DisconnectFromTv''),
     (PInitializing, ''StartCommunication'', PCommunicating, ''''),
     (PInitializing, ''Error'', PDisconnecting, ''DisconnectFromTv''),
     (PCommunicating, ''SendCommand'', PCommunicating, ''SendCommand''),
     (PCommunicating, ''Disconnect'', PDisconnecting, ''DisconnectFromTv''),
     (PCommunicating, ''Error'', PDisconnecting, ''DisconnectFromTv''),
     (PDisconnecting, ''DisconnectionComplete'', PDisconnected, ''HandleSuccessfulDisconnect''),
     (PDisconnecting, ''Error'', PDisconnected, ''HandleDisconnectError'')]"

fun phase_of :: "State \<Rightarrow> phase option" where
  "phase_of Disconnected = Some PDisconnected"
| "phase_of (Connecting _) = Some PConnecting"
| "phase_of (Connected _) = Some PConnected"
| "phase_of (Pairing _) = Some PPairing"
| "phase_of (Initializing _) = Some PInitializing"
| "phase_of (Communicating _) = Some PCommunicating"
| "phase_of (Disconnecting _) = Some PDisconnecting"
| "phase_of _ = None"

primrec input_name :: "Input \<Rightarrow> string" where
  "input_name (Connect _) = ''Connect''"
| "input_name AttemptRegister = ''AttemptRegister''"
| "input_name Pair = ''Pair''"
| "input_name Initialize = ''Initialize''"
| "input_name StartCommunication = ''StartCommunication''"
| "input_name (Input.SendCommand _) = ''SendCommand''"
| "input_name Reset = ''Reset''"
| "input_name Error = ''Error''"
| "input_name Disconnect = ''Disconnect''"
| "input_name DisconnectionComplete = ''DisconnectionComplete''"

fun output_name :: "Output option \<Rightarrow> string" where
  "output_name None = ''''"
| "output_name (Some (ConnectToTv _)) = ''ConnectToTv''"
| "output_name (Some SendRegisterPayload) = ''SendRegisterPayload''"
| "output_name (Some PairWithTv) = ''PairWithTv''"
| "output_name (Some InitializeConnection) = ''InitializeConnection''"
| "output_name (Some (Output.SendCommand _)) = ''SendCommand''"
| "output_name (Some DisconnectFromTv) = ''DisconnectFromTv''"
| "output_name (Some HandleConnectError) = ''HandleConnectError''"
| "output_name (Some HandleDisconnectError) = ''HandleDisconnectError''"
| "output_name (Some HandleSuccessfulDisconnect) = ''HandleSuccessfulDisconnect''"

definition machine_row :: "State \<Rightarrow> Input \<Rightarrow> (phase \<times> string \<times> phase \<times> string) option" where
  "machine_row s i =
     (case transition s i of
        None \<Rightarrow> None
      | Some s' \<Rightarrow>
          (case (phase_of s, phase_of s') of
             (Some p, Some q) \<Rightarrow> Some (p, input_name i, q, output_name (fsm_output s i))
           | _ \<Rightarrow> None))"

definition doc_samples :: "(State \<times> Input) list" where
  "doc_samples =
    [(Disconnected, Connect []), (Connecting [], AttemptRegister), (Connecting [], Error),
     (Connected [], Pair), (Connected [], Initialize), (Connected [], Error),
     (Pairing [], Initialize), (Pairing [], Error), (Initializing [], StartCommunication),
     (Initializing [], Error), (Communicating [], Input.SendCommand VolumeUp),
     (Communicating [], Disconnect), (Communicating [], Error),
     (Disconnecting [], DisconnectionComplete), (Disconnecting [], Error)]"

lemma doc_table_samples:
  "map Some doc_table = map (\<lambda>(s, i). machine_row s i) doc_samples"
  "\<forall>(s, i) \<in> set doc_samples. i \<noteq> Reset"
  by (simp_all add: doc_table_def doc_samples_def machine_row_def)


end
