(* ===== verification/Manager_Run.thy ===== *)
theory Manager_Run
  imports Orchestration State_Machine_Task
begin

text \<open>
  \<open>LgTvManager::run\<close> of \<open>src/src/lgtv_manager.rs\<close>: the start of the manager, what it does with each
  message of the caller, of the state machine and of the WebSocket handler and with the two
  notifications of the network checker, and the manager together with the tasks it runs beside.
\<close>

section \<open>Start\<close>

definition start_network_checker :: "unit result \<Rightarrow> Manager \<Rightarrow> Manager" where
  "start_network_checker client m = (case nc_start client (tv_on_network_checker m) of
       Inr c \<Rightarrow> m\<lparr>tv_on_network_checker := c, is_tv_on_network := CheckerFlag,
                  is_testing_tv_on_network := CheckerFlag\<rparr>
     | Inl _ \<Rightarrow> m)"

definition run_start :: "'u ext \<Rightarrow> unit result \<Rightarrow> Manager \<Rightarrow> Manager" where
  "run_start e client m =
     (let m = m\<lparr>to_fsm_tx := Some new_chan\<rparr>;
          m = initialize_manager_state e m;
          m = set_host_ip_from_ws_url e m;
          m = emit_manager_status m;
          m = set_reconnect_flow_status Inactive m
      in start_network_checker client m)"

section \<open>From the caller\<close>

definition cancel_reconnect :: "'u ext \<Rightarrow> Manager \<Rightarrow> Manager" where
  "cancel_reconnect e m =
     (if reconnect_flow_status m = Active \<or> reconnect_flow_status m = WaitingForTvOnNetwork then
        let was_waiting = (reconnect_flow_status m = WaitingForTvOnNetwork);
            m = set_reconnect_flow_status Cancelled m
        in if was_waiting
           then force_manager_reset e ''Cancel called while waiting for TV on network'' m
           else m
      else m)"

text \<open>\<open>ShutDown\<close> is \<open>begin_shut_down\<close> and \<open>end_shut_down\<close> below; here it changes nothing.\<close>

fun handle_manager_message :: "'u ext \<Rightarrow> ManagerMessage \<Rightarrow> Manager \<Rightarrow> Manager" where
  "handle_manager_message e CancelReconnect m = cancel_reconnect e m"
| "handle_manager_message e (Connect connection) m =
     report_connect_error (initiate_connect_to_tv e connection m)"
| "handle_manager_message e ConnectLastGoodConnection m = (case last_good_connection m of
       Some connection \<Rightarrow> report_connect_error (initiate_connect_to_tv e connection m)
     | None \<Rightarrow> m)"
| "handle_manager_message e Disconnect m =
     send_to_fsm Input.Disconnect (m\<lparr>is_manual_disconnect_requested := True\<rparr>)"
| "handle_manager_message e Discover m = discover m"
| "handle_manager_message e EmitAllState m = emit_all_tv_details (emit_manager_status m)"
| "handle_manager_message e (SendTvCommand lgtv_command) m =
     send_to_fsm (Input.SendCommand lgtv_command) m"
| "handle_manager_message e ManagerMessage.ShutDown m = m"
| "handle_manager_message e ManagerMessage.TestConnection m =
     (if is_connection_initialized m
      then send_to_ws e WsMessage.TestConnection (send_out (ConnectionTestStatus InProgress) m)
      else m)"
| "handle_manager_message e TestTvOnNetwork m = check_network m"
| "handle_manager_message e WakeLastSeenTv m = wake_last_seen_tv e m"

section \<open>From the state machine\<close>

definition handle_connect_error :: "'u ext \<Rightarrow> Manager \<Rightarrow> Manager" where
  "handle_connect_error e m =
     (let m = force_manager_reset e ''A WebSocket connection error occurred'' m
      in if should_retry_connect_failure m
         then (case reconnect_flow_status m of
                 Active \<Rightarrow> initiate_reconnect e False m
               | Cancelled \<Rightarrow> set_reconnect_flow_status Inactive m
               | _ \<Rightarrow> m)
         else m)"

fun handle_output :: "'u ext \<Rightarrow> Output \<Rightarrow> Manager \<Rightarrow> Manager" where
  "handle_output e (ConnectToTv host) m = start_websocket_handler_and_connect host m"
| "handle_output e SendRegisterPayload m =
     (let m = set_reconnect_flow_status Inactive m;
          m = m\<lparr>session_connection_count := session_connection_count m + 1\<rparr>
      in send_register_payload e m)"
| "handle_output e PairWithTv m = m\<lparr>is_pairing := True\<rparr>"
| "handle_output e InitializeConnection m = initialize_connection e (m\<lparr>is_pairing := False\<rparr>)"
| "handle_output e (Output.SendCommand lgtv_command) m = send_command e lgtv_command m"
| "handle_output e DisconnectFromTv m =
     initiate_disconnect_from_tv e (optionally_prepare_for_reconnect m)"
| "handle_output e HandleSuccessfulDisconnect m =
     handle_disconnected e (m\<lparr>is_manual_disconnect_requested := False\<rparr>)"
| "handle_output e HandleConnectError m = handle_connect_error e m"
| "handle_output e HandleDisconnectError m =
     handle_disconnected e (m\<lparr>is_manual_disconnect_requested := False\<rparr>)"

primrec handle_state_machine_update ::
    "'u ext \<Rightarrow> StateMachineUpdateMessage \<Rightarrow> Manager \<Rightarrow> Manager" where
  "handle_state_machine_update e (StateMachineUpdateMessage.State sm_state) m =
     set_manager_status sm_state m"
| "handle_state_machine_update e (StateMachineUpdateMessage.Output sm_output) m =
     handle_output e sm_output m"
| "handle_state_machine_update e (TransitionError err) m = send_out (Error (Action err)) m"

section \<open>From the WebSocket\<close>

definition connection_lost :: "string \<Rightarrow> Manager \<Rightarrow> Manager" where
  "connection_lost msg m = attempt_fsm_error (Connection msg) (optionally_prepare_for_reconnect m)"

primrec handle_ws_status :: "WsStatus \<Rightarrow> Manager \<Rightarrow> Manager" where
  "handle_ws_status Idle m = m"
| "handle_ws_status WsStatus.Connected m = send_to_fsm AttemptRegister m"
| "handle_ws_status WsStatus.Disconnected m = send_to_fsm DisconnectionComplete m"
| "handle_ws_status (ConnectError err) m =
     connection_lost (''WebSocket connect error: '' @ debug_str err) m"
| "handle_ws_status (MessageReadError err) m =
     connection_lost (''WebSocket message read error: '' @ debug_str err) m"
| "handle_ws_status ServerClosedConnection m = connection_lost ''Server closed connection'' m"

text \<open>\<open>serde_json::from_str::<LgTvResponse>\<close>.\<close>

definition response_from_text :: "'u ext \<Rightarrow> string \<Rightarrow> LgTvResponse option" where
  "response_from_text e t = Option.bind (json_from_text e t) de_LgTvResponse"

primrec handle_ws_message :: "'u ext \<Rightarrow> WsUpdateMessage \<Rightarrow> Manager \<Rightarrow> Manager" where
  "handle_ws_message e (WsUpdateMessage.Status status) m = handle_ws_status status m"
| "handle_ws_message e (WsUpdateMessage.Payload ws_payload) m =
     (case response_from_text e ws_payload of
        Some lgtv_response \<Rightarrow> snd (handle_lgtv_response e lgtv_response m)
      | None \<Rightarrow> send_out (TvUnrecognizedPayload ws_payload) m)"
| "handle_ws_message e (IsConnectionOk is_ok) m =
     (let m = send_out (ConnectionTestStatus (if is_ok then Passed else Failed)) m
      in if is_ok then m
         else attempt_fsm_error (Connection ''WebSocket connection test failed'') m)"

section \<open>From the network checker\<close>

definition tv_gone_offline :: "Manager \<Rightarrow> Manager" where
  "tv_gone_offline m =
     (if manager_status m = State.Disconnected
      then set_reconnect_flow_status
        (if is_auto_reconnect_enabled m then WaitingForTvOnNetwork else Inactive) m
      else attempt_fsm_error (Connection ''TV host is not available on the network'') m)"

text \<open>The local variable \<open>was_on_network\<close> is passed in and comes back with its new value.\<close>

definition handle_on_network_notify :: "'u ext \<Rightarrow> bool \<Rightarrow> Manager \<Rightarrow> Manager \<times> bool" where
  "handle_on_network_notify e was_on_network m =
     (let is_on_network = load_is_tv_on_network m;
          m = send_out (TvOnNetworkTestStatus (if is_on_network then Passed else Failed)) m;
          m = emit_is_wake_tv_available m;
          m = (if was_on_network \<and> \<not> is_on_network then tv_gone_offline m else m);
          is_waiting_for_tv = (reconnect_flow_status m = WaitingForTvOnNetwork);
          m = (if \<not> was_on_network \<and> is_on_network \<and> is_waiting_for_tv
               then initiate_reconnect e True m else m)
      in (m, is_on_network))"

definition handle_testing_notify :: "Manager \<Rightarrow> Manager" where
  "handle_testing_notify m =
     (if load_is_testing_tv_on_network m
      then send_out (TvOnNetworkTestStatus InProgress) m else m)"

section \<open>The manager and its tasks\<close>

text \<open>
  The manager, the state machine task (whose input channel is the one of \<open>to_fsm_tx\<close>), the
  cancellation token, the local \<open>was_on_network\<close> of the loop, whether the loop takes messages
  (\<open>run_looping\<close>), and whether it has taken \<open>ShutDown\<close> and is not left yet (\<open>run_stopping\<close>). The
  WebSocket task and the network checker are in the manager's record.
\<close>

record Run =
  run_manager :: Manager
  run_fsm :: FsmTask
  run_cancelled :: bool
  run_was_on_network :: bool
  run_looping :: bool
  run_stopping :: bool

text \<open>The turns: the manager's own, those of the tasks, and the caller's.\<close>

datatype turn =
    FromCaller
  | FromStateMachine
  | FromWebSocket
  | OnNetworkNotified
  | TestingNotified
  | ShutDownEnds
  | FsmReceives
  | FsmCancelled
  | WsTurn WsEvent
  | CheckerTurn nc_event
  | DiscoveryBegins
  | DiscoveryReports "LgTvDevice list result"
  | DiscoveryEnds
  | CallerSends ManagerMessage
  | CallerReceives
  | CallerCloses

text \<open>A step of the manager, after which the state machine sees what was sent to it.\<close>

definition manager_step :: "(Manager \<Rightarrow> Manager) \<Rightarrow> Run \<Rightarrow> Run" where
  "manager_step f s =
     (let m = f (run_manager s)
      in s\<lparr>run_manager := m,
           run_fsm := (run_fsm s)\<lparr>fsm_rx := (case to_fsm_tx m of
                          Some c \<Rightarrow> c | None \<Rightarrow> fsm_rx (run_fsm s))\<rparr>\<rparr>)"

definition fsm_task_turn :: "(FsmTask \<Rightarrow> FsmTask) \<Rightarrow> Run \<Rightarrow> Run" where
  "fsm_task_turn f s =
     (let t = f (run_fsm s)
      in s\<lparr>run_fsm := t, run_manager := (run_manager s)\<lparr>to_fsm_tx := Some (fsm_rx t)\<rparr>\<rparr>)"

definition ws_turn :: "'u ext \<Rightarrow> WsEvent \<Rightarrow> Manager \<Rightarrow> Manager" where
  "ws_turn e ev m = (case ws_join_handle m of
       None \<Rightarrow> m
     | Some t \<Rightarrow>
         let t = ws_step e ev (attach_ws m t)
         in m\<lparr>ws_join_handle := Some t, to_ws_tx := Some (wt_rx t), from_ws_rx := Some (wt_tx t)\<rparr>)"

text \<open>
  \<open>ShutDown\<close>: the token is cancelled and the state machine's task is waited for, which may go on
  with the inputs it has before it sees the token. Once it has ended the TV is told, and the loop
  is left; its receivers go with it.
\<close>

definition begin_shut_down :: "Run \<Rightarrow> Run" where
  "begin_shut_down s = s\<lparr>run_cancelled := True, run_looping := False, run_stopping := True\<rparr>"

definition end_shut_down :: "'u ext \<Rightarrow> Run \<Rightarrow> Run" where
  "end_shut_down e s =
     (let s = manager_step (initiate_disconnect_from_tv e) s
      in s\<lparr>run_stopping := False,
           run_fsm := (run_fsm s)\<lparr>fsm_tx := chan_close (fsm_tx (run_fsm s))\<rparr>\<rparr>)"

definition take_notify :: "bool \<Rightarrow> (TvNetworkChecker \<Rightarrow> TvNetworkChecker) \<Rightarrow> Run \<Rightarrow> Run option" where
  "take_notify permit clear s =
     (if run_looping s \<and> permit
      then Some (manager_step (\<lambda>m. m\<lparr>tv_on_network_checker := clear (tv_on_network_checker m)\<rparr>) s)
      else None)"

text \<open>
  One turn, None where it is not ready. The receiving half of the handler's channel returns
  None once the handler is gone and everything it sent is read; the manager then does nothing.
\<close>

fun run_turn :: "'u ext \<Rightarrow> consumer \<Rightarrow> turn \<Rightarrow> Run \<Rightarrow> Run option" where
  "run_turn e consume FromCaller s =
     (if \<not> run_looping s then None
      else case chan_recv (command_rx (run_manager s)) of
          None \<Rightarrow> None
        | Some (msg, rx) \<Rightarrow>
            let s = manager_step (\<lambda>m. m\<lparr>command_rx := rx\<rparr>) s
            in Some (if msg = ManagerMessage.ShutDown then begin_shut_down s
                     else manager_step (handle_manager_message e msg) s))"
| "run_turn e consume FromStateMachine s =
     (if \<not> run_looping s then None
      else case chan_recv (fsm_tx (run_fsm s)) of
          None \<Rightarrow> None
        | Some (msg, rx) \<Rightarrow>
            Some (manager_step (handle_state_machine_update e msg)
                    (s\<lparr>run_fsm := (run_fsm s)\<lparr>fsm_tx := rx\<rparr>\<rparr>)))"
| "run_turn e consume FromWebSocket s =
     (if \<not> run_looping s then None
      else case from_ws_rx (run_manager s) of
          None \<Rightarrow> None
        | Some c \<Rightarrow>
            (case chan_recv c of
               Some (msg, rx) \<Rightarrow>
                 Some (manager_step (\<lambda>m. handle_ws_message e msg (m\<lparr>from_ws_rx := Some rx\<rparr>)) s)
             | None \<Rightarrow>
                 (case ws_join_handle (run_manager s) of
                    None \<Rightarrow> Some s
                  | Some t \<Rightarrow> if wt_phase t = WsEnded then Some s else None)))"
| "run_turn e consume OnNetworkNotified s =
     (case take_notify (nc_on_network_notify (tv_on_network_checker (run_manager s)))
             (\<lambda>c. c\<lparr>nc_on_network_notify := False\<rparr>) s of
        None \<Rightarrow> None
      | Some s \<Rightarrow>
          let b = snd (handle_on_network_notify e (run_was_on_network s) (run_manager s));
              s = manager_step (\<lambda>m. fst (handle_on_network_notify e (run_was_on_network s) m)) s
          in Some (s\<lparr>run_was_on_network := b\<rparr>))"
| "run_turn e consume TestingNotified s =
     (case take_notify (nc_pinging_notify (tv_on_network_checker (run_manager s)))
             (\<lambda>c. c\<lparr>nc_pinging_notify := False\<rparr>) s of
        None \<Rightarrow> None
      | Some s \<Rightarrow> Some (manager_step handle_testing_notify s))"
| "run_turn e consume ShutDownEnds s =
     (if run_stopping s \<and> \<not> fsm_running (run_fsm s) then Some (end_shut_down e s) else None)"
| "run_turn e consume FsmReceives s =
     (if fsm_running (run_fsm s) \<and> queue (fsm_rx (run_fsm s)) \<noteq> []
      then Some (fsm_task_turn (fsm_recv consume) s) else None)"
| "run_turn e consume FsmCancelled s =
     (if fsm_running (run_fsm s) \<and> run_cancelled s
      then Some (fsm_task_turn fsm_stop s) else None)"
| "run_turn e consume (WsTurn ev) s = Some (manager_step (ws_turn e ev) s)"
| "run_turn e consume (CheckerTurn ev) s =
     Some (manager_step (\<lambda>m. m\<lparr>tv_on_network_checker := nc_step ev (tv_on_network_checker m)\<rparr>) s)"
| "run_turn e consume DiscoveryBegins s =
     (if 0 < discovery_tasks (run_manager s)
      then Some (manager_step discovery_begins s) else None)"
| "run_turn e consume (DiscoveryReports found) s =
     (if 0 < discovery_searching (run_manager s)
      then Some (manager_step (discovery_reports found) s) else None)"
| "run_turn e consume DiscoveryEnds s =
     (if 0 < discovery_ending (run_manager s)
      then Some (manager_step discovery_ends s) else None)"
| "run_turn e consume (CallerSends msg) s =
     (case chan_send (command_rx (run_manager s)) msg of
        Inl _ \<Rightarrow> None
      | Inr c \<Rightarrow> Some (manager_step (\<lambda>m. m\<lparr>command_rx := c\<rparr>) s))"
| "run_turn e consume CallerReceives s =
     (case chan_recv (output_tx (run_manager s)) of
        None \<Rightarrow> None
      | Some (_, c) \<Rightarrow> Some (manager_step (\<lambda>m. m\<lparr>output_tx := c\<rparr>) s))"
| "run_turn e consume CallerCloses s =
     Some (manager_step (\<lambda>m. m\<lparr>output_tx := chan_close (output_tx m)\<rparr>) s)"

definition run_initial :: "'u ext \<Rightarrow> unit result \<Rightarrow> Manager \<Rightarrow> Run" where
  "run_initial e client m =
     (let m = run_start e client m
      in \<lparr>run_manager = m,
          run_fsm = \<lparr>fsm_state = INITIAL_STATE,
                     fsm_rx = (case to_fsm_tx m of Some c \<Rightarrow> c | None \<Rightarrow> new_chan),
                     fsm_tx = new_chan, fsm_running = True\<rparr>,
          run_cancelled = False, run_was_on_network = False, run_looping = True,
          run_stopping = False\<rparr>)"

fun run_turns :: "'u ext \<Rightarrow> consumer \<Rightarrow> turn list \<Rightarrow> Run \<Rightarrow> Run option" where
  "run_turns e consume [] s = Some s"
| "run_turns e consume (t # ts) s = Option.bind (run_turn e consume t s) (run_turns e consume ts)"

inductive reachable :: "'u ext \<Rightarrow> consumer \<Rightarrow> Run \<Rightarrow> bool" for e consume where
  init: "reachable e consume (run_initial e client (manager_new e d rx))"
| turn: "reachable e consume s \<Longrightarrow> run_turn e consume t s = Some s' \<Longrightarrow> reachable e consume s'"

end
