(* ===== verification/Manager_Facts.thy ===== *)
theory Manager_Facts
  imports Manager_Run
begin

text \<open>
  The manager's operations as equations between records, so that a proof about a handler
  computes the manager it leaves; and what each operation of \<open>Manager\<close> and \<open>Orchestration\<close> does,
  on every branch.
\<close>

section \<open>Sending\<close>

text \<open>Several messages sent in a row; nothing once the receiver is gone.\<close>

definition chan_pushes :: "'a chan \<Rightarrow> 'a list \<Rightarrow> 'a chan" where
  "chan_pushes c xs = (if rx_open c then c\<lparr>queue := queue c @ xs\<rparr> else c)"

lemma chan_pushes_simps [simp]:
  "chan_pushes c [] = c"
  "chan_pushes (chan_pushes c xs) ys = chan_pushes c (xs @ ys)"
  "rx_open (chan_pushes c xs) = rx_open c"
  "rx_open c \<Longrightarrow> queue (chan_pushes c xs) = queue c @ xs"
  "set (queue (chan_pushes c xs)) \<subseteq> set (queue c) \<union> set xs"
  by (auto simp: chan_pushes_def)

lemma chan_send_pushes:
  "chan_send c x = (if rx_open c then Inr (chan_pushes c [x]) else Inl ())"
  by (simp add: chan_send_def chan_pushes_def)

lemma send_out_eq [simp]: "send_out x m = m\<lparr>output_tx := chan_pushes (output_tx m) [x]\<rparr>"
  by (simp add: send_out_def chan_send_pushes) (simp add: chan_pushes_def)

lemma discovery_send_eq [simp]:
  "discovery_send x m = m\<lparr>output_tx := chan_pushes (output_tx m) [x]\<rparr>"
  by (simp add: discovery_send_def send_out_with_sender_def chan_send_pushes) (simp add: chan_pushes_def)

lemma load_is_tv_on_network_output [simp]:
  "load_is_tv_on_network (m\<lparr>output_tx := c\<rparr>) = load_is_tv_on_network m"
  by (simp add: load_is_tv_on_network_def)

text \<open>The details the manager emits together.\<close>

definition tv_details :: "Manager \<Rightarrow> ManagerOutputMessage list" where
  "tv_details m =
     [LastSeenTv \<lparr>lst_websocket_url = ws_url m, lst_client_key = client_key m, lst_mac_addr = mac_addr m\<rparr>,
      TvInfo (tv_info m), TvInputs (tv_inputs m), TvSoftwareInfo (tv_software_info m),
      TvState (tv_state m),
      IsWakeLastSeenTvAvailable (load_is_tv_on_network m \<and> mac_addr m \<noteq> None)]"

lemma emit_all_tv_details_eq:
  "emit_all_tv_details m = m\<lparr>output_tx := chan_pushes (output_tx m) (tv_details m)\<rparr>"
  by (simp add: manager_defs tv_details_def)

lemma set_manager_status_eq:
  "set_manager_status status m =
     (if status = manager_status m then m
      else m\<lparr>manager_status := status, output_tx := chan_pushes (output_tx m)
        (Status status # (if is_communicating status then
           [LastSeenTv \<lparr>lst_websocket_url = ws_url m, lst_client_key = client_key m,
                        lst_mac_addr = mac_addr m\<rparr>] else []))\<rparr>)"
  by (simp add: set_manager_status_def manager_defs)

lemma set_reconnect_flow_status_eq:
  "set_reconnect_flow_status r m =
     m\<lparr>reconnect_attempts := (if reconnect_flow_status m = Active then reconnect_attempts m else 0),
       reconnect_flow_status := r,
       output_tx := chan_pushes (output_tx m) [ReconnectFlowStatus r]\<rparr>"
  by (simp add: set_reconnect_flow_status_def)

lemma send_to_fsm_eq:
  "to_fsm_tx m = Some c \<Longrightarrow> rx_open c \<Longrightarrow>
    send_to_fsm x m = m\<lparr>to_fsm_tx := Some (chan_pushes c [x])\<rparr>"
  by (simp add: send_to_fsm_def chan_send_pushes)

lemma send_to_fsm_none: "to_fsm_tx m = None \<Longrightarrow> send_to_fsm x m = m"
  by (simp add: send_to_fsm_def)

lemma shut_down_ws_eq:
  "shut_down_ws m = m\<lparr>to_ws_tx := map_option
     (\<lambda>c. chan_pushes c [WsMessage.Command WsCommand.ShutDown]) (to_ws_tx m)\<rparr>"
  by (cases "to_ws_tx m") (simp_all add: shut_down_ws_def chan_send_pushes, simp add: chan_pushes_def)

lemma shut_down_ws_frame [simp]:
  "reconnect_flow_status (shut_down_ws m) = reconnect_flow_status m"
  "output_tx (shut_down_ws m) = output_tx m"
  "to_fsm_tx (shut_down_ws m) = to_fsm_tx m"
  "manager_status (shut_down_ws m) = manager_status m"
  by (simp_all add: shut_down_ws_eq)

section \<open>Resets\<close>

text \<open>What is left of the details of the last TV.\<close>

definition from_disk :: "(PersistedState \<Rightarrow> 'a) \<Rightarrow> 'a \<Rightarrow> PersistedState result \<Rightarrow> 'a" where
  "from_disk f old r = (case r of Inr p \<Rightarrow> f p | Inl _ \<Rightarrow> old)"

lemma from_disk_simps [simp]: "from_disk f old (Inr p) = f p" "from_disk f old (Inl err) = old"
  by (simp_all add: from_disk_def)

definition persisted_mac :: "'u ext \<Rightarrow> PersistedState \<Rightarrow> MacAddr option" where
  "persisted_mac e p = Option.bind (per_mac_addr p) (mac_from_str e)"

lemma import_persisted_state_eq:
  "import_persisted_state e m =
     (let r = read_persisted_state e (disk m) (data_dir m)
      in m\<lparr>ws_url := from_disk per_ws_url (ws_url m) r,
           client_key := from_disk per_client_key (client_key m) r,
           mac_addr := from_disk (persisted_mac e) (mac_addr m) r\<rparr>)"
  by (cases "read_persisted_state e (disk m) (data_dir m)")
     (simp_all add: import_persisted_state_def persisted_mac_def)

text \<open>The fields a reset clears in any case, and those it keeps in a reconnect flow.\<close>

definition cleared :: "Manager \<Rightarrow> Manager" where
  "cleared m =
     (let m = m\<lparr>tv_info := None, tv_inputs := None, tv_software_info := None,
                tv_state := tv_state_default, is_connection_initialized := False\<rparr>
      in if in_reconnect_flow m then m
         else m\<lparr>connection_details := None, ws_url := None, mac_addr := None,
                session_connection_count := 0, is_pairing := False,
                reconnect_attempts := (if reconnect_flow_status m = Cancelled then 0
                                       else reconnect_attempts m),
                reconnect_flow_status := Inactive\<rparr>)"

lemma in_reconnect_flow_cases:
  "\<not> in_reconnect_flow m \<longleftrightarrow> reconnect_flow_status m = Inactive \<or> reconnect_flow_status m = Cancelled"
  by (cases "reconnect_flow_status m") (simp_all add: in_reconnect_flow_def)

lemma in_reconnect_flow_update [simp]:
  "in_reconnect_flow (m\<lparr>tv_info := a, tv_inputs := b, tv_software_info := c, tv_state := d,
     is_connection_initialized := f\<rparr>) = in_reconnect_flow m"
  by (simp add: in_reconnect_flow_def)

text \<open>The messages of a reset: the reconnect status, if it was cancelled, then everything known.\<close>

definition reset_messages :: "bool \<Rightarrow> Manager \<Rightarrow> ManagerOutputMessage list" where
  "reset_messages was_cancelled m =
     (if was_cancelled then [ReconnectFlowStatus Inactive] else []) @ tv_details m @
     [ConnectionTestStatus Unknown, TvOnNetworkTestStatus Unknown]"

lemma initialize_manager_state_eq:
  "initialize_manager_state e m =
     (let m' = check_network (import_persisted_state e (cleared m))
      in m'\<lparr>output_tx := chan_pushes (output_tx m)
              (reset_messages (reconnect_flow_status m = Cancelled) m')\<rparr>)"
proof (cases "in_reconnect_flow m")
  case True
  then have "reconnect_flow_status m \<noteq> Cancelled" by (auto simp: in_reconnect_flow_def)
  with True show ?thesis
    by (simp add: initialize_manager_state_def cleared_def Let_def emit_all_tv_details_eq
        import_persisted_state_eq check_network_def reset_messages_def)
next
  case False
  then consider "reconnect_flow_status m = Inactive" | "reconnect_flow_status m = Cancelled"
    by (auto simp: in_reconnect_flow_cases)
  then show ?thesis
    using False
    by cases (simp_all add: initialize_manager_state_def cleared_def Let_def emit_all_tv_details_eq
        import_persisted_state_eq check_network_def reset_messages_def set_reconnect_flow_status_eq
        tv_details_def load_is_tv_on_network_def)
qed

lemma await_ws_handler_frame [simp]:
  "manager_status (await_ws_handler e m) = manager_status m"
  "tv_info (await_ws_handler e m) = tv_info m"
  "tv_inputs (await_ws_handler e m) = tv_inputs m"
  "tv_software_info (await_ws_handler e m) = tv_software_info m"
  "tv_state (await_ws_handler e m) = tv_state m"
  "client_key (await_ws_handler e m) = client_key m"
  "mac_addr (await_ws_handler e m) = mac_addr m"
  "connection_details (await_ws_handler e m) = connection_details m"
  "last_good_connection (await_ws_handler e m) = last_good_connection m"
  "tv_host_ip (await_ws_handler e m) = tv_host_ip m"
  "tv_host_ip_notifier (await_ws_handler e m) = tv_host_ip_notifier m"
  "is_connection_initialized (await_ws_handler e m) = is_connection_initialized m"
  "is_manual_disconnect_requested (await_ws_handler e m) = is_manual_disconnect_requested m"
  "is_pairing (await_ws_handler e m) = is_pairing m"
  "tv_on_network_checker (await_ws_handler e m) = tv_on_network_checker m"
  "is_testing_tv_on_network (await_ws_handler e m) = is_testing_tv_on_network m"
  "is_tv_on_network (await_ws_handler e m) = is_tv_on_network m"
  "reconnect_flow_status (await_ws_handler e m) = reconnect_flow_status m"
  "reconnect_attempts (await_ws_handler e m) = reconnect_attempts m"
  "session_connection_count (await_ws_handler e m) = session_connection_count m"
  "command_rx (await_ws_handler e m) = command_rx m"
  "output_tx (await_ws_handler e m) = output_tx m"
  "to_fsm_tx (await_ws_handler e m) = to_fsm_tx m"
  "ws_url (await_ws_handler e m) = ws_url m"
  "data_dir (await_ws_handler e m) = data_dir m"
  "disk (await_ws_handler e m) = disk m"
  "uuid_count (await_ws_handler e m) = uuid_count m"
  "wait_count (await_ws_handler e m) = wait_count m"
  "discovery_tasks (await_ws_handler e m) = discovery_tasks m"
  "discovery_searching (await_ws_handler e m) = discovery_searching m"
  "discovery_ending (await_ws_handler e m) = discovery_ending m"
  "ws_join_handle (await_ws_handler e m) = None"
  by (simp_all add: await_ws_handler_def Let_def split: option.splits)

text \<open>Waiting for a handler that has ended.\<close>

lemma ended_run_out: "wt_phase t = WsEnded \<Longrightarrow> ws_run_out e evs t = t"
  by (simp add: ws_run_out_def ws_drain_def)

lemma await_ended:
  assumes "\<forall>t. ws_join_handle m = Some t \<longrightarrow> wt_phase t = WsEnded"
    "to_ws_tx m = Some tx" "from_ws_rx m = Some rx"
  shows "await_ws_handler e m = m\<lparr>ws_join_handle := None,
    join_count := join_count (await_ws_handler e m)\<rparr>"
  using assms
  by (cases "ws_join_handle m")
     (simp_all add: await_ws_handler_def Let_def ended_run_out attach_ws_def)

lemma force_manager_reset_eq:
  assumes "to_fsm_tx m = Some c" "rx_open c"
  shows "force_manager_reset e reason m =
    (let m' = check_network (import_persisted_state e (cleared (await_ws_handler e
                (shut_down_ws (m\<lparr>output_tx := chan_pushes (output_tx m) [Resetting reason]\<rparr>)))))
     in m'\<lparr>to_fsm_tx := Some (chan_pushes c [Reset]),
          output_tx := chan_pushes (output_tx m) (Resetting reason #
            reset_messages (reconnect_flow_status m = Cancelled) m' @ [Status (manager_status m)])\<rparr>)"
proof -
  let ?w = "await_ws_handler e (shut_down_ws (send_out (Resetting reason) m))"
  have init: "to_fsm_tx (initialize_manager_state e ?w) = Some c"
    "manager_status (initialize_manager_state e ?w) = manager_status m"
    using assms by (simp_all add: initialize_manager_state_eq check_network_def
        import_persisted_state_eq cleared_def Let_def)
  show ?thesis
    unfolding force_manager_reset_def Let_def send_to_fsm_eq [OF init(1) assms(2)]
    by (simp add: emit_manager_status_def init del: send_out_eq)
       (simp add: initialize_manager_state_eq Let_def)
qed

lemma initialize_frame:
  "manager_status (initialize_manager_state e m) = manager_status m"
  "ws_join_handle (initialize_manager_state e m) = ws_join_handle m"
  "command_rx (initialize_manager_state e m) = command_rx m"
  "to_fsm_tx (initialize_manager_state e m) = to_fsm_tx m"
  "is_manual_disconnect_requested (initialize_manager_state e m) = is_manual_disconnect_requested m"
  "\<not> is_connection_initialized (initialize_manager_state e m)"
  "reconnect_flow_status m = Inactive \<Longrightarrow>
    reconnect_flow_status (initialize_manager_state e m) = Inactive"
  by (simp_all add: initialize_manager_state_eq Let_def check_network_def import_persisted_state_eq
      cleared_def)

text \<open>The messages of the caller stay where they are.\<close>

lemma calls_kept [simp]:
  "command_rx (send_to_fsm x m) = command_rx m"
  "command_rx (check_network m) = command_rx m"
  "command_rx (shut_down_ws m) = command_rx m"
  "command_rx (set_reconnect_flow_status r m) = command_rx m"
  "command_rx (register_tv_ip e url m) = command_rx m"
  "command_rx (wake_last_seen_tv e m) = command_rx m"
  by (simp_all add: send_to_fsm_def enter_zombie_state_def set_manager_status_eq check_network_def
      shut_down_ws_eq set_reconnect_flow_status_eq register_tv_ip_def wake_last_seen_tv_def
      split: option.split sum.split)

lemma calls_kept_reset [simp]: "command_rx (force_manager_reset e reason m) = command_rx m"
  by (simp add: force_manager_reset_def Let_def emit_manager_status_def initialize_frame)

section \<open>The builder\<close>

text \<open>
  A manager built with a data directory knows of the last TV only what is on disk there: what the
  default directory held is forgotten. The channel handed out is the manager's own.
\<close>

theorem builder_data_dir:
  "builder_build (builder_with_data_dir e dir (builder_new e d rx)) =
    (let m = manager_new e d rx; r = read_persisted_state e d (Some dir);
         built = m\<lparr>data_dir := Some dir, ws_url := from_disk per_ws_url None r,
           client_key := from_disk per_client_key None r,
           mac_addr := from_disk (persisted_mac e) None r\<rparr>
     in (built, output_tx built))"
proof -
  have "disk (manager_new e d rx) = d" "output_tx (manager_new e d rx) = new_chan"
    by (simp_all add: manager_new_def import_persisted_state_eq Let_def)
  then show ?thesis
    by (simp add: builder_build_def builder_with_data_dir_def builder_new_def Let_def
        clear_persisted_state_on_manager_def import_persisted_state_eq)
qed

end
