(* ===== verification/Manager_Invariants.thy ===== *)
theory Manager_Invariants
  imports Manager_Facts
begin

text \<open>
  What every handler of the manager respects. Most of the manager's fields are its own; the six
  of \<open>core\<close> are what the other components depend on, and they change only in few ways: a message
  to the state machine, a request to the network checker, a new address for it, a message to the
  WebSocket handler, and the wait for that handler. The locale \<open>manager_relation\<close> says so for any
  relation: one that allows these is respected by all handlers but the one that starts a new
  WebSocket handler; \<open>manager_start_relation\<close> adds that one.
\<close>

definition core :: "Manager \<Rightarrow> ManagerStatus \<times> TvNetworkChecker \<times> SharedFlag \<times> Input chan option \<times>
    WsMessage chan option \<times> WsTask option" where
  "core m = (manager_status m, tv_on_network_checker m, is_tv_on_network m, to_fsm_tx m,
     to_ws_tx m, ws_join_handle m)"

lemma core_eq_iff:
  "core m' = core m \<longleftrightarrow> manager_status m' = manager_status m \<and>
     tv_on_network_checker m' = tv_on_network_checker m \<and>
     is_tv_on_network m' = is_tv_on_network m \<and> to_fsm_tx m' = to_fsm_tx m \<and>
     to_ws_tx m' = to_ws_tx m \<and> ws_join_handle m' = ws_join_handle m"
  by (simp add: core_def)

locale manager_relation =
  fixes e :: "'u ext" and R :: "Manager \<Rightarrow> Manager \<Rightarrow> bool"
  assumes trans: "R a b \<Longrightarrow> R b c \<Longrightarrow> R a c"
    and same_core: "core m' = core m \<Longrightarrow> R m m'"
    and fsm: "R m (send_to_fsm x m)"
    and check: "R m (check_network m)"
    and set_ip: "url_ip_addr e u = Some ip \<Longrightarrow>
      R m (m\<lparr>tv_on_network_checker := nc_set_tv_ip ip (tv_on_network_checker m)\<rparr>)"
    and push_ws: "to_ws_tx m = Some ch \<Longrightarrow> R m (m\<lparr>to_ws_tx := Some (chan_pushes ch [msg])\<rparr>)"
    and wait: "R m (await_ws_handler e m)"
begin

lemma via: "R a b \<Longrightarrow> core b' = core b \<Longrightarrow> R a b'"
  by (blast intro: trans same_core)

lemma after: "core a' = core a \<Longrightarrow> R a' b \<Longrightarrow> R a b"
  by (blast intro: trans same_core)

lemma out: "R m (send_out x m)"
  by (rule same_core) (simp add: core_eq_iff)

lemma flow: "R m (set_reconnect_flow_status r m)"
  by (rule same_core) (simp add: core_eq_iff set_reconnect_flow_status_eq)

lemma prepare: "R m (optionally_prepare_for_reconnect m)"
  by (auto simp: optionally_prepare_for_reconnect_def intro: flow same_core)

lemma fsm_error: "R m (attempt_fsm_error x m)"
  unfolding attempt_fsm_error_def by (rule trans [OF fsm out])

lemma initialize: "R m (initialize_manager_state e m)"
proof -
  let ?m = "import_persisted_state e (cleared m)"
  have "R m ?m"
    by (rule same_core) (simp add: core_eq_iff import_persisted_state_eq cleared_def Let_def)
  from trans [OF this check] show ?thesis
    by (rule via) (simp add: core_eq_iff initialize_manager_state_eq Let_def)
qed

lemma reset: "R m (force_manager_reset e reason m)"
proof -
  have "R m (shut_down_ws m)" for m
    by (cases "to_ws_tx m") (auto simp: shut_down_ws_eq core_eq_iff intro: push_ws same_core)
  from trans [OF out this] have "R m (await_ws_handler e (shut_down_ws (send_out (Resetting reason) m)))"
    by (rule trans [OF _ wait])
  from trans [OF trans [OF this initialize] fsm] show ?thesis
    unfolding force_manager_reset_def Let_def emit_manager_status_def by (rule trans [OF _ out])
qed

lemma to_ws: "R m (send_to_ws e msg m)"
  by (cases "to_ws_tx m") (auto simp: send_to_ws_def chan_send_pushes core_eq_iff intro: reset push_ws same_core)

lemma command: "R m (send_command e c m)"
  unfolding send_command_def Let_def
  by (auto simp: core_eq_iff generate_lgtv_message_id_def intro: after [OF _ to_ws])

lemma initialize_connection: "R m (initialize_connection e m)"
proof -
  have "R m (send_command e TvCommand.SubscribeGetPowerState (send_command e TvCommand.SubscribeGetVolume
      (send_command e TvCommand.GetSystemInfo (send_command e TvCommand.GetPowerState
      (send_command e TvCommand.GetExternalInputList (send_command e TvCommand.GetCurrentSWInfo m))))))"
    by (rule trans [OF _ command])+ (simp add: same_core)
  then show ?thesis
    unfolding initialize_connection_def Let_def
    by (rule via) (simp add: core_eq_iff split: option.split)
qed

lemma register_ip: "R m (register_tv_ip e url m)"
  by (auto simp: register_tv_ip_def intro: set_ip same_core split: option.splits)

lemma connect: "R m (snd (initiate_connect_to_tv e connection m))"
proof -
  define m0 where "m0 = (case cs_client_key (settings_of connection) of
      Some k \<Rightarrow> m\<lparr>client_key := Some k\<rparr> | None \<Rightarrow> m)"
  have m0: "R m m0"
    by (rule same_core) (simp add: m0_def core_eq_iff split: option.split)
  have "R m0 (snd (initiate_connect_to_tv e connection m))"
  proof (cases "websocket_url_for_connection e connection")
    case (Inl err)
    then show ?thesis
      by (auto simp: initiate_connect_to_tv_def m0_def [symmetric] Let_def intro: same_core
          split: option.split)
  next
    case (Inr url)
    let ?m = "register_tv_ip e url (m0\<lparr>connection_details := Some connection\<rparr>)"
    have "R m0 (send_to_fsm (Input.Connect url) (set_reconnect_flow_status
        (if is_initial_connect_retries_enabled ?m then Active else Inactive) ?m))"
      by (intro trans [OF _ fsm] trans [OF _ flow] after [OF _ register_ip]) (simp add: core_eq_iff)
    then have "R m0 (send_to_fsm (Input.Connect url) (set_reconnect_flow_status
        (if is_initial_connect_retries_enabled ?m then Active else Inactive) ?m)
          \<lparr>ws_url := u, mac_addr := a\<rparr>)" for u a
      by (rule via) (simp add: core_eq_iff)
    with Inr show ?thesis
      by (auto simp: initiate_connect_to_tv_def m0_def [symmetric] Let_def intro: same_core
          split: option.split)
  qed
  with m0 show ?thesis by (rule trans)
qed

lemma connect_reported: "R m (report_connect_error (initiate_connect_to_tv e connection m))"
proof -
  obtain r m' where r: "initiate_connect_to_tv e connection m = (r, m')" by fastforce
  with connect [of m connection] have "R m m'" by simp
  then show ?thesis
    by (auto simp: r report_connect_error_def core_eq_iff intro: via split: sum.splits)
qed

lemma register: "R m (send_register_payload e m)"
  unfolding send_register_payload_def Let_def
  by (auto simp: core_eq_iff split: prod.splits sum.splits
      intro: after [OF _ reset] after [OF _ to_ws])

lemma wait_fold_core: "core (fold (wait_feedback d url) clocks m) = core m"
proof (induction clocks arbitrary: m)
  case Nil
  then show ?case by simp
next
  case (Cons c cs)
  have "core (wait_feedback d url c m) = core m"
    by (simp add: wait_feedback_def core_eq_iff split: option.split)
  with Cons show ?case by simp
qed

lemma reconnect: "R m (initiate_reconnect e immediate m)"
proof -
  let ?m = "set_reconnect_flow_status Active m"
  have conn: "R m (report_connect_error (initiate_connect_to_tv e c
      (m'\<lparr>reconnect_attempts := n\<rparr>)))" if "core m' = core m" for c m' n
    using that by (intro after [OF _ connect_reported]) (simp add: core_eq_iff)
  have now: "core ?m = core m" by (simp add: core_eq_iff set_reconnect_flow_status_eq)
  have waited: "core (wait_to_reconnect e url ?m) = core m" for url
    by (simp add: wait_to_reconnect_def Let_def wait_fold_core)
       (simp add: core_eq_iff set_reconnect_flow_status_eq)
  show ?thesis
    unfolding initiate_reconnect_def Let_def
    by (auto split: option.split intro: conn [OF now] conn [OF waited] flow same_core
        trans [OF trans [OF flow flow] reset])
qed

lemma disconnected: "R m (handle_disconnected e m)"
proof -
  let ?m = "initialize_manager_state e (await_ws_handler e m)"
  have m: "R m ?m" by (rule trans [OF wait initialize])
  have "R ?m ((set_reconnect_flow_status Inactive ?m)\<lparr>is_pairing := False\<rparr>)"
    by (rule via [OF flow]) (simp add: core_eq_iff)
  with m show ?thesis
    unfolding handle_disconnected_def Let_def
    by (auto intro: trans [OF m reconnect] trans [OF m])
qed

lemma disconnect_tv: "R m (initiate_disconnect_from_tv e m)"
  by (auto simp: initiate_disconnect_from_tv_def intro: to_ws same_core)

lemma connect_error: "R m (handle_connect_error e m)"
proof -
  note r = reset [of m "''A WebSocket connection error occurred''"]
  show ?thesis
    unfolding handle_connect_error_def Let_def
    by (auto split: ReconnectFlowStatus.split intro: r trans [OF r reconnect] trans [OF r flow])
qed

lemma fsm_output_started: "(\<And>host. x \<noteq> ConnectToTv host) \<Longrightarrow> R m (handle_output e x m)"
proof (cases x)
  case SendRegisterPayload
  have "R m ((set_reconnect_flow_status Inactive m)\<lparr>session_connection_count := n\<rparr>)" for n
    by (rule via [OF flow]) (simp add: core_eq_iff)
  with SendRegisterPayload show ?thesis by (auto simp: Let_def intro: trans [OF _ register])
next
  case PairWithTv
  then show ?thesis by (auto intro: same_core simp: core_eq_iff)
next
  case InitializeConnection
  then show ?thesis by (auto intro: after [OF _ initialize_connection] simp: core_eq_iff)
next
  case DisconnectFromTv
  then show ?thesis by (auto intro: trans [OF prepare disconnect_tv])
next
  case HandleSuccessfulDisconnect
  then show ?thesis by (auto intro: after [OF _ disconnected] simp: core_eq_iff)
next
  case HandleDisconnectError
  then show ?thesis by (auto intro: after [OF _ disconnected] simp: core_eq_iff)
qed (auto intro: command connect_error)

text \<open>The messages of the caller.\<close>

lemma cancel: "R m (cancel_reconnect e m)"
  unfolding cancel_reconnect_def Let_def
  by (auto intro: flow same_core trans [OF flow reset])

lemma wake: "R m (wake_last_seen_tv e m)"
  by (auto simp: wake_last_seen_tv_def core_eq_iff intro: same_core split: option.split)

lemma manager_message: "R m (handle_manager_message e msg m)"
proof (cases msg)
  case ConnectLastGoodConnection
  then show ?thesis by (auto intro: connect_reported same_core split: option.split)
next
  case Disconnect
  then show ?thesis by (auto intro: after [OF _ fsm] simp: core_eq_iff)
next
  case Discover
  then show ?thesis by (auto intro: same_core simp: core_eq_iff discover_def)
next
  case EmitAllState
  then show ?thesis
    by (auto intro: same_core simp: core_eq_iff emit_all_tv_details_eq emit_manager_status_def)
next
  case TestConnection
  then show ?thesis by (auto intro: after [OF _ to_ws] same_core simp: core_eq_iff)
qed (auto intro: cancel connect_reported fsm check wake same_core)

text \<open>The messages of the WebSocket handler.\<close>

lemma lost: "R m (connection_lost msg m)"
  unfolding connection_lost_def by (rule trans [OF prepare fsm_error])

lemma complete: "R m (complete_initialization e m)"
proof -
  have "core (set_host_ip_from_ws_url e m') = core m'" for m'
    by (simp add: set_host_ip_from_ws_url_def core_eq_iff split: option.split)
  moreover have "R m ((send_to_fsm StartCommunication m)\<lparr>is_connection_initialized := True\<rparr>)"
    by (rule via [OF fsm]) (simp add: core_eq_iff)
  ultimately show ?thesis
    unfolding complete_initialization_def Let_def by (auto intro: via same_core)
qed

lemma payload: "R m (handle_payload e p m)"
  by (cases p)
     (auto simp: manager_defs core_eq_iff set_volume_state_def handle_pair_def
       intro: same_core fsm fsm_error via [OF complete])

lemma written: "R m (manager_write_persisted_state e m)"
  by (rule same_core)
     (simp add: manager_write_persisted_state_def manager_defs core_eq_iff
       split: prod.split sum.split)

lemma response: "R m (snd (handle_lgtv_response e r m))"
proof (cases "to_fsm_tx m = None")
  case True
  then show ?thesis by (auto simp: handle_lgtv_response_def intro: same_core)
next
  case False
  then obtain c where c: "to_fsm_tx m = Some c" by blast
  show ?thesis
  proof (cases r)
    case (Error er)
    have "R m (send_to_fsm Input.Error (send_out x m))" "R m (send_out x m)" for x
      by (rule trans [OF out fsm], rule out)
    with c Error show ?thesis by (auto simp: handle_lgtv_response_def Let_def simp del: send_out_eq)
  next
    case (Registered rr)
    have "R m (send_to_fsm Initialize (manager_write_persisted_state e (m\<lparr>client_key := k\<rparr>)))" for k
      by (rule after [OF _ trans [OF written fsm]]) (simp add: core_eq_iff)
    with c Registered show ?thesis by (simp add: handle_lgtv_response_def Let_def)
  next
    case (Command cr)
    with c Command payload show ?thesis by (simp add: handle_lgtv_response_def)
  qed
qed

lemma ws_status: "R m (handle_ws_status s m)"
  by (cases s) (auto intro: fsm lost same_core)

lemma ws_message: "R m (handle_ws_message e msg m)"
proof (cases msg)
  case (Status s)
  then show ?thesis by (simp add: ws_status)
next
  case (Payload p)
  then show ?thesis
    by (auto intro: response same_core simp: core_eq_iff split: option.split)
next
  case (IsConnectionOk ok)
  then show ?thesis
    by (auto simp: Let_def core_eq_iff intro: same_core after [OF _ fsm_error])
qed

text \<open>The notifications of the network checker.\<close>

lemma offline: "R m (tv_gone_offline m)"
  unfolding tv_gone_offline_def by (auto intro: flow fsm_error)

lemma optional: "R a (f a) \<Longrightarrow> R a (if c then f a else a)"
  by (auto intro: same_core)

lemma on_network: "R m (fst (handle_on_network_notify e was m))"
proof -
  define m1 where "m1 = emit_is_wake_tv_available (send_out
    (TvOnNetworkTestStatus (if load_is_tv_on_network m then Passed else Failed)) m)"
  define m2 where "m2 = (if was \<and> \<not> load_is_tv_on_network m then tv_gone_offline m1 else m1)"
  have "R m m1" by (rule same_core) (simp add: core_eq_iff manager_defs m1_def)
  moreover have "R m1 m2" unfolding m2_def by (rule optional) (rule offline)
  moreover have "R m2 (if c then initiate_reconnect e True m2 else m2)" for c
    by (rule optional) (rule reconnect)
  ultimately show ?thesis
    unfolding handle_on_network_notify_def Let_def fst_conv m1_def [symmetric] m2_def [symmetric]
    by (blast intro: trans)
qed

lemma testing: "R m (handle_testing_notify m)"
  by (rule same_core) (simp add: handle_testing_notify_def core_eq_iff)

end

locale manager_start_relation = manager_relation +
  assumes start_ws: "R m (start_websocket_handler_and_connect host m)"
begin

lemma fsm_output: "R m (handle_output e x m)"
proof (cases x)
  case (ConnectToTv host)
  then show ?thesis by (simp add: start_ws)
qed (auto intro: fsm_output_started simp del: handle_output.simps)

end

end
