(* ===== verification/Manager_System.thy ===== *)
theory Manager_System
  imports Manager_Invariants
begin

text \<open>
  What holds of the manager and its tasks in every reachable situation, whatever the caller, the
  TV, the network and the order of the turns: the manager's status follows the state machine,
  the channel to the machine never fails, and the network checker knows only addresses that were
  written as such in a URL.
\<close>

section \<open>Turns in a row\<close>

lemma run_turns_append:
  "run_turns e consume (ts @ us) s = Option.bind (run_turns e consume ts s) (run_turns e consume us)"
proof (induction ts arbitrary: s)
  case (Cons t ts)
  then show ?case by (cases "run_turn e consume t s") simp_all
qed simp

section \<open>The link to the state machine\<close>

text \<open>While the machine listens, a handler only appends inputs, and the status stays.\<close>

definition fsm_link :: "Manager \<Rightarrow> Manager \<Rightarrow> bool" where
  "fsm_link m m' \<longleftrightarrow> (\<forall>c. to_fsm_tx m = Some c \<and> rx_open c \<longrightarrow>
     manager_status m' = manager_status m \<and> (\<exists>xs. to_fsm_tx m' = Some (chan_pushes c xs)))"

lemma fsm_linkI:
  "(\<And>c. to_fsm_tx m = Some c \<Longrightarrow> rx_open c \<Longrightarrow>
      manager_status m' = manager_status m \<and> to_fsm_tx m' = Some (chan_pushes c xs)) \<Longrightarrow>
    fsm_link m m'"
  unfolding fsm_link_def by blast

interpretation linked: manager_start_relation e fsm_link
proof
  fix a b c :: Manager
  assume ab: "fsm_link a b" and bc: "fsm_link b c"
  show "fsm_link a c"
    unfolding fsm_link_def
  proof (intro allI impI)
    fix ch
    assume "to_fsm_tx a = Some ch \<and> rx_open ch"
    with ab obtain xs where b: "manager_status b = manager_status a"
      "to_fsm_tx b = Some (chan_pushes ch xs)" "rx_open ch" by (auto simp: fsm_link_def)
    with bc obtain ys where "manager_status c = manager_status b"
      "to_fsm_tx c = Some (chan_pushes (chan_pushes ch xs) ys)" by (auto simp: fsm_link_def)
    with b show "manager_status c = manager_status a \<and> (\<exists>zs. to_fsm_tx c = Some (chan_pushes ch zs))"
      by auto
  qed
next
  fix m m' :: Manager
  assume "core m' = core m"
  then show "fsm_link m m'"
    by (intro fsm_linkI [of _ _ "[]"]) (simp add: core_eq_iff)
next
  fix m x
  show "fsm_link m (send_to_fsm x m)"
    by (intro fsm_linkI [of _ _ "[x]"]) (simp add: send_to_fsm_eq)
next
  fix m
  show "fsm_link m (check_network m)"
    by (intro fsm_linkI [of _ _ "[]"]) (simp add: check_network_def)
next
  fix m ip
  show "fsm_link m (m\<lparr>tv_on_network_checker := nc_set_tv_ip ip (tv_on_network_checker m)\<rparr>)"
    by (intro fsm_linkI [of _ _ "[]"]) simp
next
  fix m c x
  show "fsm_link m (m\<lparr>to_ws_tx := Some (chan_pushes c [x])\<rparr>)"
    by (intro fsm_linkI [of _ _ "[]"]) simp
next
  fix m
  show "fsm_link m (await_ws_handler e m)"
    by (intro fsm_linkI [of _ _ "[]"]) simp
next
  fix m host
  show "fsm_link m (start_websocket_handler_and_connect host m)"
    by (intro fsm_linkI [of _ _ "[]"]) (simp add: start_websocket_handler_and_connect_def Let_def)
qed

section \<open>The status follows the machine\<close>

primrec reported_states :: "StateMachineUpdateMessage list \<Rightarrow> State list" where
  "reported_states [] = []"
| "reported_states (msg # msgs) =
     (case msg of StateMachineUpdateMessage.State s \<Rightarrow> [s] | _ \<Rightarrow> []) @ reported_states msgs"

lemma reported_states_append [simp]:
  "reported_states (xs @ ys) = reported_states xs @ reported_states ys"
  by (induction xs) simp_all

definition follows :: "ManagerStatus \<Rightarrow> FsmTask \<Rightarrow> bool" where
  "follows status t \<longleftrightarrow> last (status # reported_states (queue (fsm_tx t))) = fsm_state t \<and>
     list_all live (status # reported_states (queue (fsm_tx t)))"

definition run_inv :: "Run \<Rightarrow> bool" where
  "run_inv s \<longleftrightarrow> (run_looping s \<longrightarrow>
     \<not> run_cancelled s \<and> fsm_running (run_fsm s) \<and> rx_open (fsm_rx (run_fsm s)) \<and>
     rx_open (fsm_tx (run_fsm s)) \<and> to_fsm_tx (run_manager s) = Some (fsm_rx (run_fsm s)) \<and>
     follows (manager_status (run_manager s)) (run_fsm s))"

lemma run_inv_manager_step:
  assumes "run_inv s" "fsm_link (run_manager s) (f (run_manager s))"
  shows "run_inv (manager_step f s)"
proof (cases "run_looping s")
  case True
  with assms(1) have inv: "\<not> run_cancelled s" "fsm_running (run_fsm s)" "rx_open (fsm_rx (run_fsm s))"
    "rx_open (fsm_tx (run_fsm s))" "to_fsm_tx (run_manager s) = Some (fsm_rx (run_fsm s))"
    "follows (manager_status (run_manager s)) (run_fsm s)" by (simp_all add: run_inv_def)
  with assms(2) obtain xs where "manager_status (f (run_manager s)) = manager_status (run_manager s)"
    "to_fsm_tx (f (run_manager s)) = Some (chan_pushes (fsm_rx (run_fsm s)) xs)"
    by (auto simp: fsm_link_def)
  with inv show ?thesis by (simp add: run_inv_def manager_step_def Let_def follows_def)
next
  case False
  then show ?thesis by (simp add: run_inv_def manager_step_def Let_def)
qed

lemma run_inv_fields [simp]:
  "run_inv (s\<lparr>run_was_on_network := b\<rparr>) = run_inv s"
  by (simp add: run_inv_def)

lemma follows_status:
  assumes "follows status t" "chan_recv (fsm_tx t) = Some (StateMachineUpdateMessage.State x, rx)"
  shows "follows x (t\<lparr>fsm_tx := rx\<rparr>)"
  using assms by (auto simp: follows_def chan_recv_def split: list.splits)

lemma follows_other:
  assumes "follows status t" "chan_recv (fsm_tx t) = Some (msg, rx)"
    "\<And>x. msg \<noteq> StateMachineUpdateMessage.State x"
  shows "follows status (t\<lparr>fsm_tx := rx\<rparr>)"
  using assms by (cases msg) (auto simp: follows_def chan_recv_def split: list.splits)

lemma follows_report:
  assumes "rust_fsm transition fsm_output consume" "follows status t" "rx_open (fsm_tx t)"
  shows "follows status (fsm_handle consume t i)"
proof (cases "transition (fsm_state t) i")
  case None
  then show ?thesis using assms
    by (simp add: fsm_handle_open [OF assms(1,3)] follows_def fsm_report_def fsm_next_def)
next
  case (Some s')
  moreover from this have "live s'" using live_step by blast
  ultimately show ?thesis using assms
    by (auto simp: fsm_handle_open [OF assms(1,3)] follows_def fsm_report_def fsm_next_def
        split: option.splits)
qed

lemma run_inv_fsm_receives:
  assumes "rust_fsm transition fsm_output consume" "run_inv s"
  shows "run_inv (fsm_task_turn (fsm_recv consume) s)"
proof (cases "run_looping s")
  case True
  let ?t = "run_fsm s"
  from True assms(2) have inv: "\<not> run_cancelled s" "fsm_running ?t" "rx_open (fsm_rx ?t)"
    "rx_open (fsm_tx ?t)" "follows (manager_status (run_manager s)) ?t"
    by (simp_all add: run_inv_def)
  show ?thesis
  proof (cases "chan_recv (fsm_rx ?t)")
    case None
    with True inv show ?thesis by (simp add: run_inv_def fsm_task_turn_def fsm_recv_def Let_def)
  next
    case (Some r)
    then obtain i rx where r: "chan_recv (fsm_rx ?t) = Some (i, rx)" by (cases r) simp
    then have rx: "rx_open rx" using inv(3) by (auto simp: chan_recv_def split: list.splits)
    let ?t' = "?t\<lparr>fsm_rx := rx\<rparr>"
    have "follows (manager_status (run_manager s)) ?t'" "rx_open (fsm_tx ?t')"
      using inv by (simp_all add: follows_def)
    from follows_report [OF assms(1) this] have f: "follows (manager_status (run_manager s))
      (fsm_handle consume ?t' i)" .
    from fsm_handle_open [OF assms(1), of ?t' i] inv rx True f r show ?thesis
      by (simp add: run_inv_def fsm_task_turn_def fsm_recv_def Let_def)
  qed
next
  case False
  then show ?thesis by (simp add: run_inv_def fsm_task_turn_def Let_def)
qed

lemma run_inv_update:
  assumes "run_inv s" "chan_recv (fsm_tx (run_fsm s)) = Some (msg, rx)"
  shows "run_inv (manager_step (handle_state_machine_update e msg)
    (s\<lparr>run_fsm := (run_fsm s)\<lparr>fsm_tx := rx\<rparr>\<rparr>))"
proof (cases "run_looping s")
  case True
  let ?s = "s\<lparr>run_fsm := (run_fsm s)\<lparr>fsm_tx := rx\<rparr>\<rparr>"
  from True assms(1) have inv: "\<not> run_cancelled s" "fsm_running (run_fsm s)"
    "rx_open (fsm_rx (run_fsm s))" "rx_open (fsm_tx (run_fsm s))"
    "to_fsm_tx (run_manager s) = Some (fsm_rx (run_fsm s))"
    "follows (manager_status (run_manager s)) (run_fsm s)" by (simp_all add: run_inv_def)
  from assms(2) inv(4) have rx: "rx_open rx" by (auto simp: chan_recv_def split: list.splits)
  show ?thesis
  proof (cases msg)
    case (State x)
    with True inv rx assms(2) follows_status [OF inv(6)] show ?thesis
      by (auto simp: run_inv_def manager_step_def Let_def set_manager_status_eq)
  next
    case (Output x)
    have "run_inv ?s" using inv rx True follows_other [OF inv(6) assms(2)] Output
      by (simp add: run_inv_def)
    then show ?thesis using Output by (intro run_inv_manager_step) (simp_all add: linked.fsm_output)
  next
    case (TransitionError x)
    have "run_inv ?s" using inv rx True follows_other [OF inv(6) assms(2)] TransitionError
      by (simp add: run_inv_def)
    then show ?thesis using TransitionError linked.out
      by (intro run_inv_manager_step) (simp_all del: send_out_eq)
  qed
next
  case False
  then show ?thesis by (simp add: run_inv_def manager_step_def Let_def)
qed

lemma run_start_link: "fsm_link (m\<lparr>to_fsm_tx := Some new_chan\<rparr>) (run_start e client m)"
proof -
  have host: "core (set_host_ip_from_ws_url e m') = core m'" for m'
    by (simp add: set_host_ip_from_ws_url_def core_eq_iff split: option.split)
  have checker: "fsm_link m' (start_network_checker client m')" for m'
    by (intro fsm_linkI [of _ _ "[]"]) (simp add: start_network_checker_def split: sum.split)
  show ?thesis
    unfolding run_start_def Let_def emit_manager_status_def
    by (rule linked.trans [OF _ checker], rule linked.trans [OF _ linked.flow],
        rule linked.trans [OF _ linked.out], rule linked.via [OF linked.initialize host])
qed

lemma run_inv_initial: "run_inv (run_initial e client (manager_new e d rx))"
proof -
  have "manager_status (manager_new e d rx) = State.Disconnected"
    by (simp add: manager_new_def import_persisted_state_eq Let_def)
  with run_start_link [of "manager_new e d rx" e client]
  have "manager_status (run_start e client (manager_new e d rx)) = State.Disconnected"
    "\<exists>xs. to_fsm_tx (run_start e client (manager_new e d rx)) = Some (chan_pushes new_chan xs)"
    by (simp_all add: fsm_link_def)
  then show ?thesis
    by (auto simp: run_initial_def run_inv_def Let_def follows_def INITIAL_STATE_def live_def)
qed

lemma run_inv_not_looping: "\<not> run_looping s \<Longrightarrow> run_inv s"
  by (simp add: run_inv_def)

lemma run_inv_same_core:
  "run_inv s \<Longrightarrow> core (f (run_manager s)) = core (run_manager s) \<Longrightarrow> run_inv (manager_step f s)"
  by (rule run_inv_manager_step, assumption, rule linked.same_core)

lemma run_inv_take_notify:
  assumes "run_inv s" "take_notify permit clear s = Some s'"
  shows "run_inv s'"
proof -
  have "fsm_link m (m\<lparr>tv_on_network_checker := c\<rparr>)" for m c
    by (intro fsm_linkI [of _ _ "[]"]) simp
  with assms show ?thesis
    by (auto simp: take_notify_def split: if_splits intro!: run_inv_manager_step)
qed

text \<open>The turns of the manager; those of the tasks and of the caller.\<close>

lemma run_inv_manager_turn:
  assumes "run_inv s" "run_turn e consume t s = Some s'"
    "t \<in> {FromCaller, FromStateMachine, FromWebSocket, OnNetworkNotified, TestingNotified}"
  shows "run_inv s'"
proof -
  have caller: "run_inv (manager_step (\<lambda>m. m\<lparr>command_rx := rx\<rparr>) s)" for rx
    using assms(1) by (rule run_inv_same_core) (simp add: core_eq_iff)
  have ws: "run_inv (manager_step (\<lambda>m. handle_ws_message e msg (m\<lparr>from_ws_rx := Some rx\<rparr>)) s)"
    for msg rx
    using assms(1)
    by (rule run_inv_manager_step) (rule linked.after [OF _ linked.ws_message], simp add: core_eq_iff)
  from assms(3) consider "t = FromCaller" | "t = FromStateMachine" | "t = FromWebSocket"
    | "t = OnNetworkNotified" | "t = TestingNotified" by blast
  then show ?thesis
  proof cases
    case 1
    with assms(2) show ?thesis
      by (auto simp: Let_def begin_shut_down_def run_inv_not_looping split: if_splits option.splits
          intro!: run_inv_manager_step [OF caller] linked.manager_message)
  next
    case 2
    with assms(1,2) show ?thesis
      by (auto split: if_splits option.splits intro: run_inv_update)
  next
    case 3
    with assms(1,2) ws show ?thesis
      by (auto split: if_splits option.splits)
  next
    case 4
    with assms(2) obtain s1 where s1: "take_notify
        (nc_on_network_notify (tv_on_network_checker (run_manager s)))
        (\<lambda>c. c\<lparr>nc_on_network_notify := False\<rparr>) s = Some s1"
      and s': "s' = (manager_step (\<lambda>m. fst (handle_on_network_notify e (run_was_on_network s1) m)) s1)
        \<lparr>run_was_on_network := snd (handle_on_network_notify e (run_was_on_network s1) (run_manager s1))\<rparr>"
      by (auto simp: Let_def split: option.splits)
    from run_inv_take_notify [OF assms(1) s1] show ?thesis
      unfolding s' run_inv_fields by (rule run_inv_manager_step) (rule linked.on_network)
  next
    case 5
    with assms(2) obtain s1 where s1: "take_notify
        (nc_pinging_notify (tv_on_network_checker (run_manager s)))
        (\<lambda>c. c\<lparr>nc_pinging_notify := False\<rparr>) s = Some s1"
      and s': "s' = manager_step handle_testing_notify s1"
      by (auto split: option.splits)
    from run_inv_take_notify [OF assms(1) s1] show ?thesis
      unfolding s' by (rule run_inv_manager_step) (rule linked.testing)
  qed
qed

lemma ws_turn_frame:
  "manager_status (ws_turn e ev m) = manager_status m"
  "tv_on_network_checker (ws_turn e ev m) = tv_on_network_checker m"
  "is_tv_on_network (ws_turn e ev m) = is_tv_on_network m"
  "to_fsm_tx (ws_turn e ev m) = to_fsm_tx m"
  by (simp_all add: ws_turn_def Let_def split: option.split)

text \<open>
  The turns of the discovery tasks and of the caller touch nothing the other components depend on.
\<close>

definition quiet_turn :: "turn \<Rightarrow> bool" where
  "quiet_turn t \<longleftrightarrow> (case t of
       DiscoveryBegins \<Rightarrow> True | DiscoveryReports _ \<Rightarrow> True | DiscoveryEnds \<Rightarrow> True
     | CallerSends _ \<Rightarrow> True | CallerReceives \<Rightarrow> True | CallerCloses \<Rightarrow> True | _ \<Rightarrow> False)"

lemma quiet_turnE:
  assumes "run_turn e consume t s = Some s'" "quiet_turn t"
  obtains f where "s' = manager_step f s" "\<And>m. core (f m) = core m"
proof (cases t)
  case DiscoveryBegins
  with assms(1) that [of discovery_begins] show ?thesis
    by (simp add: core_eq_iff discovery_begins_def split: if_splits)
next
  case (DiscoveryReports found)
  with assms(1) that [of "discovery_reports found"] show ?thesis
    by (simp add: core_eq_iff discovery_reports_def split: if_splits)
next
  case DiscoveryEnds
  with assms(1) that [of discovery_ends] show ?thesis
    by (simp add: core_eq_iff discovery_ends_def split: if_splits)
next
  case (CallerSends msg)
  with assms(1) that show ?thesis by (auto simp: core_eq_iff split: sum.splits)
next
  case CallerReceives
  with assms(1) that show ?thesis by (auto simp: core_eq_iff split: option.splits)
next
  case CallerCloses
  with assms(1) that [of "\<lambda>m. m\<lparr>output_tx := chan_close (output_tx m)\<rparr>"] show ?thesis
    by (simp add: core_eq_iff)
qed (use assms(2) in \<open>simp_all add: quiet_turn_def\<close>)

lemma run_inv_other_turn:
  assumes "rust_fsm transition fsm_output consume" "run_inv s" "run_turn e consume t s = Some s'"
    "t \<notin> {FromCaller, FromStateMachine, FromWebSocket, OnNetworkNotified, TestingNotified}"
  shows "run_inv s'"
proof -
  have quiet: ?thesis if "quiet_turn t"
    using assms(3) that run_inv_same_core [OF assms(2)] by (blast elim: quiet_turnE)
  have checker: "run_inv (manager_step (\<lambda>m. m\<lparr>tv_on_network_checker := c m\<rparr>) s)" for c
    using assms(2) by (rule run_inv_manager_step) (intro fsm_linkI [of _ _ "[]"], simp)
  have cancelled: "\<not> run_looping s" if "run_cancelled s"
    using that assms(2) by (auto simp: run_inv_def)
  show ?thesis
  proof (cases t)
    case ShutDownEnds
    with assms(3) have "run_looping s' = run_looping s"
      by (auto simp: end_shut_down_def manager_step_def Let_def split: if_splits)
    with ShutDownEnds assms(2,3) show ?thesis
      by (cases "run_looping s") (auto simp: run_inv_not_looping run_inv_def split: if_splits)
  next
    case FsmReceives
    with assms(2,3) show ?thesis
      by (auto split: if_splits intro: run_inv_fsm_receives [OF assms(1)])
  next
    case FsmCancelled
    with assms(3) cancelled have "\<not> run_looping s'"
      by (auto simp: fsm_task_turn_def Let_def split: if_splits)
    then show ?thesis by (simp add: run_inv_def)
  next
    case (WsTurn ev)
    have "run_inv (manager_step (ws_turn e ev) s)"
      using assms(2) by (rule run_inv_manager_step) (intro fsm_linkI [of _ _ "[]"], simp add: ws_turn_frame)
    with WsTurn assms(3) show ?thesis by simp
  next
    case (CheckerTurn ev)
    with assms(3) checker show ?thesis by auto
  qed (use assms(4) quiet in \<open>auto simp: quiet_turn_def\<close>)
qed

lemma reachable_run_inv:
  assumes "rust_fsm transition fsm_output consume" "reachable e consume s"
  shows "run_inv s"
  using assms(2)
proof (induction rule: reachable.induct)
  case (init client d rx)
  show ?case by (rule run_inv_initial)
next
  case (turn s t s')
  then show ?case
    using run_inv_manager_turn run_inv_other_turn [OF assms(1)] by blast
qed


abbreviation demo_run :: Run where
  "demo_run \<equiv> run_initial demo_ext (Inr ()) (manager_new demo_ext demo_disk new_chan)"

lemma demo_run_looping: "run_looping demo_run"
  by (simp add: run_initial_def Let_def)


text \<open>C6: While the manager runs, its channel to the state machine works: the machine's task is
  alive and both channels have their receivers, so no message to the machine is ever refused and
  the fatal branch of \<open>send_to_fsm\<close> is not taken.\<close>

theorem fsm_channel_never_fails:
  assumes "rust_fsm transition fsm_output consume" "reachable e consume s" "run_looping s"
  shows "fsm_running (run_fsm s) \<and> rx_open (fsm_tx (run_fsm s)) \<and>
    send_to_fsm x (run_manager s) = (run_manager s)
      \<lparr>to_fsm_tx := Some ((fsm_rx (run_fsm s))\<lparr>queue := queue (fsm_rx (run_fsm s)) @ [x]\<rparr>)\<rparr>"
  using reachable_run_inv [OF assms(1,2)] assms(3)
  by (auto simp: run_inv_def send_to_fsm_eq chan_pushes_def)

theorem fsm_channel_never_fails_witness:
  "fsm_running (run_fsm demo_run) \<and>
   send_to_fsm Reset (run_manager demo_run) = (run_manager demo_run)
     \<lparr>to_fsm_tx := Some ((fsm_rx (run_fsm demo_run))\<lparr>queue := queue (fsm_rx (run_fsm demo_run)) @ [Reset]\<rparr>)\<rparr>"
  using fsm_channel_never_fails [OF lgtv_fsm.rust_fsm_axioms reachable.init demo_run_looping, of Reset]
  by blast

section \<open>The network checker and host names\<close>

text \<open>The addresses that some URL spells out.\<close>

definition literal_ips :: "'u ext \<Rightarrow> IpAddr set" where
  "literal_ips e = {ip. \<exists>u. url_ip_addr e u = Some ip}"

text \<open>A handler makes no address up, and leaves the manager's flag of the network alone.\<close>

definition net_link :: "'u ext \<Rightarrow> Manager \<Rightarrow> Manager \<Rightarrow> bool" where
  "net_link e m m' \<longleftrightarrow> is_tv_on_network m' = is_tv_on_network m \<and>
     (nc_ips (literal_ips e) (tv_on_network_checker m) \<longrightarrow>
      nc_ips (literal_ips e) (tv_on_network_checker m'))"

interpretation net: manager_start_relation e "net_link e"
proof
  fix a b c
  show "net_link e a b \<Longrightarrow> net_link e b c \<Longrightarrow> net_link e a c" by (auto simp: net_link_def)
next
  fix m m'
  show "core m' = core m \<Longrightarrow> net_link e m m'" by (simp add: net_link_def core_eq_iff)
next
  fix m x
  show "net_link e m (send_to_fsm x m)"
    by (simp add: net_link_def send_to_fsm_def enter_zombie_state_def set_manager_status_eq
        split: option.split sum.split)
next
  fix m
  show "net_link e m (check_network m)"
    using nc_io_step_ips [of "literal_ips e" "tv_on_network_checker m" CheckNow]
    by (simp add: net_link_def check_network_def)
next
  fix m u ip
  assume "url_ip_addr e u = Some ip"
  then have "literal_ips e \<union> {ip} = literal_ips e" by (auto simp: literal_ips_def)
  then show "net_link e m (m\<lparr>tv_on_network_checker := nc_set_tv_ip ip (tv_on_network_checker m)\<rparr>)"
    using nc_io_step_ips [of "literal_ips e" "tv_on_network_checker m" "SetIp ip"]
    by (simp add: net_link_def)
next
  fix m c x
  show "net_link e m (m\<lparr>to_ws_tx := Some (chan_pushes c [x])\<rparr>)" by (simp add: net_link_def)
next
  fix m
  show "net_link e m (await_ws_handler e m)" by (simp add: net_link_def)
next
  fix m host
  show "net_link e m (start_websocket_handler_and_connect host m)"
    by (simp add: net_link_def start_websocket_handler_and_connect_def Let_def)
qed

definition net_inv :: "'u ext \<Rightarrow> Manager \<Rightarrow> bool" where
  "net_inv e m \<longleftrightarrow> is_tv_on_network m \<in> {OwnFlag False, CheckerFlag} \<and>
     nc_ips (literal_ips e) (tv_on_network_checker m)"

lemma net_link_inv: "net_link e m m' \<Longrightarrow> net_inv e m \<Longrightarrow> net_inv e m'"
  by (auto simp: net_link_def net_inv_def)

lemma net_inv_start: "net_inv e (run_start e client (manager_new e d rx))"
proof -
  let ?m = "manager_new e d rx"
  have new: "net_inv e (?m\<lparr>to_fsm_tx := Some new_chan\<rparr>)"
    by (simp add: net_inv_def manager_new_def import_persisted_state_eq Let_def nc_ips_def nc_new_def)
  have host: "core (set_host_ip_from_ws_url e m') = core m'" for m'
    by (simp add: set_host_ip_from_ws_url_def core_eq_iff split: option.split)
  have checker: "net_inv e m' \<Longrightarrow> net_inv e (start_network_checker client m')" for m'
    by (auto simp: start_network_checker_def net_inv_def nc_start_def nc_ips_def split: sum.splits)
  show ?thesis
    unfolding run_start_def Let_def emit_manager_status_def
    by (rule checker, rule net_link_inv [OF _ new], rule net.trans [OF _ net.flow],
        rule net.trans [OF _ net.out], rule net.via [OF net.initialize host])
qed

lemma net_inv_fields [simp]:
  "net_inv e (m\<lparr>command_rx := a\<rparr>) = net_inv e m" "net_inv e (m\<lparr>output_tx := b\<rparr>) = net_inv e m"
  "net_inv e (m\<lparr>from_ws_rx := f\<rparr>) = net_inv e m" "net_inv e (m\<lparr>to_fsm_tx := g\<rparr>) = net_inv e m"
  by (simp_all add: net_inv_def)

lemma net_inv_clear:
  "net_inv e (m\<lparr>tv_on_network_checker := (tv_on_network_checker m)\<lparr>nc_on_network_notify := a\<rparr>\<rparr>) =
     net_inv e m"
  "net_inv e (m\<lparr>tv_on_network_checker := (tv_on_network_checker m)\<lparr>nc_pinging_notify := a\<rparr>\<rparr>) =
     net_inv e m"
  by (simp_all add: net_inv_def nc_ips_def)

lemma run_manager_step [simp]: "run_manager (manager_step f s) = f (run_manager s)"
  by (simp add: manager_step_def Let_def)

lemma run_manager_task_turn [simp]:
  "run_manager (fsm_task_turn f s) = (run_manager s)\<lparr>to_fsm_tx := Some (fsm_rx (f (run_fsm s)))\<rparr>"
  by (simp add: fsm_task_turn_def Let_def)

lemma net_inv_turn:
  assumes "net_inv e (run_manager s)" "run_turn e consume t s = Some s'"
  shows "net_inv e (run_manager s')"
proof -
  note keep = net_link_inv [OF _ assms(1)]
  have keep': "net_link e m m' \<Longrightarrow> net_inv e m \<Longrightarrow> net_inv e m'" for m m' by (rule net_link_inv)
  have quiet: ?thesis if "quiet_turn t"
    using assms(2) that by (rule quiet_turnE) (auto intro: keep net.same_core)
  show ?thesis
  proof (cases t)
    case FromCaller
    with assms show ?thesis
      by (auto simp: Let_def begin_shut_down_def split: if_splits option.splits
          intro!: keep' [OF net.manager_message])
  next
    case ShutDownEnds
    with assms show ?thesis
      by (auto simp: end_shut_down_def Let_def split: if_splits intro!: keep' [OF net.disconnect_tv])
  next
    case FromStateMachine
    have status: "net_inv e (set_manager_status x m) = net_inv e m" for x m
      by (simp add: net_inv_def set_manager_status_eq)
    have "net_inv e (handle_state_machine_update e msg (run_manager s))" for msg
      using assms(1) by (cases msg) (auto simp: status intro: keep [OF net.fsm_output])
    with FromStateMachine assms show ?thesis by (auto split: if_splits option.splits)
  next
    case FromWebSocket
    with assms show ?thesis
      by (auto split: if_splits option.splits intro!: keep' [OF net.ws_message])
  next
    case OnNetworkNotified
    with assms show ?thesis
      by (auto simp: take_notify_def Let_def net_inv_clear split: option.splits if_splits
          intro!: keep' [OF net.on_network])
  next
    case TestingNotified
    with assms show ?thesis
      by (auto simp: take_notify_def net_inv_clear split: option.splits if_splits
          intro!: keep' [OF net.testing])
  next
    case (WsTurn ev)
    with assms show ?thesis by (auto simp: net_inv_def ws_turn_frame)
  next
    case (CheckerTurn ev)
    with assms nc_io_step_ips [of "literal_ips e" "tv_on_network_checker (run_manager s)" "Task ev"]
    show ?thesis by (auto simp: net_inv_def)
  qed (use assms quiet in \<open>auto simp: quiet_turn_def split: if_splits\<close>)
qed

lemma reachable_net_inv: "reachable e consume s \<Longrightarrow> net_inv e (run_manager s)"
  by (induction rule: reachable.induct)
     (simp_all add: run_initial_def Let_def net_inv_start net_inv_turn)


definition names_ext :: "demo_url ext" where
  "names_ext = demo_ext\<lparr>url_host := \<lambda>u. Some (Domain (fst (snd u)))\<rparr>"

lemma names_ext_ips: "literal_ips names_ext = {}"
  by (auto simp: literal_ips_def url_ip_addr_def names_ext_def split: sum.splits)


end
