(* ===== verification/Manager_Properties.thy ===== *)
theory Manager_Properties
  imports Manager_Facts
begin

text \<open>
  What the handlers of the manager do: connecting, the resets, the responses of the TV, and the
  flow of reconnects after an error.
\<close>

section \<open>Connecting\<close>

text \<open>\<open>link m c\<close>: the manager's channel to the state machine is \<open>c\<close>, and has its receiver.\<close>

definition link :: "Manager \<Rightarrow> Input chan \<Rightarrow> bool" where
  "link m c \<longleftrightarrow> to_fsm_tx m = Some c \<and> rx_open c"

definition registered_ip :: "'u ext \<Rightarrow> string \<Rightarrow> TvNetworkChecker \<Rightarrow> TvNetworkChecker" where
  "registered_ip e url c = (case url_ip_addr e url of
       Some ip \<Rightarrow> if nc_tv_ip c = Some ip then c else nc_set_tv_ip ip c
     | None \<Rightarrow> c)"

lemma register_tv_ip_eq:
  "register_tv_ip e url m = m\<lparr>tv_on_network_checker := registered_ip e url (tv_on_network_checker m)\<rparr>"
  by (auto simp: register_tv_ip_def registered_ip_def nc_get_tv_ip_def split: option.split)

definition with_key :: "Connection \<Rightarrow> string option \<Rightarrow> string option" where
  "with_key connection old = (case cs_client_key (settings_of connection) of
       Some k \<Rightarrow> Some k | None \<Rightarrow> old)"

lemma with_key_eq:
  "(case cs_client_key (settings_of connection) of
      Some k \<Rightarrow> m\<lparr>client_key := Some k\<rparr> | None \<Rightarrow> m) = m\<lparr>client_key := with_key connection (client_key m)\<rparr>"
  by (simp add: with_key_def split: option.split)

lemma mac_addr_for_update [simp]:
  "mac_addr_for e connection url (m\<lparr>client_key := a, connection_details := b, tv_on_network_checker := c,
     reconnect_attempts := d, reconnect_flow_status := f, output_tx := g, to_fsm_tx := h,
     ws_url := i\<rparr>) = mac_addr_for e connection url m"
  by (simp add: mac_addr_for_def cong: Connection.case_cong)

text \<open>The flow status a connection starts with.\<close>

definition initial_flow :: "Connection \<Rightarrow> ReconnectFlowStatus" where
  "initial_flow connection =
     (if cs_initial_connect_retries (settings_of connection) then Active else Inactive)"

lemma connect_eq:
  assumes "link m c" "manager_status m = State.Disconnected"
    "websocket_url_for_connection e connection = Inr url"
  shows "initiate_connect_to_tv e connection m =
    (Inr (), m\<lparr>client_key := with_key connection (client_key m),
      connection_details := Some connection,
      tv_on_network_checker := registered_ip e url (tv_on_network_checker m),
      reconnect_attempts := (if reconnect_flow_status m = Active then reconnect_attempts m else 0),
      reconnect_flow_status := initial_flow connection,
      output_tx := chan_pushes (output_tx m) [ReconnectFlowStatus (initial_flow connection)],
      to_fsm_tx := Some (chan_pushes c [Input.Connect url]), ws_url := Some url,
      mac_addr := mac_addr_for e connection url m\<rparr>)"
  using assms
  by (simp add: link_def initiate_connect_to_tv_def with_key_eq register_tv_ip_eq Let_def
      set_reconnect_flow_status_eq is_initial_connect_retries_enabled_def initial_flow_def
      send_to_fsm_eq)

lemma connect_refused:
  assumes "link m c" "manager_status m \<noteq> State.Disconnected \<or>
    (\<forall>url. websocket_url_for_connection e connection \<noteq> Inr url)"
  shows "\<exists>err. initiate_connect_to_tv e connection m =
    (Inl err, m\<lparr>client_key := with_key connection (client_key m)\<rparr>)"
proof (cases "manager_status m = State.Disconnected")
  case True
  with assms(2) obtain err where "websocket_url_for_connection e connection = Inl err"
    by (cases "websocket_url_for_connection e connection") auto
  with True assms(1) show ?thesis
    by (simp add: link_def initiate_connect_to_tv_def with_key_eq Let_def)
next
  case False
  then show ?thesis by (simp add: initiate_connect_to_tv_def with_key_eq Let_def)
qed

text \<open>C19: A request to connect is accepted exactly when the manager is disconnected and the
  connection has a WebSocket URL. Then the state machine gets one \<open>Connect\<close> with that URL, the
  connection is remembered, the retries flow starts or not as its settings say, and an address
  in the URL becomes the one the network checker watches. Otherwise the caller gets the error, and
  nothing else changes, except that a client key in the settings of the refused connection has
  already replaced the manager's.\<close>

theorem connect_request:
  assumes "to_fsm_tx m = Some c" "rx_open c"
  shows "let (r, m') = initiate_connect_to_tv e connection m
    in (r = Inr () \<longleftrightarrow> manager_status m = State.Disconnected \<and>
          (\<exists>url. websocket_url_for_connection e connection = Inr url)) \<and>
       (if r = Inr () then
          (\<exists>url. websocket_url_for_connection e connection = Inr url \<and> ws_url m' = Some url \<and>
             to_fsm_tx m' = Some (c\<lparr>queue := queue c @ [Input.Connect url]\<rparr>) \<and>
             (url_ip_addr e url = None \<or>
              nc_get_tv_ip (tv_on_network_checker m') = url_ip_addr e url)) \<and>
          connection_details m' = Some connection \<and> manager_status m' = State.Disconnected \<and>
          reconnect_flow_status m' =
            (if cs_initial_connect_retries (settings_of connection) then Active else Inactive)
        else m' = m\<lparr>client_key := (case cs_client_key (settings_of connection) of
                                     Some k \<Rightarrow> Some k | None \<Rightarrow> client_key m)\<rparr>)"
proof -
  from assms have l: "link m c" by (simp add: link_def)
  show ?thesis
  proof (cases "manager_status m = State.Disconnected \<and>
      (\<exists>url. websocket_url_for_connection e connection = Inr url)")
    case True
    then obtain url where s: "manager_status m = State.Disconnected"
      and u: "websocket_url_for_connection e connection = Inr url" by blast
    show ?thesis
      using assms u s
      by (auto simp: connect_eq [OF l s u] initial_flow_def chan_pushes_def registered_ip_def
          nc_get_tv_ip_def nc_set_tv_ip_def nc_check_now_def split: option.splits)
  next
    case False
    then obtain err where "initiate_connect_to_tv e connection m =
        (Inl err, m\<lparr>client_key := with_key connection (client_key m)\<rparr>)"
      using connect_refused [OF l, of e connection] by blast
    with False show ?thesis by (auto simp: with_key_def)
  qed
qed

text \<open>A manager that has just been made and linked to its state machine.\<close>

definition demo_manager :: Manager where
  "demo_manager = (manager_new demo_ext demo_disk new_chan)\<lparr>to_fsm_tx := Some new_chan\<rparr>"

lemma demo_no_file: "read_persisted_state demo_ext demo_disk None =
    Inl ''Could not read persisted state: Os { code: 2, kind: NotFound }''"
  by (simp add: read_persisted_state_def get_data_file_def demo_disk_def file_open_def)

lemma demo_manager_simps [simp]:
  "to_fsm_tx demo_manager = Some new_chan" "manager_status demo_manager = State.Disconnected"
  "disk demo_manager = demo_disk" "data_dir demo_manager = None" "ws_url demo_manager = None"
  "client_key demo_manager = None" "mac_addr demo_manager = None"
  "connection_details demo_manager = None" "output_tx demo_manager = new_chan"
  "reconnect_flow_status demo_manager = Inactive" "reconnect_attempts demo_manager = 0"
  "tv_on_network_checker demo_manager = nc_new" "is_tv_on_network demo_manager = OwnFlag False"
  "to_ws_tx demo_manager = None" "ws_join_handle demo_manager = None" "from_ws_rx demo_manager = None"
  "is_manual_disconnect_requested demo_manager = False" "session_connection_count demo_manager = 0"
  "uuid_count demo_manager = 0" "is_connection_initialized demo_manager = False"
  "is_pairing demo_manager = False" "tv_state demo_manager = tv_state_default"
  by (simp_all add: demo_manager_def manager_new_def import_persisted_state_eq Let_def demo_no_file)

lemma demo_link: "link demo_manager new_chan"
  by (simp add: link_def)

definition demo_connection :: "bool \<Rightarrow> bool \<Rightarrow> Connection" where
  "demo_connection initial auto = Host ''tv''
     \<lparr>cs_is_tls = True, cs_client_key = None, cs_force_pairing = False,
      cs_initial_connect_retries = initial, cs_auto_reconnect = auto\<rparr>"

lemma demo_connection_simps [simp]:
  "settings_of (demo_connection initial auto) =
     \<lparr>cs_is_tls = True, cs_client_key = None, cs_force_pairing = False,
      cs_initial_connect_retries = initial, cs_auto_reconnect = auto\<rparr>"
  by (simp add: demo_connection_def)

lemma demo_connection_url:
  "websocket_url_for_connection demo_ext (demo_connection initial auto) = Inr ''wss://tv:3001/''"
  by (simp add: websocket_url_for_connection_def demo_connection_def generate_possible_websocket_url_def
      add_scheme_def with_port_def demo_ext_def demo_parse_def demo_urls_def demo_set_port_def
      demo_to_string_def show_port)

theorem connect_request_witness:
  "to_fsm_tx (snd (initiate_connect_to_tv demo_ext (demo_connection True True) demo_manager)) =
     Some \<lparr>queue = [Input.Connect ''wss://tv:3001/''], rx_open = True\<rparr>"
proof -
  have "\<exists>url. websocket_url_for_connection demo_ext (demo_connection True True) = Inr url"
    using demo_connection_url by blast
  with connect_request [of demo_manager new_chan demo_ext "demo_connection True True"]
  show ?thesis by (auto simp: demo_connection_url new_chan_def split: prod.splits)
qed

section \<open>Resets\<close>

lemma reset_fields:
  assumes "link m c"
  shows "to_fsm_tx (force_manager_reset e reason m) = Some (chan_pushes c [Reset])"
    and "manager_status (force_manager_reset e reason m) = manager_status m"
    and "is_tv_on_network (force_manager_reset e reason m) = is_tv_on_network m"
    and "tv_on_network_checker (force_manager_reset e reason m) = nc_check_now (tv_on_network_checker m)"
    and "reconnect_flow_status (force_manager_reset e reason m) =
      (if in_reconnect_flow m then reconnect_flow_status m else Inactive)"
    and "connection_details (force_manager_reset e reason m) =
      (if in_reconnect_flow m then connection_details m else None)"
    and "session_connection_count (force_manager_reset e reason m) =
      (if in_reconnect_flow m then session_connection_count m else 0)"
    and "in_reconnect_flow m \<Longrightarrow>
      reconnect_attempts (force_manager_reset e reason m) = reconnect_attempts m \<and>
      is_pairing (force_manager_reset e reason m) = is_pairing m \<and>
      is_manual_disconnect_requested (force_manager_reset e reason m) = is_manual_disconnect_requested m"
    and "in_reconnect_flow m \<Longrightarrow> ws_url (force_manager_reset e reason m) =
      from_disk per_ws_url (ws_url m) (read_persisted_state e (disk m) (data_dir m))"
proof -
  let ?w = "await_ws_handler e (shut_down_ws (m\<lparr>output_tx := chan_pushes (output_tx m) [Resetting reason]\<rparr>))"
  have flow: "in_reconnect_flow ?w = in_reconnect_flow m" by (simp add: in_reconnect_flow_def)
  have c: "to_fsm_tx m = Some c" "rx_open c" using assms by (simp_all add: link_def)
  note eq = force_manager_reset_eq [OF c, of e reason, unfolded Let_def]
  show "to_fsm_tx (force_manager_reset e reason m) = Some (chan_pushes c [Reset])"
    "manager_status (force_manager_reset e reason m) = manager_status m"
    "is_tv_on_network (force_manager_reset e reason m) = is_tv_on_network m"
    "tv_on_network_checker (force_manager_reset e reason m) = nc_check_now (tv_on_network_checker m)"
    "reconnect_flow_status (force_manager_reset e reason m) =
      (if in_reconnect_flow m then reconnect_flow_status m else Inactive)"
    "connection_details (force_manager_reset e reason m) =
      (if in_reconnect_flow m then connection_details m else None)"
    "session_connection_count (force_manager_reset e reason m) =
      (if in_reconnect_flow m then session_connection_count m else 0)"
    "in_reconnect_flow m \<Longrightarrow>
      reconnect_attempts (force_manager_reset e reason m) = reconnect_attempts m \<and>
      is_pairing (force_manager_reset e reason m) = is_pairing m \<and>
      is_manual_disconnect_requested (force_manager_reset e reason m) = is_manual_disconnect_requested m"
    "in_reconnect_flow m \<Longrightarrow> ws_url (force_manager_reset e reason m) =
      from_disk per_ws_url (ws_url m) (read_persisted_state e (disk m) (data_dir m))"
    using flow unfolding eq
    by (simp_all add: cleared_def Let_def import_persisted_state_eq check_network_def shut_down_ws_eq)
qed

text \<open>C20: A reset tells the state machine to reset, waits for the WebSocket handler to end, forgets
  everything about the TV, and tells the caller, first that it resets and last the status it
  keeps. In a reconnect flow the connection, the flow and its counts survive; outside one they
  are cleared, and a cancelled flow is over.\<close>

theorem reset_effect:
  assumes "to_fsm_tx m = Some c" "rx_open c" "rx_open (output_tx m)"
  shows "let m' = force_manager_reset e reason m
    in to_fsm_tx m' = Some (c\<lparr>queue := queue c @ [Reset]\<rparr>) \<and>
       manager_status m' = manager_status m \<and> ws_join_handle m' = None \<and>
       tv_info m' = None \<and> tv_inputs m' = None \<and> tv_software_info m' = None \<and>
       tv_state m' = tv_state_default \<and> \<not> is_connection_initialized m' \<and>
       last_good_connection m' = last_good_connection m \<and>
       (if in_reconnect_flow m then
          connection_details m' = connection_details m \<and>
          reconnect_flow_status m' = reconnect_flow_status m \<and>
          reconnect_attempts m' = reconnect_attempts m \<and>
          session_connection_count m' = session_connection_count m \<and> is_pairing m' = is_pairing m
        else
          connection_details m' = None \<and> reconnect_flow_status m' = Inactive \<and>
          session_connection_count m' = 0 \<and> \<not> is_pairing m') \<and>
       (\<exists>msgs. queue (output_tx m') =
          queue (output_tx m) @ Resetting reason # msgs @ [Status (manager_status m)])"
proof -
  let ?w = "await_ws_handler e (shut_down_ws (m\<lparr>output_tx := chan_pushes (output_tx m) [Resetting reason]\<rparr>))"
  have flow: "in_reconnect_flow ?w = in_reconnect_flow m" by (simp add: in_reconnect_flow_def)
  show ?thesis
    using assms flow
    unfolding force_manager_reset_eq [OF assms(1,2)] Let_def
    by (simp add: cleared_def Let_def import_persisted_state_eq check_network_def shut_down_ws_eq
        chan_pushes_def [of c])
qed

theorem reset_effect_witness:
  "reconnect_flow_status (force_manager_reset demo_ext ''reason''
     (demo_manager\<lparr>reconnect_flow_status := Cancelled\<rparr>)) = Inactive"
  using reset_effect [of "demo_manager\<lparr>reconnect_flow_status := Cancelled\<rparr>" new_chan demo_ext "''reason''"]
  by (simp add: Let_def in_reconnect_flow_def)

section \<open>The reconnect flow\<close>

text \<open>The flow status a lost connection leads to.\<close>

definition lost_flow :: "Manager \<Rightarrow> ReconnectFlowStatus" where
  "lost_flow m =
     (if is_manual_disconnect_requested m \<or> reconnect_flow_status m = Cancelled
      then reconnect_flow_status m
      else if \<not> is_auto_reconnect_enabled m then Inactive
      else if load_is_tv_on_network m \<or> \<not> nc_is_operational (tv_on_network_checker m) then Active
      else WaitingForTvOnNetwork)"

definition keeps_flow :: "Manager \<Rightarrow> bool" where
  "keeps_flow m \<longleftrightarrow> is_manual_disconnect_requested m \<or> reconnect_flow_status m = Cancelled"

lemma optionally_prepare_eq:
  "optionally_prepare_for_reconnect m = m\<lparr>
     reconnect_attempts := (if keeps_flow m \<or> reconnect_flow_status m = Active
                            then reconnect_attempts m else 0),
     reconnect_flow_status := lost_flow m,
     output_tx := chan_pushes (output_tx m)
       (if keeps_flow m then [] else [ReconnectFlowStatus (lost_flow m)])\<rparr>"
  by (simp add: optionally_prepare_for_reconnect_def keeps_flow_def lost_flow_def
      set_reconnect_flow_status_eq)

lemma connection_lost_eq:
  assumes "link m c"
  shows "connection_lost msg m = m\<lparr>
     reconnect_attempts := (if keeps_flow m \<or> reconnect_flow_status m = Active
                            then reconnect_attempts m else 0),
     reconnect_flow_status := lost_flow m,
     to_fsm_tx := Some (chan_pushes c [Input.Error]),
     output_tx := chan_pushes (output_tx m)
       ((if keeps_flow m then [] else [ReconnectFlowStatus (lost_flow m)]) @ [Error (Connection msg)])\<rparr>"
  using assms
  by (simp add: connection_lost_def attempt_fsm_error_def optionally_prepare_eq link_def send_to_fsm_eq)

text \<open>
  What the manager does about a failed connection: the handler's \<open>ConnectError\<close>, then the two
  replies of the state machine to the \<open>Error\<close> input, the state \<open>Disconnected\<close> and the output
  \<open>HandleConnectError\<close>.
\<close>

definition after_connect_error :: "'u ext \<Rightarrow> string \<Rightarrow> Manager \<Rightarrow> Manager" where
  "after_connect_error e err m =
     handle_output e HandleConnectError
       (set_manager_status State.Disconnected (handle_ws_status (ConnectError err) m))"

definition failed :: "string \<Rightarrow> Manager \<Rightarrow> Manager" where
  "failed err m = set_manager_status State.Disconnected (handle_ws_status (ConnectError err) m)"

lemma failed_fields:
  assumes "link m c"
  shows "link (failed err m) (chan_pushes c [Input.Error])"
    and "manager_status (failed err m) = State.Disconnected"
    and "reconnect_flow_status (failed err m) = lost_flow m"
    and "reconnect_attempts (failed err m) =
      (if keeps_flow m \<or> reconnect_flow_status m = Active then reconnect_attempts m else 0)"
    and "connection_details (failed err m) = connection_details m"
    and "session_connection_count (failed err m) = session_connection_count m"
    and "tv_on_network_checker (failed err m) = tv_on_network_checker m"
    and "is_tv_on_network (failed err m) = is_tv_on_network m"
    and "ws_url (failed err m) = ws_url m" "disk (failed err m) = disk m"
    and "data_dir (failed err m) = data_dir m"
  using assms
  by (simp_all add: failed_def connection_lost_eq [OF assms] set_manager_status_eq link_def)

lemma after_connect_error_eq: "after_connect_error e err m = handle_connect_error e (failed err m)"
  by (simp only: after_connect_error_def failed_def handle_output.simps)

lemma no_retry_fields:
  assumes "link m c" "lost_flow m = Inactive \<or> lost_flow m = Cancelled"
  shows "to_fsm_tx (after_connect_error e err m) = Some (chan_pushes c [Input.Error, Reset])"
    and "reconnect_flow_status (after_connect_error e err m) = Inactive"
    and "connection_details (after_connect_error e err m) = None"
proof -
  have flow: "\<not> in_reconnect_flow (failed err m)"
    using assms(2) by (auto simp: in_reconnect_flow_cases failed_fields [OF assms(1)])
  have l: "link (failed err m) (chan_pushes c [Input.Error])"
    by (rule failed_fields(1) [OF assms(1)])
  note r = reset_fields [OF l, where e = e]
  have "after_connect_error e err m =
      force_manager_reset e ''A WebSocket connection error occurred'' (failed err m)"
    using flow
    by (simp add: after_connect_error_eq handle_connect_error_def Let_def r
        should_retry_connect_failure_def is_initial_connect_retries_enabled_def
        is_auto_reconnect_enabled_def)
  with flow show "to_fsm_tx (after_connect_error e err m) = Some (chan_pushes c [Input.Error, Reset])"
    "reconnect_flow_status (after_connect_error e err m) = Inactive"
    "connection_details (after_connect_error e err m) = None"
    by (simp_all add: r)
qed

text \<open>A cancelled reconnect flow ends with the connection attempt under way: whatever the
  settings of the connection, its failure leads to a reset and to no further \<open>Connect\<close>, and the
  flow is inactive afterwards.\<close>

theorem cancel_ends_retries:
  assumes "to_fsm_tx m = Some c" "rx_open c" "reconnect_flow_status m = Cancelled"
  shows "to_fsm_tx (after_connect_error e err m) = Some (c\<lparr>queue := queue c @ [Input.Error, Reset]\<rparr>) \<and>
    reconnect_flow_status (after_connect_error e err m) = Inactive"
proof -
  have l: "link m c" using assms by (simp add: link_def)
  have "lost_flow m = Cancelled" using assms(3) by (simp add: lost_flow_def)
  with no_retry_fields [OF l, where e = e and err = err] assms(2) show ?thesis by (simp add: chan_pushes_def)
qed

theorem cancel_ends_retries_witness:
  "reconnect_flow_status (after_connect_error demo_ext ''refused'' (demo_manager
     \<lparr>reconnect_flow_status := Cancelled, connection_details := Some (demo_connection True True)\<rparr>)) =
   Inactive"
  using cancel_ends_retries [of "demo_manager\<lparr>reconnect_flow_status := Cancelled,
      connection_details := Some (demo_connection True True)\<rparr>" new_chan demo_ext "''refused''"] by simp

text \<open>Retries of the initial connection need automatic reconnects: without them a failed
  connection is not tried again, although the settings ask for initial retries and the session
  has not connected before; the reset even forgets the connection.\<close>

theorem initial_retries_need_auto_reconnect:
  assumes "to_fsm_tx m = Some c" "rx_open c"
    and "connection_details m = Some connection"
    and "cs_initial_connect_retries (settings_of connection)" "session_connection_count m = 0"
    and "\<not> cs_auto_reconnect (settings_of connection)" "\<not> is_manual_disconnect_requested m"
  shows "to_fsm_tx (after_connect_error e err m) = Some (c\<lparr>queue := queue c @ [Input.Error, Reset]\<rparr>) \<and>
    reconnect_flow_status (after_connect_error e err m) = Inactive \<and>
    connection_details (after_connect_error e err m) = None"
proof -
  have l: "link m c" using assms by (simp add: link_def)
  have "lost_flow m = Inactive \<or> lost_flow m = Cancelled"
    using assms by (auto simp: lost_flow_def is_auto_reconnect_enabled_def)
  with no_retry_fields [OF l, where e = e and err = err] assms(2) show ?thesis by (simp add: chan_pushes_def)
qed

theorem initial_retries_need_auto_reconnect_witness:
  "connection_details (after_connect_error demo_ext ''refused'' (demo_manager
     \<lparr>reconnect_flow_status := Active, connection_details := Some (demo_connection True False)\<rparr>)) =
   None"
  using initial_retries_need_auto_reconnect [of "demo_manager\<lparr>reconnect_flow_status := Active,
      connection_details := Some (demo_connection True False)\<rparr>" new_chan "demo_connection True False"
      demo_ext "''refused''"]
  by simp

text \<open>What the caller hears while the manager waits.\<close>

definition wait_messages :: "nat \<Rightarrow> string \<Rightarrow> u64 \<Rightarrow> nat option list \<Rightarrow> ManagerOutputMessage list" where
  "wait_messages d url attempts clocks = map
     (\<lambda>t. Status (WaitingToReconnect \<lparr>rd_url = url, rd_attempts = attempts, rd_next_attempt_ms = d - t\<rparr>))
     (List.map_filter id clocks)"

lemma wait_fold_eq:
  "fold (wait_feedback d url) clocks m =
     m\<lparr>output_tx := chan_pushes (output_tx m) (wait_messages d url (reconnect_attempts m) clocks)\<rparr>"
proof (induction clocks arbitrary: m)
  case Nil
  then show ?case by (simp add: wait_messages_def map_filter_simps)
next
  case (Cons t ts)
  then show ?case
    by (cases t) (simp_all add: wait_feedback_def wait_messages_def map_filter_simps)
qed

lemma wait_to_reconnect_eq:
  "wait_to_reconnect e url m = m\<lparr>wait_count := Suc (wait_count m),
     output_tx := chan_pushes (output_tx m)
       (wait_messages (reconnect_falloff (reconnect_attempts m) 250 10000) url (reconnect_attempts m)
          (feedback_clock e (wait_count m)))\<rparr>"
  by (simp add: wait_to_reconnect_def Let_def wait_fold_eq)

text \<open>A manager that can reconnect: connected to nothing, with a connection and a URL, and not
  held back by the network checker.\<close>

definition can_reconnect :: "'u ext \<Rightarrow> Connection \<Rightarrow> string \<Rightarrow> Input chan \<Rightarrow> Manager \<Rightarrow> bool" where
  "can_reconnect e connection url c m \<longleftrightarrow> link m c \<and> manager_status m = State.Disconnected \<and>
     connection_details m = Some connection \<and> ws_url m \<noteq> None \<and>
     websocket_url_for_connection e connection = Inr url \<and>
     (load_is_tv_on_network m \<or> \<not> nc_is_operational (tv_on_network_checker m))"

text \<open>The attempts counted after a reconnect.\<close>

definition next_attempts :: "Manager \<Rightarrow> u64" where
  "next_attempts m = (if reconnect_flow_status m = Active then reconnect_attempts m else 0) + 1"

lemma reconnect_fields:
  assumes "can_reconnect e connection url c m"
  shows "to_fsm_tx (initiate_reconnect e immediate m) = Some (chan_pushes c [Input.Connect url])"
    and "reconnect_flow_status (initiate_reconnect e immediate m) = initial_flow connection"
    and "reconnect_attempts (initiate_reconnect e immediate m) = next_attempts m"
    and "connection_details (initiate_reconnect e immediate m) = Some connection"
    and "ws_url (initiate_reconnect e immediate m) = Some url"
    and "manager_status (initiate_reconnect e immediate m) = State.Disconnected"
    and "is_manual_disconnect_requested (initiate_reconnect e immediate m) =
      is_manual_disconnect_requested m"
    and "session_connection_count (initiate_reconnect e immediate m) = session_connection_count m"
    and "tv_on_network_checker (initiate_reconnect e immediate m) =
      registered_ip e url (tv_on_network_checker m)"
    and "is_tv_on_network (initiate_reconnect e immediate m) = is_tv_on_network m"
    and "disk (initiate_reconnect e immediate m) = disk m"
    and "data_dir (initiate_reconnect e immediate m) = data_dir m"
    and "command_rx (initiate_reconnect e immediate m) = command_rx m"
    and "is_connection_initialized (initiate_reconnect e immediate m) = is_connection_initialized m"
    and "is_pairing (initiate_reconnect e immediate m) = is_pairing m"
proof -
  from assms obtain u where u: "ws_url m = Some u" and l: "link m c"
    and s: "manager_status m = State.Disconnected" and d: "connection_details m = Some connection"
    and url: "websocket_url_for_connection e connection = Inr url"
    and net: "load_is_tv_on_network m \<or> \<not> nc_is_operational (tv_on_network_checker m)"
    by (auto simp: can_reconnect_def)
  define m1 where "m1 = (if immediate then set_reconnect_flow_status Active m
    else wait_to_reconnect e u (set_reconnect_flow_status Active m))"
  define m2 where "m2 = m1\<lparr>reconnect_attempts := reconnect_attempts m1 + 1\<rparr>"
  have eq: "initiate_reconnect e immediate m = report_connect_error (initiate_connect_to_tv e connection m2)"
    using u d net
    by (auto simp: initiate_reconnect_def m2_def m1_def Let_def set_reconnect_flow_status_eq)
  have m2: "link m2 c" "manager_status m2 = State.Disconnected" "reconnect_flow_status m2 = Active"
    "reconnect_attempts m2 = next_attempts m"
    "is_manual_disconnect_requested m2 = is_manual_disconnect_requested m"
    "session_connection_count m2 = session_connection_count m"
    "tv_on_network_checker m2 = tv_on_network_checker m" "is_tv_on_network m2 = is_tv_on_network m"
    "disk m2 = disk m" "data_dir m2 = data_dir m" "command_rx m2 = command_rx m"
    "is_connection_initialized m2 = is_connection_initialized m" "is_pairing m2 = is_pairing m"
    using l s by (auto simp: m2_def m1_def link_def set_reconnect_flow_status_eq wait_to_reconnect_eq
        next_attempts_def)
  show "to_fsm_tx (initiate_reconnect e immediate m) = Some (chan_pushes c [Input.Connect url])"
    "reconnect_flow_status (initiate_reconnect e immediate m) = initial_flow connection"
    "reconnect_attempts (initiate_reconnect e immediate m) = next_attempts m"
    "connection_details (initiate_reconnect e immediate m) = Some connection"
    "ws_url (initiate_reconnect e immediate m) = Some url"
    "manager_status (initiate_reconnect e immediate m) = State.Disconnected"
    "is_manual_disconnect_requested (initiate_reconnect e immediate m) =
      is_manual_disconnect_requested m"
    "session_connection_count (initiate_reconnect e immediate m) = session_connection_count m"
    "tv_on_network_checker (initiate_reconnect e immediate m) =
      registered_ip e url (tv_on_network_checker m)"
    "is_tv_on_network (initiate_reconnect e immediate m) = is_tv_on_network m"
    "disk (initiate_reconnect e immediate m) = disk m"
    "data_dir (initiate_reconnect e immediate m) = data_dir m"
    "command_rx (initiate_reconnect e immediate m) = command_rx m"
    "is_connection_initialized (initiate_reconnect e immediate m) = is_connection_initialized m"
    "is_pairing (initiate_reconnect e immediate m) = is_pairing m"
    using m2 unfolding eq connect_eq [OF m2(1,2) url] by (simp_all add: report_connect_error_def)
qed

lemma can_reconnect_after_failure:
  assumes "link m c" "connection_details m = Some connection"
    "websocket_url_for_connection e connection = Inr url" "lost_flow m = Active"
    "from_disk per_ws_url (ws_url m) (read_persisted_state e (disk m) (data_dir m)) \<noteq> None"
    "load_is_tv_on_network m \<or> \<not> nc_is_operational (tv_on_network_checker m)"
  shows "can_reconnect e connection url (chan_pushes c [Input.Error, Reset])
      (force_manager_reset e reason (failed err m))"
    and "reconnect_flow_status (force_manager_reset e reason (failed err m)) = Active"
    and "session_connection_count (force_manager_reset e reason (failed err m)) =
      session_connection_count m"
    and "connection_details (force_manager_reset e reason (failed err m)) = Some connection"
    and "reconnect_attempts (force_manager_reset e reason (failed err m)) =
      (if keeps_flow m \<or> reconnect_flow_status m = Active then reconnect_attempts m else 0)"
proof -
  note f = failed_fields [OF assms(1), of err]
  have flow: "in_reconnect_flow (failed err m)" using assms(4) by (simp add: in_reconnect_flow_def f)
  note r = reset_fields [OF f(1), where e = e]
  have open': "rx_open (chan_pushes c [Input.Error, Reset])"
    using assms(1) by (simp add: link_def)
  show "can_reconnect e connection url (chan_pushes c [Input.Error, Reset])
      (force_manager_reset e reason (failed err m))"
    using assms open' flow
    by (simp add: can_reconnect_def link_def r f load_is_tv_on_network_def nc_check_now_def)
  show "reconnect_flow_status (force_manager_reset e reason (failed err m)) = Active"
    "session_connection_count (force_manager_reset e reason (failed err m)) =
      session_connection_count m"
    "connection_details (force_manager_reset e reason (failed err m)) = Some connection"
    "reconnect_attempts (force_manager_reset e reason (failed err m)) =
      (if keeps_flow m \<or> reconnect_flow_status m = Active then reconnect_attempts m else 0)"
    using assms flow by (simp_all add: r f)
qed

lemma registered_ip_flags [simp]:
  "nc_is_tv_on_network (registered_ip e url c) = nc_is_tv_on_network c"
  "nc_is_operational (registered_ip e url c) = nc_is_operational c"
  by (simp_all add: registered_ip_def nc_set_tv_ip_def nc_check_now_def split: option.split)

lemma retry_eq:
  assumes "link m c" "connection_details m = Some connection"
    "websocket_url_for_connection e connection = Inr url" "lost_flow m = Active"
    "from_disk per_ws_url (ws_url m) (read_persisted_state e (disk m) (data_dir m)) \<noteq> None"
    "load_is_tv_on_network m \<or> \<not> nc_is_operational (tv_on_network_checker m)"
    "cs_auto_reconnect (settings_of connection)"
    "cs_initial_connect_retries (settings_of connection) \<or> session_connection_count m \<noteq> 0"
  shows "to_fsm_tx (after_connect_error e err m) =
      Some (chan_pushes c [Input.Error, Reset, Input.Connect url])"
    and "reconnect_attempts (after_connect_error e err m) =
      (if keeps_flow m \<or> reconnect_flow_status m = Active then reconnect_attempts m else 0) + 1"
proof -
  let ?m = "force_manager_reset e ''A WebSocket connection error occurred'' (failed err m)"
  note f = can_reconnect_after_failure [OF assms(1-6), of "''A WebSocket connection error occurred''" err]
  have "should_retry_connect_failure ?m"
    using assms(7,8) by (auto simp: should_retry_connect_failure_def f
        is_initial_connect_retries_enabled_def is_auto_reconnect_enabled_def word_neq_0_conv)
  then have eq: "after_connect_error e err m = initiate_reconnect e False ?m"
    by (simp add: after_connect_error_eq handle_connect_error_def Let_def f)
  show "to_fsm_tx (after_connect_error e err m) =
      Some (chan_pushes c [Input.Error, Reset, Input.Connect url])"
    "reconnect_attempts (after_connect_error e err m) =
      (if keeps_flow m \<or> reconnect_flow_status m = Active then reconnect_attempts m else 0) + 1"
    unfolding eq reconnect_fields [OF f(1)] by (simp_all add: f next_attempts_def)
qed



text \<open>C24: The delay of automatic reconnects does not grow: without initial retries in the settings,
  every reconnect leaves the flow inactive, so the next failure starts counting from nothing and
  waits the shortest delay again, however many attempts have failed. Only with initial retries the
  count goes on.\<close>

theorem backoff_restarts:
  assumes "to_fsm_tx m = Some c" "rx_open c" "manager_status m = State.Disconnected"
    and "connection_details m = Some connection" "ws_url m \<noteq> None"
    and "websocket_url_for_connection e connection = Inr url"
    and "load_is_tv_on_network m \<or> \<not> nc_is_operational (tv_on_network_checker m)"
    and "reconnect_flow_status m = Active" "\<not> is_manual_disconnect_requested m"
  shows "let attempts = reconnect_attempts (handle_ws_status (ConnectError err) (initiate_reconnect e now m))
    in if cs_initial_connect_retries (settings_of connection)
       then attempts = reconnect_attempts m + 1
       else attempts = 0 \<and> reconnect_falloff attempts 250 10000 = 250"
proof -
  have can: "can_reconnect e connection url c m"
    using assms by (simp add: can_reconnect_def link_def)
  note f = reconnect_fields [OF can, of now]
  have l: "link (initiate_reconnect e now m) (chan_pushes c [Input.Connect url])"
    using assms(2) by (simp add: link_def f)
  have "reconnect_falloff 0 250 10000 = 250" by (simp add: reconnect_falloff_eq)
  then show ?thesis
    using assms(8,9) by (simp add: Let_def connection_lost_eq [OF l] f keeps_flow_def initial_flow_def
        next_attempts_def)
qed

theorem backoff_restarts_witness:
  "reconnect_attempts (handle_ws_status (ConnectError ''refused'') (initiate_reconnect demo_ext False
     (demo_manager\<lparr>ws_url := Some ''wss://tv:3001/'', reconnect_flow_status := Active,
        connection_details := Some (demo_connection False True), reconnect_attempts := 5\<rparr>))) = 0"
  using backoff_restarts [of "demo_manager\<lparr>ws_url := Some ''wss://tv:3001/'',
      reconnect_flow_status := Active, connection_details := Some (demo_connection False True),
      reconnect_attempts := 5\<rparr>" new_chan "demo_connection False True" demo_ext "''wss://tv:3001/''"
      "''refused''" False]
  by (simp add: demo_connection_url load_is_tv_on_network_def nc_new_def Let_def del: handle_ws_status.simps)

text \<open>C23: A request to cancel the reconnects that arrives while a reconnect is under way, on a
  connection without initial retries, has no effect: the manager is as it was, and the failure of
  the attempt leads to the next \<open>Connect\<close> all the same.\<close>

theorem cancel_ignored_while_reconnecting:
  assumes "to_fsm_tx m = Some c" "rx_open c" "manager_status m = State.Disconnected"
    and "connection_details m = Some connection" "ws_url m \<noteq> None"
    and "websocket_url_for_connection e connection = Inr url"
    and "load_is_tv_on_network m \<or> \<not> nc_is_operational (tv_on_network_checker m)"
    and "\<not> is_manual_disconnect_requested m" "session_connection_count m \<noteq> 0"
    and "cs_auto_reconnect (settings_of connection)"
    and "\<not> cs_initial_connect_retries (settings_of connection)"
    and "\<forall>p. read_persisted_state e (disk m) (data_dir m) = Inr p \<longrightarrow> per_ws_url p \<noteq> None"
  shows "let m1 = initiate_reconnect e now m; m2 = handle_manager_message e CancelReconnect m1
    in m2 = m1 \<and> to_fsm_tx (after_connect_error e err m2) =
      Some (c\<lparr>queue := queue c @ [Input.Connect url, Input.Error, Reset, Input.Connect url]\<rparr>)"
proof -
  have can: "can_reconnect e connection url c m"
    using assms by (simp add: can_reconnect_def link_def)
  let ?m = "initiate_reconnect e now m"
  note f = reconnect_fields [OF can, of now]
  have l: "link ?m (chan_pushes c [Input.Connect url])"
    using assms(2) by (simp add: link_def f)
  have net: "load_is_tv_on_network ?m \<or> \<not> nc_is_operational (tv_on_network_checker ?m)"
    using assms(7) by (simp add: load_is_tv_on_network_def f)
  have flow: "lost_flow ?m = Active"
    using assms(8,10,11) net by (auto simp: lost_flow_def f initial_flow_def is_auto_reconnect_enabled_def)
  have url: "from_disk per_ws_url (ws_url ?m) (read_persisted_state e (disk ?m) (data_dir ?m)) \<noteq> None"
    using assms(12) by (auto simp: from_disk_def f split: sum.split)
  have count: "cs_initial_connect_retries (settings_of connection) \<or> session_connection_count ?m \<noteq> 0"
    using assms(9) by (simp add: f)
  have "handle_manager_message e CancelReconnect ?m = ?m"
    using assms(11) by (simp add: cancel_reconnect_def f initial_flow_def)
  with retry_eq(1) [OF l f(4) assms(6) flow url net assms(10) count, of err] assms(2)
  show ?thesis by (simp add: Let_def chan_pushes_def del: handle_manager_message.simps)
qed

theorem cancel_ignored_while_reconnecting_witness:
  "\<exists>m. reconnect_flow_status m = Active \<and>
     handle_manager_message demo_ext CancelReconnect (initiate_reconnect demo_ext False m) =
       initiate_reconnect demo_ext False m"
proof -
  let ?m = "demo_manager\<lparr>ws_url := Some ''wss://tv:3001/'', reconnect_flow_status := Active,
      connection_details := Some (demo_connection False True), session_connection_count := 1\<rparr>"
  have "let m1 = initiate_reconnect demo_ext False ?m; m2 = handle_manager_message demo_ext CancelReconnect m1
    in m2 = m1 \<and> to_fsm_tx (after_connect_error demo_ext ''refused'' m2) =
      Some (new_chan\<lparr>queue := queue new_chan @ [Input.Connect ''wss://tv:3001/'', Input.Error, Reset,
        Input.Connect ''wss://tv:3001/'']\<rparr>)"
    by (rule cancel_ignored_while_reconnecting [of _ _ "demo_connection False True"])
       (simp_all add: demo_connection_url demo_no_file load_is_tv_on_network_def nc_new_def)
  then show ?thesis by (intro exI [of _ ?m]) (simp add: Let_def del: handle_manager_message.simps)
qed

section \<open>Registration and initialisation\<close>

text \<open>C28: The key a TV registers the manager with survives the session: the manager takes it, asks the
  state machine to initialise, and, where the write succeeds, a later session that starts from
  the disk alone has the URL, the key and the MAC address of this one.\<close>

theorem registration_persisted:
  assumes "json_laws e" "mac_laws e" "to_fsm_tx m = Some c" "rx_open c"
    and "\<forall>p. disk_open (disk m) p = None \<and> disk_read (disk m) p = None"
    and "fst (write_persisted_state e (disk m)
      \<lparr>per_ws_url = ws_url m, per_client_key = Some (rp_client_key (rr_payload r)),
       per_mac_addr = map_option (mac_to_string e) (mac_addr m)\<rparr> (data_dir m)) = Inr ()"
  shows "let m' = snd (handle_lgtv_response e (Registered r) m)
    in client_key m' = Some (rp_client_key (rr_payload r)) \<and>
       to_fsm_tx m' = Some (c\<lparr>queue := queue c @ [Initialize]\<rparr>) \<and>
       import_persisted_state e (clear_persisted_state_on_manager m') = m'"
proof -
  let ?st = "\<lparr>per_ws_url = ws_url m, per_client_key = Some (rp_client_key (rr_payload r)),
    per_mac_addr = map_option (mac_to_string e) (mac_addr m)\<rparr>"
  from assms(6) obtain d' where w: "write_persisted_state e (disk m) ?st (data_dir m) = (Inr (), d')"
    by (cases "write_persisted_state e (disk m) ?st (data_dir m)") auto
  with assms(1,5) have r: "read_persisted_state e d' (data_dir m) = Inr ?st"
    by (intro read_after_write) auto
  have mac: "Option.bind (map_option (mac_to_string e) (mac_addr m)) (mac_from_str e) = mac_addr m"
    using assms(2) by (cases "mac_addr m") (simp_all add: mac_laws_def)
  let ?m = "snd (handle_lgtv_response e (Registered r) m)"
  have m': "?m = m\<lparr>client_key := Some (rp_client_key (rr_payload r)), disk := d',
      to_fsm_tx := Some (chan_pushes c [Initialize]),
      output_tx := chan_pushes (output_tx m)
        [IsWakeLastSeenTvAvailable (load_is_tv_on_network m \<and> mac_addr m \<noteq> None)]\<rparr>"
    using assms(3,4)
    by (simp add: handle_lgtv_response_def manager_write_persisted_state_def w manager_defs
        send_to_fsm_eq Let_def load_is_tv_on_network_def)
  show ?thesis
    unfolding m' using assms(4)
    by (simp add: Let_def import_persisted_state_eq clear_persisted_state_on_manager_def r
        persisted_mac_def mac chan_pushes_def [of c])
qed

theorem registration_persisted_witness:
  "client_key (import_persisted_state demo_ext (clear_persisted_state_on_manager
     (snd (handle_lgtv_response demo_ext (Registered
       \<lparr>rr_id = ''test-id'', rr_payload = \<lparr>rp_client_key = ''key''\<rparr>\<rparr>) demo_manager)))) = Some ''key''"
  using registration_persisted [of demo_ext demo_manager new_chan
      "\<lparr>rr_id = ''test-id'', rr_payload = \<lparr>rp_client_key = ''key''\<rparr>\<rparr>"]
  by (simp add: demo_json_laws demo_mac_laws demo_disk_write Let_def) (simp add: demo_disk_def)

definition command_text :: "'u ext \<Rightarrow> nat \<Rightarrow> TvCommand \<Rightarrow> string" where
  "command_text e n command = command_payload
     (\<lambda>j. case json_to_text e j of Inl _ \<Rightarrow> None | Inr t \<Rightarrow> Some t) (fresh_uuid e n) command"

lemma send_command_open:
  "to_ws_tx m = Some c \<Longrightarrow> rx_open c \<Longrightarrow> send_command e cmd m = m\<lparr>uuid_count := Suc (uuid_count m),
     to_ws_tx := Some (chan_pushes c [WsMessage.Payload (command_text e (uuid_count m) cmd)])\<rparr>"
  by (simp add: send_command_def generate_lgtv_message_id_def send_to_ws_def chan_send_pushes
      command_text_def)

text \<open>Initialising a connection sends the WebSocket handler exactly six requests, in order and
  each with an identifier of its own: software, inputs, power state, system, and the two
  subscriptions; and the connection becomes the last good one. Nothing else changes.\<close>

theorem initialization_requests:
  assumes "to_ws_tx m = Some c" "rx_open c" "connection_details m = Some connection"
  shows "initialize_connection e m = m
    \<lparr>to_ws_tx := Some (c\<lparr>queue := queue c @ map (\<lambda>(i, cmd). WsMessage.Payload (command_text e (uuid_count m + i) cmd))
       (List.enumerate 0 [GetCurrentSWInfo, TvCommand.GetExternalInputList, TvCommand.GetPowerState,
          TvCommand.GetSystemInfo, SubscribeGetVolume, SubscribeGetPowerState])\<rparr>),
     uuid_count := uuid_count m + 6, last_good_connection := Some connection\<rparr>"
  using assms
  by (simp add: initialize_connection_def Let_def send_command_open chan_pushes_def)

theorem initialization_requests_witness:
  "length (queue (the (to_ws_tx (initialize_connection demo_ext (demo_manager
     \<lparr>to_ws_tx := Some new_chan, connection_details := Some (demo_connection True True)\<rparr>))))) = 6"
  by (subst initialization_requests [of _ new_chan "demo_connection True True"]) simp_all

text \<open>The volume a payload reports.\<close>

fun volume_of :: "LgTvResponsePayload \<Rightarrow> (u8 \<times> bool \<times> bool) option" where
  "volume_of (GetVolumeVariantA p) = Some (vsa_volume (gva_volume_status p),
     vsa_mute_status (gva_volume_status p), vsa_adjust_volume (gva_volume_status p))"
| "volume_of (GetVolumeVariantB p) = Some (gvb_volume p, gvb_muted p, gvb_supportvolume p)"
| "volume_of _ = None"

text \<open>Communication starts with the first volume report of a connection and with nothing else:
  that report, in either of its forms, is the one payload for which \<open>StartCommunication\<close> is sent,
  and it is sent once; every volume report sets exactly the three volume fields of the TV's
  state.\<close>

theorem first_volume_starts_communication:
  assumes "to_fsm_tx m = Some c" "rx_open c"
  shows "let m' = handle_payload e p m; starts = (volume_of p \<noteq> None \<and> \<not> is_connection_initialized m)
    in (starts \<longleftrightarrow> to_fsm_tx m' = Some (c\<lparr>queue := queue c @ [StartCommunication]\<rparr>)) \<and>
       (is_connection_initialized m' \<longleftrightarrow> is_connection_initialized m \<or> volume_of p \<noteq> None) \<and>
       (case volume_of p of
          None \<Rightarrow> ts_volume (tv_state m') = ts_volume (tv_state m)
        | Some (v, muted, settable) \<Rightarrow> tv_state m' = (tv_state m)
            \<lparr>ts_volume := Some v, ts_is_muted := Some muted, ts_is_volume_settable := Some settable\<rparr>)"
proof -
  have complete: "complete_initialization e m = (if is_connection_initialized m then m
      else set_host_ip_from_ws_url e (m\<lparr>to_fsm_tx := Some (chan_pushes c [StartCommunication]),
        is_connection_initialized := True\<rparr>))"
    using assms by (simp add: complete_initialization_def Let_def send_to_fsm_eq)
  have host: "to_fsm_tx (set_host_ip_from_ws_url e x) = to_fsm_tx x"
    "is_connection_initialized (set_host_ip_from_ws_url e x) = is_connection_initialized x"
    "tv_state (set_host_ip_from_ws_url e x) = tv_state x" for x
    by (simp_all add: set_host_ip_from_ws_url_def split: option.split)
  have other: "c \<noteq> c\<lparr>queue := queue c @ [x]\<rparr>" for x
    by (metis append_self_conv chan.select_convs(1) chan.surjective chan.update_convs(1) list.distinct(1))
  have inject: "c\<lparr>queue := xs\<rparr> = c\<lparr>queue := ys\<rparr> \<longleftrightarrow> xs = ys" for xs ys
    by (metis chan.select_convs(1) chan.surjective chan.update_convs(1))
  show ?thesis
    using assms other
    by (cases p)
       (auto simp: Let_def manager_defs set_volume_state_def complete host handle_pair_def
         attempt_fsm_error_def send_to_fsm_eq chan_pushes_def inject)
qed

theorem first_volume_starts_communication_witness:
  "is_connection_initialized (handle_payload demo_ext (GetVolumeVariantB
     \<lparr>gvb_return_value = True, gvb_volume_max = 100, gvb_ringtonewithvibration = None,
      gvb_scenario = None, gvb_muted = False, gvb_hac = None, gvb_subscribed = None,
      gvb_volume = 7, gvb_action = None, gvb_supportvolume = True, gvb_ringer_switch = None,
      gvb_slider = None, gvb_active = None\<rparr>) demo_manager)"
  using first_volume_starts_communication [of demo_manager new_chan demo_ext "GetVolumeVariantB
     \<lparr>gvb_return_value = True, gvb_volume_max = 100, gvb_ringtonewithvibration = None,
      gvb_scenario = None, gvb_muted = False, gvb_hac = None, gvb_subscribed = None,
      gvb_volume = 7, gvb_action = None, gvb_supportvolume = True, gvb_ringer_switch = None,
      gvb_slider = None, gvb_active = None\<rparr>"]
  by (simp add: Let_def del: handle_payload.simps)

text \<open>
  The address of the TV is also kept beside the network checker, which does not see it: what the
  handlers write there never becomes the address the checker pings.
\<close>

lemma host_ip_not_for_checker:
  "tv_on_network_checker (set_host_ip_from_ws_url e m) = tv_on_network_checker m"
  by (simp add: set_host_ip_from_ws_url_def split: option.split)

end
