(* ===== verification/Manager_Session.thy ===== *)
theory Manager_Session
  imports Manager_System Manager_Properties
begin

text \<open>
  A whole session: from an idle manager through the handshake with the TV to \<open>Communicating\<close>, and
  by a disconnect of the caller back to an idle manager. Every turn of the manager, of the state
  machine and of the WebSocket handler on the way is taken by \<open>run_turn\<close>.
\<close>

section \<open>What is seen of a session\<close>

text \<open>
  The status and the machine, what waits in the channels, the handler (None: not started yet) and
  the fields of the manager the session depends on. Of the payloads only the number is kept.
\<close>

record session =
  se_status :: State
  se_fsm :: State
  se_ins :: "Input list"
  se_outs :: "StateMachineUpdateMessage list"
  se_calls :: "ManagerMessage list"
  se_phase :: "WsPhase option"
  se_waiting :: "WsMessage list"
  se_updates :: "WsUpdateMessage list"
  se_written :: "SocketMessage list"
  se_flow :: ReconnectFlowStatus
  se_ready :: bool
  se_manual :: bool

primrec untext :: "WsMessage \<Rightarrow> WsMessage" where
  "untext (WsMessage.Command c) = WsMessage.Command c"
| "untext (WsMessage.Payload _) = WsMessage.Payload []"
| "untext WsMessage.TestConnection = WsMessage.TestConnection"

fun untext_sent :: "SocketMessage \<Rightarrow> SocketMessage" where
  "untext_sent (Text _) = Text []"
| "untext_sent m = m"

lemma untext_iff:
  "untext m = WsMessage.Command c \<longleftrightarrow> m = WsMessage.Command c"
  "untext m = WsMessage.Payload p \<longleftrightarrow> p = [] \<and> (\<exists>q. m = WsMessage.Payload q)"
  by (cases m; auto)+

definition machine_at ::
    "Run \<Rightarrow> State \<Rightarrow> State \<Rightarrow> Input list \<Rightarrow> StateMachineUpdateMessage list \<Rightarrow> bool" where
  "machine_at s status fsm ins outs \<longleftrightarrow> run_looping s \<and> fsm_running (run_fsm s) \<and>
     manager_status (run_manager s) = status \<and> fsm_state (run_fsm s) = fsm \<and>
     fsm_rx (run_fsm s) = \<lparr>queue = ins, rx_open = True\<rparr> \<and>
     to_fsm_tx (run_manager s) = Some \<lparr>queue = ins, rx_open = True\<rparr> \<and>
     fsm_tx (run_fsm s) = \<lparr>queue = outs, rx_open = True\<rparr>"

definition handler_at ::
    "Manager \<Rightarrow> string \<Rightarrow> WsPhase \<Rightarrow> WsMessage list \<Rightarrow> WsUpdateMessage list \<Rightarrow> SocketMessage list \<Rightarrow> bool" where
  "handler_at m url phase waiting updates written \<longleftrightarrow>
     (\<exists>t ins. ws_join_handle m = Some t \<and> wt_host t = url \<and> wt_phase t = phase \<and>
        wt_test_start t = None \<and> map untext_sent (wt_written t) = written \<and>
        to_ws_tx m = Some \<lparr>queue = ins, rx_open = (phase \<noteq> WsEnded)\<rparr> \<and> map untext ins = waiting \<and>
        from_ws_rx m = Some \<lparr>queue = updates, rx_open = True\<rparr>)"

definition shows_session :: "Connection \<Rightarrow> string \<Rightarrow> Run \<Rightarrow> session \<Rightarrow> bool" where
  "shows_session connection url s v \<longleftrightarrow>
     machine_at s (se_status v) (se_fsm v) (se_ins v) (se_outs v) \<and>
     command_rx (run_manager s) = \<lparr>queue = se_calls v, rx_open = True\<rparr> \<and>
     (\<forall>phase. se_phase v = Some phase \<longrightarrow>
        handler_at (run_manager s) url phase (se_waiting v) (se_updates v) (se_written v)) \<and>
     connection_details (run_manager s) = Some connection \<and>
     reconnect_flow_status (run_manager s) = se_flow v \<and>
     is_connection_initialized (run_manager s) = se_ready v \<and>
     is_manual_disconnect_requested (run_manager s) = se_manual v"

text \<open>The manager is disconnected, nothing is under way and nothing waits to be read.\<close>

definition idle :: "Run \<Rightarrow> bool" where
  "idle s \<longleftrightarrow> machine_at s State.Disconnected State.Disconnected [] [] \<and>
     command_rx (run_manager s) = \<lparr>queue = [], rx_open = True\<rparr> \<and>
     ws_join_handle (run_manager s) = None \<and> \<not> is_connection_initialized (run_manager s) \<and>
     \<not> is_manual_disconnect_requested (run_manager s)"

lemmas session_defs = shows_session_def machine_at_def

section \<open>Turns\<close>

text \<open>A turn from one view to another, in every situation with the first.\<close>

definition session_turn ::
    "'u ext \<Rightarrow> Connection \<Rightarrow> string \<Rightarrow> turn \<Rightarrow> session \<Rightarrow> session \<Rightarrow> bool" where
  "session_turn e connection url t v v' \<longleftrightarrow> (\<forall>s. shows_session connection url s v \<longrightarrow>
     (\<exists>s'. run_turn e consume_doc t s = Some s' \<and> shows_session connection url s' v'))"

lemma turn_fsm:
  assumes "se_ins v = i # ins"
  shows "session_turn e connection url FsmReceives v (v\<lparr>se_fsm := fsm_next (se_fsm v) i,
    se_ins := ins, se_outs := se_outs v @ fsm_report consume_doc (se_fsm v) i\<rparr>)"
  using assms
  by (auto simp: session_turn_def session_defs handler_at_def fsm_task_turn_def fsm_recv_def
      chan_recv_def Let_def fsm_handle_open [OF lgtv_fsm.rust_fsm_axioms])

lemma turn_status:
  assumes "se_outs v = StateMachineUpdateMessage.State x # outs"
  shows "session_turn e connection url FromStateMachine v (v\<lparr>se_outs := outs, se_status := x\<rparr>)"
  using assms
  by (auto simp: session_turn_def session_defs handler_at_def chan_recv_def manager_step_def
      Let_def set_manager_status_eq)

lemma turn_caller_sends:
  "session_turn e connection url (CallerSends msg) v (v\<lparr>se_calls := se_calls v @ [msg]\<rparr>)"
  by (auto simp: session_turn_def session_defs handler_at_def chan_send_def manager_step_def Let_def)


text \<open>The turns of the handler.\<close>

lemma ws_turn_at:
  assumes "ws_join_handle m = Some t"
  shows "ws_turn e ev m = (let t' = ws_step e ev (attach_ws m t) in m\<lparr>ws_join_handle := Some t',
    to_ws_tx := Some (wt_rx t'), from_ws_rx := Some (wt_tx t')\<rparr>)"
  using assms by (simp add: ws_turn_def Let_def)

lemma turn_handler:
  assumes "se_phase v = Some phase"
    and step: "\<And>t ins. \<lbrakk>wt_host t = url; wt_phase t = phase; wt_test_start t = None;
        map untext_sent (wt_written t) = se_written v; map untext ins = se_waiting v;
        wt_rx t = \<lparr>queue = ins, rx_open = (phase \<noteq> WsEnded)\<rparr>;
        wt_tx t = \<lparr>queue = se_updates v, rx_open = True\<rparr>\<rbrakk> \<Longrightarrow>
      let t' = ws_step e ev t in wt_host t' = url \<and> wt_phase t' = phase' \<and> wt_test_start t' = None \<and>
        map untext_sent (wt_written t') = written' \<and> map untext (queue (wt_rx t')) = waiting' \<and>
        rx_open (wt_rx t') = (phase' \<noteq> WsEnded) \<and> wt_tx t' = \<lparr>queue = updates', rx_open = True\<rparr>"
  shows "session_turn e connection url (WsTurn ev) v (v\<lparr>se_phase := Some phase',
    se_waiting := waiting', se_updates := updates', se_written := written'\<rparr>)"
  unfolding session_turn_def
proof (intro allI impI)
  fix s
  assume s: "shows_session connection url s v"
  let ?m = "run_manager s"
  from s assms(1) obtain t ins where t: "ws_join_handle ?m = Some t" "wt_host t = url"
    "wt_phase t = phase" "wt_test_start t = None" "map untext_sent (wt_written t) = se_written v"
    "to_ws_tx ?m = Some \<lparr>queue = ins, rx_open = (phase \<noteq> WsEnded)\<rparr>" "map untext ins = se_waiting v"
    "from_ws_rx ?m = Some \<lparr>queue = se_updates v, rx_open = True\<rparr>"
    by (auto simp: shows_session_def handler_at_def)
  let ?t = "ws_step e ev (attach_ws ?m t)"
  from step [of "attach_ws ?m t" ins] t
  have t': "wt_host ?t = url" "wt_phase ?t = phase'" "wt_test_start ?t = None"
    "map untext_sent (wt_written ?t) = written'" "map untext (queue (wt_rx ?t)) = waiting'"
    "rx_open (wt_rx ?t) = (phase' \<noteq> WsEnded)" "wt_tx ?t = \<lparr>queue = updates', rx_open = True\<rparr>"
    by (simp_all add: attach_ws_def Let_def)
  have rx: "wt_rx ?t = \<lparr>queue = queue (wt_rx ?t), rx_open = (phase' \<noteq> WsEnded)\<rparr>"
    using t'(6) by (cases "wt_rx ?t") simp
  have "handler_at (ws_turn e ev ?m) url phase' waiting' updates' written'"
    unfolding handler_at_def ws_turn_at [OF t(1)] Let_def
    using t' rx by (intro exI [of _ ?t] exI [of _ "queue (wt_rx ?t)"]) simp
  then show "\<exists>s'. run_turn e consume_doc (WsTurn ev) s = Some s' \<and>
      shows_session connection url s' (v\<lparr>se_phase := Some phase', se_waiting := waiting',
        se_updates := updates', se_written := written'\<rparr>)"
    using s t(1)
    by (simp add: session_defs manager_step_def Let_def ws_turn_frame)
       (simp add: ws_turn_at Let_def)
qed

lemma turn_begin:
  assumes "se_phase v = Some WsSpawned"
  shows "session_turn e connection url (WsTurn Begin) v (v\<lparr>se_phase := Some WsConnecting,
    se_waiting := se_waiting v, se_updates := se_updates v @ [WsUpdateMessage.Status WsStatus.Idle],
    se_written := se_written v\<rparr>)"
  by (rule turn_handler [OF assms]) (simp add: ws_step_def ws_send_update_def chan_send_def Let_def)

lemma turn_established:
  assumes "se_phase v = Some WsConnecting" "url_parse e url = Inr u"
  shows "session_turn e connection url (WsTurn (Resolved Established)) v (v\<lparr>se_phase := Some WsRunning,
    se_waiting := se_waiting v, se_updates := se_updates v @ [WsUpdateMessage.Status WsStatus.Connected],
    se_written := se_written v\<rparr>)"
  using assms(2)
  by (intro turn_handler [OF assms(1)])
     (simp add: ws_step_def ws_resolve_def ws_connect_def ws_send_update_def chan_send_def Let_def)

lemma turn_text:
  assumes "se_phase v = Some WsRunning"
  shows "session_turn e connection url (WsTurn (Incoming (Inr (Text p)))) v (v\<lparr>se_phase := Some WsRunning,
    se_waiting := se_waiting v, se_updates := se_updates v @ [WsUpdateMessage.Payload p],
    se_written := se_written v\<rparr>)"
  by (rule turn_handler [OF assms]) (simp add: ws_step_def ws_send_update_def chan_send_def Let_def)

lemma turn_written:
  assumes "se_phase v = Some WsRunning" "se_waiting v = WsMessage.Payload [] # waiting"
  shows "session_turn e connection url (WsTurn (CallerMessage None now)) v (v\<lparr>se_phase := Some WsRunning,
    se_waiting := waiting, se_updates := se_updates v, se_written := se_written v @ [Text []]\<rparr>)"
  using assms(2)
  by (intro turn_handler [OF assms(1)])
     (auto simp: ws_step_def chan_recv_def ws_write_def Let_def untext_iff map_eq_Cons_conv)

lemma turn_shut_down:
  assumes "se_phase v = Some WsRunning" "se_waiting v = [WsMessage.Command WsCommand.ShutDown]"
  shows "session_turn e connection url (WsTurn (CallerMessage None now)) v (v\<lparr>se_phase := Some WsEnded,
    se_waiting := [], se_updates := se_updates v @ [WsUpdateMessage.Status WsStatus.Disconnected],
    se_written := se_written v @ [Close]\<rparr>)"
  using assms(2)
  by (intro turn_handler [OF assms(1)])
     (auto simp: ws_step_def chan_recv_def ws_defs chan_send_def chan_close_def Let_def untext_iff
       map_eq_Cons_conv)


text \<open>The TV closes the connection: the handler says so, says that it ends, and has ended.\<close>

lemma turn_closed:
  assumes "se_phase v = Some WsRunning"
  shows "session_turn e connection url (WsTurn (Incoming (Inr Close))) v (v\<lparr>se_phase := Some WsEnded,
    se_waiting := [], se_updates := se_updates v @
      [WsUpdateMessage.Status ServerClosedConnection, WsUpdateMessage.Status WsStatus.Disconnected],
    se_written := se_written v\<rparr>)"
  by (intro turn_handler [OF assms])
     (auto simp: ws_step_def ws_defs chan_send_def chan_close_def Let_def)

text \<open>The messages of the handler.\<close>

lemma turn_idle_update:
  assumes "se_phase v = Some phase" "se_updates v = WsUpdateMessage.Status WsStatus.Idle # updates"
  shows "session_turn e connection url FromWebSocket v (v\<lparr>se_updates := updates\<rparr>)"
  using assms
  by (auto simp: session_turn_def session_defs handler_at_def chan_recv_def manager_step_def Let_def)

lemma turn_connected:
  assumes "se_phase v = Some phase" "se_updates v = WsUpdateMessage.Status WsStatus.Connected # updates"
  shows "session_turn e connection url FromWebSocket v
    (v\<lparr>se_updates := updates, se_ins := se_ins v @ [AttemptRegister]\<rparr>)"
  using assms
  by (auto simp: session_turn_def session_defs handler_at_def chan_recv_def manager_step_def Let_def
      send_to_fsm_def chan_send_def)

lemma turn_disconnected:
  assumes "se_phase v = Some phase" "se_updates v = WsUpdateMessage.Status WsStatus.Disconnected # updates"
  shows "session_turn e connection url FromWebSocket v
    (v\<lparr>se_updates := updates, se_ins := se_ins v @ [DisconnectionComplete]\<rparr>)"
  using assms
  by (auto simp: session_turn_def session_defs handler_at_def chan_recv_def manager_step_def Let_def
      send_to_fsm_def chan_send_def)

lemma written_frame:
  obtains d c where "manager_write_persisted_state e m = m\<lparr>disk := d, output_tx := c\<rparr>"
proof -
  let ?st = "\<lparr>per_ws_url = ws_url m, per_client_key = client_key m,
    per_mac_addr = map_option (mac_to_string e) (mac_addr m)\<rparr>"
  obtain r d where w: "write_persisted_state e (disk m) ?st (data_dir m) = (r, d)" by fastforce
  show ?thesis
  proof (cases r)
    case (Inl err)
    with w have "manager_write_persisted_state e m = m\<lparr>disk := d, output_tx := output_tx m\<rparr>"
      by (simp add: manager_write_persisted_state_def)
    then show ?thesis by (rule that)
  next
    case (Inr u)
    with w have "manager_write_persisted_state e m = m\<lparr>disk := d,
        output_tx := output_tx (emit_is_wake_tv_available (m\<lparr>disk := d\<rparr>))\<rparr>"
      by (simp add: manager_write_persisted_state_def manager_defs)
    then show ?thesis by (rule that)
  qed
qed

lemma host_frame:
  obtains ip b where "set_host_ip_from_ws_url e m = m\<lparr>tv_host_ip := ip, tv_host_ip_notifier := b\<rparr>"
proof (cases "ws_url m")
  case None
  then have "set_host_ip_from_ws_url e m =
      m\<lparr>tv_host_ip := tv_host_ip m, tv_host_ip_notifier := tv_host_ip_notifier m\<rparr>"
    by (simp add: set_host_ip_from_ws_url_def)
  then show ?thesis by (rule that)
next
  case (Some url)
  show ?thesis
  proof (cases "url_ip_addr e url")
    case None
    with Some have "set_host_ip_from_ws_url e m =
        m\<lparr>tv_host_ip := tv_host_ip m, tv_host_ip_notifier := tv_host_ip_notifier m\<rparr>"
      by (simp add: set_host_ip_from_ws_url_def)
    then show ?thesis by (rule that)
  next
    case (Some ip)
    with \<open>ws_url m = Some url\<close>
    have "set_host_ip_from_ws_url e m = m\<lparr>tv_host_ip := Some ip, tv_host_ip_notifier := True\<rparr>"
      by (simp add: set_host_ip_from_ws_url_def)
    then show ?thesis by (rule that)
  qed
qed

lemma turn_registered:
  assumes "se_phase v = Some phase" "se_updates v = WsUpdateMessage.Payload p # updates"
    "response_from_text e p = Some (Registered r)"
  shows "session_turn e connection url FromWebSocket v
    (v\<lparr>se_updates := updates, se_ins := se_ins v @ [Initialize]\<rparr>)"
  unfolding session_turn_def
proof (intro allI impI)
  fix s
  assume s: "shows_session connection url s v"
  let ?m = "(run_manager s)\<lparr>from_ws_rx := Some \<lparr>queue = updates, rx_open = True\<rparr>,
    client_key := Some (rp_client_key (rr_payload r))\<rparr>"
  obtain d c where "manager_write_persisted_state e ?m = ?m\<lparr>disk := d, output_tx := c\<rparr>"
    by (rule written_frame)
  with s assms show "\<exists>s'. run_turn e consume_doc FromWebSocket s = Some s' \<and>
      shows_session connection url s' (v\<lparr>se_updates := updates, se_ins := se_ins v @ [Initialize]\<rparr>)"
    by (auto simp: session_defs handler_at_def chan_recv_def manager_step_def Let_def
        handle_lgtv_response_def send_to_fsm_def chan_send_def)
qed

lemma volume_payload:
  assumes "volume_of p = Some x"
  shows "\<exists>ts. handle_payload e p m = emit_tv_state ((complete_initialization e m)\<lparr>tv_state := ts\<rparr>)"
  using assms by (cases p) (auto simp: set_volume_state_def)

lemma turn_volume:
  assumes "se_phase v = Some phase" "se_updates v = WsUpdateMessage.Payload p # updates"
    "response_from_text e p = Some (LgTvResponse.Command cr)" "volume_of (cr_payload cr) \<noteq> None"
    "\<not> se_ready v"
  shows "session_turn e connection url FromWebSocket v
    (v\<lparr>se_updates := updates, se_ins := se_ins v @ [StartCommunication], se_ready := True\<rparr>)"
  unfolding session_turn_def
proof (intro allI impI)
  fix s
  assume s: "shows_session connection url s v"
  let ?m = "(run_manager s)\<lparr>from_ws_rx := Some \<lparr>queue = updates, rx_open = True\<rparr>\<rparr>"
  let ?m1 = "?m\<lparr>to_fsm_tx := Some \<lparr>queue = se_ins v @ [StartCommunication], rx_open = True\<rparr>,
    is_connection_initialized := True\<rparr>"
  obtain ts where p: "handle_payload e (cr_payload cr) ?m =
      emit_tv_state ((complete_initialization e ?m)\<lparr>tv_state := ts\<rparr>)"
    using volume_payload assms(4) by blast
  obtain ip b where h: "set_host_ip_from_ws_url e ?m1 = ?m1\<lparr>tv_host_ip := ip, tv_host_ip_notifier := b\<rparr>"
    by (rule host_frame)
  have c: "complete_initialization e ?m = ?m1\<lparr>tv_host_ip := ip, tv_host_ip_notifier := b\<rparr>"
    using s assms(5) h
    by (simp add: complete_initialization_def session_defs send_to_fsm_def chan_send_def Let_def)
  from s assms p c show "\<exists>s'. run_turn e consume_doc FromWebSocket s = Some s' \<and>
      shows_session connection url s' (v\<lparr>se_updates := updates, se_ins := se_ins v @ [StartCommunication],
        se_ready := True\<rparr>)"
    by (auto simp: session_defs handler_at_def chan_recv_def manager_step_def Let_def
        handle_lgtv_response_def manager_defs simp del: handle_payload.simps)
qed

text \<open>The other responses only tell the caller something.\<close>

definition is_pair :: "LgTvResponsePayload \<Rightarrow> bool" where
  "is_pair p = (case p of LgTvResponsePayload.Pair _ \<Rightarrow> True | _ \<Rightarrow> False)"

text \<open>A response that answers a command and does not ask to pair.\<close>

definition is_answer :: "'u ext \<Rightarrow> string \<Rightarrow> bool" where
  "is_answer e p \<longleftrightarrow> (case response_from_text e p of
       Some (LgTvResponse.Command cr) \<Rightarrow> \<not> is_pair (cr_payload cr) | _ \<Rightarrow> False)"

lemma payload_keeps:
  assumes "\<not> is_pair p" "volume_of p = None \<or> is_connection_initialized m"
  shows "\<exists>sw inputs info ts out. handle_payload e p m = m\<lparr>tv_software_info := sw, tv_inputs := inputs,
    tv_info := info, tv_state := ts, output_tx := out\<rparr>"
proof (intro exI)
  let ?m = "handle_payload e p m"
  show "?m = m\<lparr>tv_software_info := tv_software_info ?m, tv_inputs := tv_inputs ?m,
    tv_info := tv_info ?m, tv_state := tv_state ?m, output_tx := output_tx ?m\<rparr>"
    using assms
    by (cases p) (simp_all add: is_pair_def manager_defs complete_initialization_def set_volume_state_def)
qed

lemma turn_response:
  assumes "se_phase v = Some phase" "se_updates v = WsUpdateMessage.Payload p # updates"
    "response_from_text e p = Some (LgTvResponse.Command cr)" "\<not> is_pair (cr_payload cr)"
    "volume_of (cr_payload cr) = None \<or> se_ready v"
  shows "session_turn e connection url FromWebSocket v (v\<lparr>se_updates := updates\<rparr>)"
  unfolding session_turn_def
proof (intro allI impI)
  fix s
  assume s: "shows_session connection url s v"
  let ?m = "(run_manager s)\<lparr>from_ws_rx := Some \<lparr>queue = updates, rx_open = True\<rparr>\<rparr>"
  have "volume_of (cr_payload cr) = None \<or> is_connection_initialized ?m"
    using s assms(5) by (simp add: shows_session_def)
  from payload_keeps [OF assms(4) this, of e] obtain sw inputs info ts out where
    "handle_payload e (cr_payload cr) ?m = ?m\<lparr>tv_software_info := sw, tv_inputs := inputs,
       tv_info := info, tv_state := ts, output_tx := out\<rparr>" by blast
  with s assms(1-3) show "\<exists>s'. run_turn e consume_doc FromWebSocket s = Some s' \<and>
      shows_session connection url s' (v\<lparr>se_updates := updates\<rparr>)"
    by (auto simp: session_defs handler_at_def chan_recv_def manager_step_def Let_def
        handle_lgtv_response_def simp del: handle_payload.simps)
qed


text \<open>The outputs of the machine.\<close>

lemma turn_start_handler:
  assumes "se_outs v = StateMachineUpdateMessage.Output (ConnectToTv url) # outs"
  shows "session_turn e connection url FromStateMachine v (v\<lparr>se_outs := outs,
    se_phase := Some WsSpawned, se_waiting := [], se_updates := [], se_written := []\<rparr>)"
  using assms
  by (auto simp: session_turn_def session_defs handler_at_def chan_recv_def manager_step_def Let_def
      start_websocket_handler_and_connect_def ws_start_def new_chan_def)

lemma turn_initialize:
  assumes "se_phase v = Some phase" "phase \<noteq> WsEnded"
    "se_outs v = StateMachineUpdateMessage.Output InitializeConnection # outs"
  shows "session_turn e connection url FromStateMachine v (v\<lparr>se_outs := outs,
    se_waiting := se_waiting v @ replicate 6 (WsMessage.Payload [])\<rparr>)"
  using assms
  by (auto simp: session_turn_def session_defs handler_at_def chan_recv_def manager_step_def Let_def
      initialize_connection_def send_command_open chan_pushes_def numeral_eq_Suc)

lemma turn_send_command:
  assumes "se_phase v = Some phase" "phase \<noteq> WsEnded"
    "se_outs v = StateMachineUpdateMessage.Output (Output.SendCommand c) # outs"
  shows "session_turn e connection url FromStateMachine v (v\<lparr>se_outs := outs,
    se_waiting := se_waiting v @ [WsMessage.Payload []]\<rparr>)"
  using assms
  by (auto simp: session_turn_def session_defs handler_at_def chan_recv_def manager_step_def Let_def
      send_command_open chan_pushes_def)

lemma turn_disconnect_tv:
  assumes "se_phase v = Some phase" "phase \<noteq> WsEnded" "se_manual v"
    "se_outs v = StateMachineUpdateMessage.Output DisconnectFromTv # outs"
  shows "session_turn e connection url FromStateMachine v (v\<lparr>se_outs := outs,
    se_waiting := se_waiting v @ [WsMessage.Command WsCommand.ShutDown]\<rparr>)"
  using assms
  by (auto simp: session_turn_def session_defs handler_at_def chan_recv_def manager_step_def Let_def
      optionally_prepare_for_reconnect_def initiate_disconnect_from_tv_def send_to_ws_def chan_send_def)

text \<open>The registration needs the bundled payload and the JSON texts.\<close>

definition registers :: "'u ext \<Rightarrow> bool" where
  "registers e \<longleftrightarrow> (\<exists>m. json_from_text e (register_payload e) = Some (JObj m)) \<and>
     (\<forall>j. \<exists>t. json_to_text e j = Inr t)"

lemma turn_register:
  assumes "se_phase v = Some phase" "phase \<noteq> WsEnded" "registers e"
    "se_outs v = StateMachineUpdateMessage.Output SendRegisterPayload # outs"
  shows "session_turn e connection url FromStateMachine v (v\<lparr>se_outs := outs, se_flow := Inactive,
    se_waiting := se_waiting v @ [WsMessage.Payload []]\<rparr>)"
  unfolding session_turn_def
proof (intro allI impI)
  fix s
  assume s: "shows_session connection url s v"
  let ?m = "(set_reconnect_flow_status Inactive (run_manager s))
    \<lparr>session_connection_count := session_connection_count (run_manager s) + 1\<rparr>"
  from assms(3) obtain req n where
    g: "generate_register_request e (client_key (run_manager s)) (cs_force_pairing (settings_of connection))
      (uuid_count (run_manager s)) = (Inr req, n)"
    by (auto simp: registers_def generate_register_request_def Let_def generate_lgtv_message_id_def)
  from assms(3) obtain t where t: "json_to_text e (json_of_LgTvRequest req) = Inr t"
    by (auto simp: registers_def)
  from s assms(1,2,4) g t show "\<exists>s'. run_turn e consume_doc FromStateMachine s = Some s' \<and>
      shows_session connection url s' (v\<lparr>se_outs := outs, se_flow := Inactive,
        se_waiting := se_waiting v @ [WsMessage.Payload []]\<rparr>)"
    by (auto simp: session_defs handler_at_def chan_recv_def manager_step_def Let_def
        set_reconnect_flow_status_eq send_register_payload_def send_to_ws_def chan_send_def)
qed

text \<open>The messages of the caller.\<close>

lemma turn_call_disconnect:
  assumes "se_calls v = Disconnect # calls"
  shows "session_turn e connection url FromCaller v
    (v\<lparr>se_calls := calls, se_ins := se_ins v @ [Input.Disconnect], se_manual := True\<rparr>)"
  using assms
  by (auto simp: session_turn_def session_defs handler_at_def chan_recv_def manager_step_def Let_def
      send_to_fsm_def chan_send_def)

lemma turn_call_command:
  assumes "se_calls v = SendTvCommand c # calls"
  shows "session_turn e connection url FromCaller v
    (v\<lparr>se_calls := calls, se_ins := se_ins v @ [Input.SendCommand c]\<rparr>)"
  using assms
  by (auto simp: session_turn_def session_defs handler_at_def chan_recv_def manager_step_def Let_def
      send_to_fsm_def chan_send_def)

section \<open>The protocol of a session\<close>

text \<open>
  The session as a machine of its own on the view alone: what a turn does to it, None for the
  turns it has no use for.
\<close>

definition has_handler :: "session \<Rightarrow> bool" where
  "has_handler v = (case se_phase v of None \<Rightarrow> False | Some phase \<Rightarrow> phase \<noteq> WsEnded)"

definition add_waiting :: "WsMessage list \<Rightarrow> session \<Rightarrow> session option" where
  "add_waiting msgs v = (if has_handler v then Some (v\<lparr>se_waiting := se_waiting v @ msgs\<rparr>) else None)"

fun session_report :: "'u ext \<Rightarrow> string \<Rightarrow> StateMachineUpdateMessage \<Rightarrow> session \<Rightarrow> session option" where
  "session_report e url (StateMachineUpdateMessage.State x) v = Some (v\<lparr>se_status := x\<rparr>)"
| "session_report e url (StateMachineUpdateMessage.Output (ConnectToTv host)) v =
     (if host = url then Some (v\<lparr>se_phase := Some WsSpawned, se_waiting := [], se_updates := [],
        se_written := []\<rparr>) else None)"
| "session_report e url (StateMachineUpdateMessage.Output SendRegisterPayload) v =
     (if registers e then add_waiting [WsMessage.Payload []] (v\<lparr>se_flow := Inactive\<rparr>) else None)"
| "session_report e url (StateMachineUpdateMessage.Output InitializeConnection) v =
     add_waiting (replicate 6 (WsMessage.Payload [])) v"
| "session_report e url (StateMachineUpdateMessage.Output (Output.SendCommand _)) v =
     add_waiting [WsMessage.Payload []] v"
| "session_report e url (StateMachineUpdateMessage.Output DisconnectFromTv) v =
     (if se_manual v then add_waiting [WsMessage.Command WsCommand.ShutDown] v else None)"
| "session_report e url _ v = None"

fun session_update :: "'u ext \<Rightarrow> WsUpdateMessage \<Rightarrow> session \<Rightarrow> session option" where
  "session_update e (WsUpdateMessage.Status WsStatus.Idle) v = Some v"
| "session_update e (WsUpdateMessage.Status WsStatus.Connected) v =
     Some (v\<lparr>se_ins := se_ins v @ [AttemptRegister]\<rparr>)"
| "session_update e (WsUpdateMessage.Status WsStatus.Disconnected) v =
     Some (v\<lparr>se_ins := se_ins v @ [DisconnectionComplete]\<rparr>)"
| "session_update e (WsUpdateMessage.Payload p) v = (case response_from_text e p of
       Some (Registered r) \<Rightarrow> Some (v\<lparr>se_ins := se_ins v @ [Initialize]\<rparr>)
     | Some (LgTvResponse.Command c) \<Rightarrow>
         (if volume_of (cr_payload c) \<noteq> None \<and> \<not> se_ready v
          then Some (v\<lparr>se_ins := se_ins v @ [StartCommunication], se_ready := True\<rparr>)
          else if is_pair (cr_payload c) then None else Some v)
     | _ \<Rightarrow> None)"
| "session_update e _ v = None"

fun session_ws :: "'u ext \<Rightarrow> string \<Rightarrow> WsEvent \<Rightarrow> session \<Rightarrow> session option" where
  "session_ws e url Begin v = (if se_phase v = Some WsSpawned
     then Some (v\<lparr>se_phase := Some WsConnecting,
       se_updates := se_updates v @ [WsUpdateMessage.Status WsStatus.Idle]\<rparr>) else None)"
| "session_ws e url (Resolved Established) v =
     (if se_phase v = Some WsConnecting \<and> (\<exists>u. url_parse e url = Inr u)
      then Some (v\<lparr>se_phase := Some WsRunning,
        se_updates := se_updates v @ [WsUpdateMessage.Status WsStatus.Connected]\<rparr>) else None)"
| "session_ws e url (Incoming (Inr (Text p))) v = (if se_phase v = Some WsRunning
     then Some (v\<lparr>se_phase := Some WsRunning,
       se_updates := se_updates v @ [WsUpdateMessage.Payload p]\<rparr>) else None)"
| "session_ws e url (CallerMessage None now) v = (if se_phase v \<noteq> Some WsRunning then None
     else case se_waiting v of
         WsMessage.Payload [] # waiting \<Rightarrow>
           Some (v\<lparr>se_phase := Some WsRunning, se_waiting := waiting,
             se_written := se_written v @ [Text []]\<rparr>)
       | [WsMessage.Command WsCommand.ShutDown] \<Rightarrow>
           Some (v\<lparr>se_phase := Some WsEnded, se_waiting := [],
             se_updates := se_updates v @ [WsUpdateMessage.Status WsStatus.Disconnected],
             se_written := se_written v @ [Close]\<rparr>)
       | _ \<Rightarrow> None)"
| "session_ws e url _ v = None"

fun session_next :: "'u ext \<Rightarrow> string \<Rightarrow> turn \<Rightarrow> session \<Rightarrow> session option" where
  "session_next e url FsmReceives v = (case se_ins v of
       [] \<Rightarrow> None
     | i # ins \<Rightarrow> Some (v\<lparr>se_fsm := fsm_next (se_fsm v) i, se_ins := ins,
         se_outs := se_outs v @ fsm_report consume_doc (se_fsm v) i\<rparr>))"
| "session_next e url FromStateMachine v = (case se_outs v of
       [] \<Rightarrow> None | msg # outs \<Rightarrow> session_report e url msg (v\<lparr>se_outs := outs\<rparr>))"
| "session_next e url FromWebSocket v = (case (se_phase v, se_updates v) of
       (Some _, u # updates) \<Rightarrow> session_update e u (v\<lparr>se_updates := updates\<rparr>)
     | _ \<Rightarrow> None)"
| "session_next e url (WsTurn ev) v = session_ws e url ev v"
| "session_next e url (CallerSends msg) v = Some (v\<lparr>se_calls := se_calls v @ [msg]\<rparr>)"
| "session_next e url FromCaller v = (case se_calls v of
       Disconnect # calls \<Rightarrow>
         Some (v\<lparr>se_calls := calls, se_ins := se_ins v @ [Input.Disconnect], se_manual := True\<rparr>)
     | SendTvCommand c # calls \<Rightarrow>
         Some (v\<lparr>se_calls := calls, se_ins := se_ins v @ [Input.SendCommand c]\<rparr>)
     | _ \<Rightarrow> None)"
| "session_next e url _ v = None"

lemma add_waitingD:
  "add_waiting msgs v = Some v' \<Longrightarrow> \<exists>phase. se_phase v = Some phase \<and> phase \<noteq> WsEnded \<and>
     v' = v\<lparr>se_waiting := se_waiting v @ msgs\<rparr>"
  by (auto simp: add_waiting_def has_handler_def split: if_splits option.splits)

lemma session_report_turn:
  assumes "se_outs v = msg # outs" "session_report e url msg (v\<lparr>se_outs := outs\<rparr>) = Some v'"
  shows "session_turn e connection url FromStateMachine v v'"
proof (cases msg)
  case (State x)
  with assms turn_status [of v x outs] show ?thesis by auto
next
  case (Output x)
  with assms show ?thesis
    by (cases x)
       (auto dest!: add_waitingD split: if_splits
         intro: turn_start_handler turn_register turn_initialize turn_send_command turn_disconnect_tv)
qed (use assms in simp)

lemma session_update_turn:
  assumes "se_phase v = Some phase" "se_updates v = u # updates"
    "session_update e u (v\<lparr>se_updates := updates\<rparr>) = Some v'"
  shows "session_turn e connection url FromWebSocket v v'"
proof (cases "(e, u, v)" rule: session_update.cases)
  case (1 e v)
  with assms turn_idle_update [of v phase updates] show ?thesis by simp
next
  case (2 e v)
  with assms turn_connected [of v phase updates] show ?thesis by simp
next
  case (3 e v)
  with assms turn_disconnected [of v phase updates] show ?thesis by simp
next
  case (4 e p v)
  with assms turn_registered [of v phase p updates e] turn_volume [of v phase p updates e]
    turn_response [of v phase p updates e]
  show ?thesis
    by (auto simp del: not_None_eq not_Some_eq split: option.splits LgTvResponse.splits if_splits)
qed (use assms in simp_all)

lemma session_ws_turn:
  assumes "session_ws e url ev v = Some v'"
  shows "session_turn e connection url (WsTurn ev) v v'"
proof (cases "(e, url, ev, v)" rule: session_ws.cases)
  case (1 e url v)
  with assms turn_begin [of v] show ?thesis by (auto split: if_splits)
next
  case (2 e url v)
  with assms turn_established [of v e url] show ?thesis by (auto split: if_splits)
next
  case (3 e url p v)
  with assms turn_text [of v] show ?thesis by (auto split: if_splits)
next
  case (4 e url now v)
  with assms turn_written [of v] turn_shut_down [of v] show ?thesis
    by (auto split: if_splits list.splits WsMessage.splits WsCommand.splits)
qed (use assms in simp_all)

lemma session_refined:
  assumes "session_next e url t v = Some v'" "shows_session connection url s v"
  shows "\<exists>s'. run_turn e consume_doc t s = Some s' \<and> shows_session connection url s' v'"
proof -
  have "session_turn e connection url t v v'"
  proof (cases "(e, url, t, v)" rule: session_next.cases)
    case (1 e url v)
    with assms turn_fsm [of v] show ?thesis by (auto split: list.splits)
  next
    case (2 e url v)
    with assms show ?thesis by (auto split: list.splits intro: session_report_turn)
  next
    case (3 e url v)
    with assms show ?thesis
      by (auto split: list.splits option.splits intro: session_update_turn)
  next
    case (4 e url ev v)
    with assms show ?thesis by (auto intro: session_ws_turn)
  next
    case (5 e url msg v)
    with assms turn_caller_sends show ?thesis by auto
  next
    case (6 e url v)
    with assms turn_call_disconnect [of v] turn_call_command [of v] show ?thesis
      by (auto split: list.splits ManagerMessage.splits)
  qed (use assms in simp_all)
  with assms(2) show ?thesis by (simp add: session_turn_def)
qed


fun session_runs :: "'u ext \<Rightarrow> string \<Rightarrow> turn list \<Rightarrow> session \<Rightarrow> session option" where
  "session_runs e url [] v = Some v"
| "session_runs e url (t # ts) v = Option.bind (session_next e url t v) (session_runs e url ts)"

lemma session_runs_refined:
  "session_runs e url ts v = Some v' \<Longrightarrow> shows_session connection url s v \<Longrightarrow>
    \<exists>s'. run_turns e consume_doc ts s = Some s' \<and> shows_session connection url s' v'"
proof (induction ts arbitrary: s v)
  case Nil
  then show ?case by simp
next
  case (Cons t ts)
  then obtain w where w: "session_next e url t v = Some w" "session_runs e url ts w = Some v'"
    by (cases "session_next e url t v") auto
  from session_refined [OF w(1) Cons.prems(2)] obtain s1
    where s1: "run_turn e consume_doc t s = Some s1" "shows_session connection url s1 w" by blast
  from Cons.IH [OF w(2) s1(2)] s1(1) show ?case by auto
qed

text \<open>C15: The program implements the protocol of a session. Whatever course of turns the abstract
  machine \<open>session_next\<close> allows from a view of the program, the program takes the same turns and
  ends with the view the abstract machine ends with: the machine's state and the status, what
  waits in each channel, the handler's phase, and what has been written to the TV.\<close>

theorem session_protocol_refined:
  assumes "session_runs e url ts v = Some v'" "shows_session connection url s v"
  shows "\<exists>s'. run_turns e consume_doc ts s = Some s' \<and> shows_session connection url s' v'"
  using assms by (rule session_runs_refined)

section \<open>From idle to idle\<close>

definition session_start :: "string \<Rightarrow> ReconnectFlowStatus \<Rightarrow> session" where
  "session_start url flow = \<lparr>se_status = State.Disconnected, se_fsm = State.Disconnected,
     se_ins = [Input.Connect url], se_outs = [], se_calls = [], se_phase = None, se_waiting = [],
     se_updates = [], se_written = [], se_flow = flow, se_ready = False, se_manual = False\<rparr>"

definition session_communicating :: "string \<Rightarrow> session" where
  "session_communicating url = \<lparr>se_status = Communicating url, se_fsm = Communicating url,
     se_ins = [], se_outs = [], se_calls = [], se_phase = Some WsRunning, se_waiting = [],
     se_updates = [], se_written = replicate 7 (Text []), se_flow = Inactive, se_ready = True,
     se_manual = False\<rparr>"

lemma start_session:
  assumes "idle s" "websocket_url_for_connection e connection = Inr url"
  shows "\<exists>s'. run_turns e consume_doc [CallerSends (ManagerMessage.Connect connection), FromCaller] s = Some s' \<and>
    shows_session connection url s' (session_start url (initial_flow connection)) \<and>
    ws_join_handle (run_manager s') = None"
proof -
  let ?m = "(run_manager s)\<lparr>command_rx := \<lparr>queue = [], rx_open = True\<rparr>\<rparr>"
  from assms(1) have "link ?m \<lparr>queue = [], rx_open = True\<rparr>" "manager_status ?m = State.Disconnected"
    by (simp_all add: idle_def machine_at_def link_def)
  note c = connect_eq [OF this assms(2)]
  from assms(1) c show ?thesis
    by (auto simp: idle_def session_defs session_start_def chan_send_def chan_recv_def
        manager_step_def Let_def report_connect_error_def chan_pushes_def)
qed

definition handshake_turns :: "string \<Rightarrow> string \<Rightarrow> turn list" where
  "handshake_turns reg vol =
     [FsmReceives, FromStateMachine, FromStateMachine,
      WsTurn Begin, WsTurn (Resolved Established), FromWebSocket, FromWebSocket,
      FsmReceives, FromStateMachine, FromStateMachine,
      WsTurn (CallerMessage None 0), WsTurn (Incoming (Inr (Text reg))), FromWebSocket,
      FsmReceives, FromStateMachine, FromStateMachine] @
     replicate 6 (WsTurn (CallerMessage None 0)) @
     [WsTurn (Incoming (Inr (Text vol))), FromWebSocket, FsmReceives, FromStateMachine]"

lemma handshake_session:
  assumes "registers e" "url_parse e url = Inr u"
    and "response_from_text e reg = Some (Registered r)"
    and "response_from_text e vol = Some (LgTvResponse.Command c)" "volume_of (cr_payload c) \<noteq> None"
  shows "session_runs e url (handshake_turns reg vol) (session_start url flow) =
    Some (session_communicating url)"
  using assms
  by (auto simp: handshake_turns_def session_start_def session_communicating_def numeral_eq_Suc
      fsm_next_def fsm_report_def add_waiting_def has_handler_def)


definition disconnect_turns :: "turn list" where
  "disconnect_turns =
     [CallerSends Disconnect, FromCaller, FsmReceives, FromStateMachine, FromStateMachine,
      WsTurn (CallerMessage None 0), FromWebSocket, FsmReceives, FromStateMachine]"

definition session_over :: "string \<Rightarrow> session" where
  "session_over url = \<lparr>se_status = State.Disconnected, se_fsm = State.Disconnected,
     se_ins = [], se_outs = [StateMachineUpdateMessage.Output HandleSuccessfulDisconnect], se_calls = [],
     se_phase = Some WsEnded, se_waiting = [], se_updates = [],
     se_written = replicate 7 (Text []) @ [Close], se_flow = Inactive, se_ready = True,
     se_manual = True\<rparr>"

lemma disconnect_session:
  "session_runs e url disconnect_turns (session_communicating url) = Some (session_over url)"
  by (simp add: disconnect_turns_def session_communicating_def session_over_def numeral_eq_Suc
      fsm_next_def fsm_report_def add_waiting_def has_handler_def)

lemma end_session:
  assumes "shows_session connection url s (session_over url)"
  shows "\<exists>s'. run_turn e consume_doc FromStateMachine s = Some s' \<and> idle s'"
proof -
  let ?m = "(run_manager s)\<lparr>is_manual_disconnect_requested := False\<rparr>"
  define m where "m = await_ws_handler e ?m"
  have m: "ws_join_handle m = None" "reconnect_flow_status m = Inactive"
    "\<not> is_manual_disconnect_requested m" "command_rx m = \<lparr>queue = [], rx_open = True\<rparr>"
    "to_fsm_tx m = Some \<lparr>queue = [], rx_open = True\<rparr>" "manager_status m = State.Disconnected"
    using assms by (simp_all add: m_def session_defs session_over_def)
  let ?m' = "initialize_manager_state e m"
  have m': "reconnect_flow_status ?m' = Inactive" "ws_join_handle ?m' = None"
    "\<not> is_manual_disconnect_requested ?m'" "\<not> is_connection_initialized ?m'"
    "command_rx ?m' = \<lparr>queue = [], rx_open = True\<rparr>"
    "to_fsm_tx ?m' = Some \<lparr>queue = [], rx_open = True\<rparr>" "manager_status ?m' = State.Disconnected"
    using m by (simp_all add: initialize_frame)
  then have "handle_output e HandleSuccessfulDisconnect (run_manager s) = ?m'"
    by (simp add: handle_disconnected_def m_def [symmetric])
  with assms m' show ?thesis
    by (auto simp: session_defs session_over_def chan_recv_def manager_step_def Let_def idle_def
        simp del: handle_output.simps)
qed

lemma initial_idle: "idle (run_initial e client (manager_new e d new_chan))"
proof -
  define m where "m = (manager_new e d new_chan)\<lparr>to_fsm_tx := Some new_chan\<rparr>"
  have "manager_status m = State.Disconnected" "ws_join_handle m = None"
    "command_rx m = new_chan" "\<not> is_manual_disconnect_requested m" "to_fsm_tx m = Some new_chan"
    by (simp_all add: m_def manager_new_def import_persisted_state_eq Let_def)
  then have i: "manager_status (initialize_manager_state e m) = State.Disconnected"
    "ws_join_handle (initialize_manager_state e m) = None"
    "command_rx (initialize_manager_state e m) = new_chan"
    "\<not> is_manual_disconnect_requested (initialize_manager_state e m)"
    "\<not> is_connection_initialized (initialize_manager_state e m)"
    "to_fsm_tx (initialize_manager_state e m) = Some new_chan"
    by (simp_all add: initialize_frame)
  obtain ip b where h: "set_host_ip_from_ws_url e (initialize_manager_state e m) =
      (initialize_manager_state e m)\<lparr>tv_host_ip := ip, tv_host_ip_notifier := b\<rparr>"
    by (rule host_frame)
  show ?thesis
    using i
    by (simp add: run_initial_def run_start_def Let_def m_def [symmetric] h emit_manager_status_def
        set_reconnect_flow_status_eq start_network_checker_def idle_def machine_at_def
        INITIAL_STATE_def new_chan_def [symmetric] split: sum.split)
qed



text \<open>A TV that answers with two texts.\<close>

definition session_volume :: json where
  "session_volume = JObj [(''id'', JStr ''get_volume''),
     (''payload'', JObj [(''muted'', JBool False), (''returnValue'', JBool True),
        (''supportvolume'', JBool True), (''volume'', JInt 7), (''volumeMax'', JInt 100)]),
     (''type'', JStr ''response'')]"

definition session_registered :: json where
  "session_registered = JObj [(''id'', JStr ''id-0''),
     (''payload'', JObj [(''client-key'', JStr ''key'')]), (''type'', JStr ''registered'')]"

definition demo_session :: "demo_url ext" where
  "demo_session = demo_ext\<lparr>json_to_text := \<lambda>j. Inr ''json'',
     json_from_text := \<lambda>t. if t = ''vol'' then Some session_volume
       else if t = ''reg'' then Some session_registered else demo_from_text t\<rparr>"

lemma demo_session_texts:
  "response_from_text demo_session ''reg'' =
     Some (Registered \<lparr>rr_id = ''id-0'', rr_payload = \<lparr>rp_client_key = ''key''\<rparr>\<rparr>)"
  "map_option (\<lambda>r. case r of LgTvResponse.Command c \<Rightarrow> volume_of (cr_payload c) | _ \<Rightarrow> None)
     (response_from_text demo_session ''vol'') = Some (Some (7, False, True))"
  "json_from_text demo_session (register_payload demo_session) = Some (JObj [(''k'', JNull)])"
  by code_simp+

lemma demo_session_facts:
  shows demo_session_url:
      "websocket_url_for_connection demo_session (demo_connection True True) = Inr ''wss://tv:3001/''"
    and demo_session_parse:
      "url_parse demo_session ''wss://tv:3001/'' = Inr (''wss'', ''tv'', Some 3001)"
    and demo_session_registers: "registers demo_session"
  using demo_session_texts(3) by (code_simp, code_simp, auto simp: registers_def demo_session_def)

lemma demo_session_volume:
  obtains c where "response_from_text demo_session ''vol'' = Some (LgTvResponse.Command c)"
    "volume_of (cr_payload c) \<noteq> None"
proof -
  from demo_session_texts(2) obtain x where
    "response_from_text demo_session ''vol'' = Some x"
    "(case x of LgTvResponse.Command c \<Rightarrow> volume_of (cr_payload c) | _ \<Rightarrow> None) = Some (7, False, True)"
    by auto
  then show ?thesis by (cases x) (auto intro: that)
qed

abbreviation demo_start :: Run where
  "demo_start \<equiv> run_initial demo_session (Inr ()) (manager_new demo_session demo_disk new_chan)"


section \<open>Reachable stages of a session\<close>

lemma reachable_turns:
  "reachable e consume s \<Longrightarrow> run_turns e consume ts s = Some s' \<Longrightarrow> reachable e consume s'"
proof (induction ts arbitrary: s)
  case (Cons t ts)
  then obtain s1 where s1: "run_turn e consume t s = Some s1" "run_turns e consume ts s1 = Some s'"
    by (cases "run_turn e consume t s") auto
  from Cons.IH [OF reachable.turn [OF Cons.prems(1) s1(1)] s1(2)] show ?case .
qed simp

text \<open>The communicating manager and the one whose handler has ended are reachable.\<close>

lemma demo_stages:
  obtains s1 s2 where "reachable demo_session consume_doc s1"
    "shows_session (demo_connection True True) ''wss://tv:3001/'' s1 (session_communicating ''wss://tv:3001/'')"
    "reachable demo_session consume_doc s2"
    "shows_session (demo_connection True True) ''wss://tv:3001/'' s2 (session_over ''wss://tv:3001/'')"
proof -
  let ?url = "''wss://tv:3001/''" and ?c = "demo_connection True True"
  obtain c where c: "response_from_text demo_session ''vol'' = Some (LgTvResponse.Command c)"
    "volume_of (cr_payload c) \<noteq> None" by (rule demo_session_volume)
  from start_session [OF initial_idle demo_session_url] obtain s0 where
    0: "run_turns demo_session consume_doc [CallerSends (ManagerMessage.Connect ?c), FromCaller] demo_start = Some s0"
    "shows_session ?c ?url s0 (session_start ?url (initial_flow ?c))" by blast
  from session_runs_refined [OF handshake_session [OF demo_session_registers demo_session_parse
      demo_session_texts(1) c] 0(2)] obtain s1 where
    1: "run_turns demo_session consume_doc (handshake_turns ''reg'' ''vol'') s0 = Some s1"
    "shows_session ?c ?url s1 (session_communicating ?url)" by blast
  from session_runs_refined [OF disconnect_session 1(2)] obtain s2 where
    2: "run_turns demo_session consume_doc disconnect_turns s1 = Some s2"
    "shows_session ?c ?url s2 (session_over ?url)" by blast
  from reachable_turns [OF reachable.init 0(1)] have "reachable demo_session consume_doc s0" .
  from reachable_turns [OF this 1(1)] have s1: "reachable demo_session consume_doc s1" .
  from reachable_turns [OF this 2(1)] have "reachable demo_session consume_doc s2" .
  with s1 1(2) 2(2) that show ?thesis by blast
qed

theorem session_protocol_refined_witness:
  "\<exists>s s'. reachable demo_session consume_doc s \<and>
     run_turns demo_session consume_doc disconnect_turns s = Some s' \<and>
     shows_session (demo_connection True True) ''wss://tv:3001/'' s' (session_over ''wss://tv:3001/'')"
proof -
  obtain s where s: "reachable demo_session consume_doc s"
    "shows_session (demo_connection True True) ''wss://tv:3001/'' s (session_communicating ''wss://tv:3001/'')"
    by (rule demo_stages)
  from session_protocol_refined [OF disconnect_session s(2)] s(1) show ?thesis by blast
qed

end
