(* ===== verification/Manager_Races.thy ===== *)
theory Manager_Races
  imports Manager_System Manager_Properties
begin

text \<open>
  Orders of turns that matter: a connection the TV closes ends the WebSocket handler before the
  manager has asked it to, and what becomes of the reconnect depends on which of two waiting
  messages the manager takes first.
\<close>

section \<open>A closed connection\<close>

text \<open>
  A stage of the run: the status and the machine's state, what waits in the three channels into
  the machine, out of it and from the handler, and the flow. The handler has ended, the settings
  ask for automatic reconnects, and neither the caller nor the checker prevents them.
\<close>

definition stage :: "Run \<Rightarrow> State \<Rightarrow> State \<Rightarrow> Input list \<Rightarrow> StateMachineUpdateMessage list \<Rightarrow>
    WsUpdateMessage list \<Rightarrow> ReconnectFlowStatus \<Rightarrow> bool" where
  "stage s status fsm ins outs wss flow \<longleftrightarrow> run_looping s \<and> fsm_running (run_fsm s) \<and>
     manager_status (run_manager s) = status \<and> fsm_state (run_fsm s) = fsm \<and>
     fsm_rx (run_fsm s) = \<lparr>queue = ins, rx_open = True\<rparr> \<and>
     to_fsm_tx (run_manager s) = Some \<lparr>queue = ins, rx_open = True\<rparr> \<and>
     fsm_tx (run_fsm s) = \<lparr>queue = outs, rx_open = True\<rparr> \<and>
     from_ws_rx (run_manager s) = Some \<lparr>queue = wss, rx_open = True\<rparr> \<and>
     (\<exists>tx. to_ws_tx (run_manager s) = Some tx \<and> \<not> rx_open tx) \<and>
     (\<forall>t. ws_join_handle (run_manager s) = Some t \<longrightarrow> wt_phase t = WsEnded) \<and>
     is_auto_reconnect_enabled (run_manager s) \<and>
     \<not> is_manual_disconnect_requested (run_manager s) \<and>
     reconnect_flow_status (run_manager s) = flow \<and>
     (load_is_tv_on_network (run_manager s) \<or>
      \<not> nc_is_operational (tv_on_network_checker (run_manager s)))"

lemma stage_fsm_receives:
  assumes "stage s status fsm (i # ins) outs wss flow"
  shows "\<exists>s'. run_turn e consume_doc FsmReceives s = Some s' \<and> run_manager s' = (run_manager s)
      \<lparr>to_fsm_tx := Some \<lparr>queue = ins, rx_open = True\<rparr>\<rparr> \<and>
    stage s' status (fsm_next fsm i) ins (outs @ fsm_report consume_doc fsm i) wss flow"
  using assms
  by (auto simp: stage_def fsm_task_turn_def fsm_recv_def chan_recv_def Let_def
      fsm_handle_open [OF lgtv_fsm.rust_fsm_axioms] is_auto_reconnect_enabled_def
      load_is_tv_on_network_def)

lemma stage_status:
  assumes "stage s status fsm ins (StateMachineUpdateMessage.State x # outs) wss flow"
  shows "\<exists>s'. run_turn e consume_doc FromStateMachine s = Some s' \<and>
    ws_join_handle (run_manager s') = ws_join_handle (run_manager s) \<and>
    stage s' x fsm ins outs wss flow"
  using assms
  by (auto simp: stage_def chan_recv_def manager_step_def Let_def set_manager_status_eq
      is_auto_reconnect_enabled_def load_is_tv_on_network_def)

lemma stage_error_report:
  assumes "stage s status fsm ins (TransitionError err # outs) wss flow"
  shows "\<exists>s'. run_turn e consume_doc FromStateMachine s = Some s' \<and> stage s' status fsm ins outs wss flow"
  using assms
  by (auto simp: stage_def chan_recv_def manager_step_def Let_def
      is_auto_reconnect_enabled_def load_is_tv_on_network_def)

lemma stage_ws_disconnected:
  assumes "stage s status fsm ins outs (WsUpdateMessage.Status WsStatus.Disconnected # wss) flow"
  shows "\<exists>s'. run_turn e consume_doc FromWebSocket s = Some s' \<and>
    stage s' status fsm (ins @ [DisconnectionComplete]) outs wss flow"
  using assms
  by (auto simp: stage_def chan_recv_def manager_step_def Let_def send_to_fsm_eq chan_pushes_def
      is_auto_reconnect_enabled_def load_is_tv_on_network_def)

lemma stage_server_closed:
  assumes "stage s status fsm ins outs (WsUpdateMessage.Status ServerClosedConnection # wss) flow"
    "flow \<noteq> Cancelled"
  shows "\<exists>s'. run_turn e consume_doc FromWebSocket s = Some s' \<and>
    ws_join_handle (run_manager s') = ws_join_handle (run_manager s) \<and>
    stage s' status fsm (ins @ [Input.Error]) outs wss Active"
proof -
  let ?m = "(run_manager s)\<lparr>from_ws_rx := Some \<lparr>queue = wss, rx_open = True\<rparr>\<rparr>"
  have l: "link ?m \<lparr>queue = ins, rx_open = True\<rparr>" using assms by (simp add: stage_def link_def)
  have "lost_flow ?m = Active"
    using assms by (auto simp: stage_def lost_flow_def is_auto_reconnect_enabled_def
        load_is_tv_on_network_def)
  with assms connection_lost_eq [OF l, of "''Server closed connection''"] show ?thesis
    by (auto simp: stage_def chan_recv_def manager_step_def Let_def chan_pushes_def [of "\<lparr>queue = _, rx_open = _\<rparr>"]
        is_auto_reconnect_enabled_def load_is_tv_on_network_def)
qed

lemma reset_ended_ws:
  assumes "\<forall>t. ws_join_handle m = Some t \<longrightarrow> wt_phase t = WsEnded"
    "to_ws_tx m = Some tx" "\<not> rx_open tx" "from_ws_rx m = Some rx" "link m c"
  shows "to_ws_tx (force_manager_reset e reason m) = Some tx"
    "from_ws_rx (force_manager_reset e reason m) = Some rx"
    "ws_join_handle (force_manager_reset e reason m) = None"
proof -
  let ?m = "shut_down_ws (m\<lparr>output_tx := chan_pushes (output_tx m) [Resetting reason]\<rparr>)"
  have m: "ws_join_handle ?m = ws_join_handle m" "to_ws_tx ?m = Some tx" "from_ws_rx ?m = Some rx"
    using assms by (simp_all add: shut_down_ws_eq chan_pushes_def)
  have "to_ws_tx (await_ws_handler e ?m) = Some tx" "from_ws_rx (await_ws_handler e ?m) = Some rx"
    by (subst await_ended [of ?m tx rx]; simp add: m assms(1))+
  then show "to_ws_tx (force_manager_reset e reason m) = Some tx"
    "from_ws_rx (force_manager_reset e reason m) = Some rx"
    "ws_join_handle (force_manager_reset e reason m) = None"
    using assms(5) unfolding link_def
    by (simp_all add: force_manager_reset_eq Let_def check_network_def import_persisted_state_eq
        cleared_def)
qed

text \<open>The manager asks a handler that has ended to shut down, and resets instead.\<close>

lemma stage_disconnect_from_tv:
  assumes "stage s status fsm ins (StateMachineUpdateMessage.Output DisconnectFromTv # outs) wss Active"
    "ws_join_handle (run_manager s) \<noteq> None"
  shows "\<exists>s'. run_turn e consume_doc FromStateMachine s = Some s' \<and>
    stage s' status fsm (ins @ [Reset]) outs wss Active"
proof -
  let ?m = "run_manager s"
  define m1 where "m1 = optionally_prepare_for_reconnect ?m"
  have lost: "lost_flow ?m = Active"
    using assms(1) by (auto simp: stage_def lost_flow_def)
  from assms(1) obtain tx where tx: "to_ws_tx ?m = Some tx" "\<not> rx_open tx"
    by (auto simp: stage_def)
  have l: "link m1 \<lparr>queue = ins, rx_open = True\<rparr>"
    using assms(1) by (simp add: m1_def optionally_prepare_eq link_def stage_def)
  have m1: "to_ws_tx m1 = Some tx" "ws_join_handle m1 = ws_join_handle ?m"
    "from_ws_rx m1 = Some \<lparr>queue = wss, rx_open = True\<rparr>"
    "\<forall>t. ws_join_handle m1 = Some t \<longrightarrow> wt_phase t = WsEnded" "in_reconnect_flow m1"
    "manager_status m1 = status" "reconnect_flow_status m1 = Active"
    "connection_details m1 = connection_details ?m" "is_tv_on_network m1 = is_tv_on_network ?m"
    "tv_on_network_checker m1 = tv_on_network_checker ?m" "\<not> is_manual_disconnect_requested m1"
    using assms(1) tx lost
    by (simp_all add: m1_def optionally_prepare_eq stage_def in_reconnect_flow_def)
  let ?m2 = "force_manager_reset e
    ''Cannot send message to WebSocket handler: channel unexpectedly closed'' m1"
  have run: "handle_output e DisconnectFromTv ?m = ?m2"
    using assms(2) m1(1,2) tx(2)
    by (simp add: m1_def [symmetric] initiate_disconnect_from_tv_def send_to_ws_def chan_send_pushes)
  note w = reset_ended_ws [OF m1(4,1) tx(2) m1(3) l, where e = e]
  note r = reset_fields [OF l, where e = e]
  have update: "handle_state_machine_update e (StateMachineUpdateMessage.Output DisconnectFromTv) =
      handle_output e DisconnectFromTv"
    by (rule ext) (simp only: handle_state_machine_update.simps)
  have "run_turn e consume_doc FromStateMachine s = Some (manager_step
      (handle_output e DisconnectFromTv)
      (s\<lparr>run_fsm := (run_fsm s)\<lparr>fsm_tx := \<lparr>queue = outs, rx_open = True\<rparr>\<rparr>\<rparr>))"
    using assms(1) by (simp add: stage_def chan_recv_def update del: handle_output.simps)
  moreover have "stage (manager_step (handle_output e DisconnectFromTv)
      (s\<lparr>run_fsm := (run_fsm s)\<lparr>fsm_tx := \<lparr>queue = outs, rx_open = True\<rparr>\<rparr>\<rparr>))
      status fsm (ins @ [Reset]) outs wss Active"
    using assms(1) m1 tx
    by (auto simp: stage_def manager_step_def Let_def run w r chan_pushes_def
        is_auto_reconnect_enabled_def load_is_tv_on_network_def nc_check_now_def
        simp del: handle_output.simps)
  ultimately show ?thesis by blast
qed

lemma run_turns_Some:
  "run_turn e consume t s = Some s' \<Longrightarrow> run_turns e consume ts s' = Some s'' \<Longrightarrow>
    run_turns e consume (t # ts) s = Some s''"
  by simp

text \<open>Up to the request to disconnect, which is taken while the handler's last message waits.\<close>

lemma disconnect_overtakes:
  assumes "stage s (Communicating url) (Communicating url) [] []
      [WsUpdateMessage.Status ServerClosedConnection, WsUpdateMessage.Status WsStatus.Disconnected] Inactive"
    and "ws_join_handle (run_manager s) \<noteq> None"
  shows "\<exists>s'. run_turns e consume_doc
      [FromWebSocket, FsmReceives, FromStateMachine, FromStateMachine] s = Some s' \<and>
    stage s' (Disconnecting url) (Disconnecting url) [Reset] []
      [WsUpdateMessage.Status WsStatus.Disconnected] Active"
proof -
  from stage_server_closed [OF assms(1), of e] obtain s1 where
    1: "run_turn e consume_doc FromWebSocket s = Some s1"
    and h1: "ws_join_handle (run_manager s1) \<noteq> None"
    and s1: "stage s1 (Communicating url) (Communicating url) [Input.Error] []
      [WsUpdateMessage.Status WsStatus.Disconnected] Active" using assms(2) by auto
  from stage_fsm_receives [OF s1, of e] obtain s2 where
    2: "run_turn e consume_doc FsmReceives s1 = Some s2"
    and h2: "ws_join_handle (run_manager s2) \<noteq> None"
    and s2: "stage s2 (Communicating url) (Disconnecting url) []
      [StateMachineUpdateMessage.State (Disconnecting url), StateMachineUpdateMessage.Output DisconnectFromTv]
      [WsUpdateMessage.Status WsStatus.Disconnected] Active"
    using h1 by (auto simp: fsm_next_def fsm_report_def)
  from stage_status [OF s2, of e] obtain s3 where
    3: "run_turn e consume_doc FromStateMachine s2 = Some s3"
    and h3: "ws_join_handle (run_manager s3) \<noteq> None"
    and s3: "stage s3 (Disconnecting url) (Disconnecting url) []
      [StateMachineUpdateMessage.Output DisconnectFromTv]
      [WsUpdateMessage.Status WsStatus.Disconnected] Active" using h2 by auto
  from stage_disconnect_from_tv [OF s3 h3, of e] obtain s4 where
    4: "run_turn e consume_doc FromStateMachine s3 = Some s4"
    and s4: "stage s4 (Disconnecting url) (Disconnecting url) [Reset] []
      [WsUpdateMessage.Status WsStatus.Disconnected] Active" by auto
  from 1 2 3 4 s4 show ?thesis
    by (intro exI [of _ s4]) (simp only: run_turns.simps bind.simps simp_thms)
qed

text \<open>From there on: the machine is reset, and the end of the disconnect comes too late.\<close>

lemma disconnect_too_late:
  assumes "stage s4 (Disconnecting url) (Disconnecting url) [Reset] []
      [WsUpdateMessage.Status WsStatus.Disconnected] Active"
  shows "\<exists>s'. run_turns e consume_doc
      [FromWebSocket, FsmReceives, FsmReceives, FromStateMachine, FromStateMachine] s4 = Some s' \<and>
    stage s' State.Disconnected State.Disconnected [] [] [] Active"
proof -
  from stage_ws_disconnected [OF assms, of e] obtain s5 where
    5: "run_turn e consume_doc FromWebSocket s4 = Some s5"
    and s5: "stage s5 (Disconnecting url) (Disconnecting url) [Reset, DisconnectionComplete] [] [] Active"
    by auto
  from stage_fsm_receives [OF s5, of e] obtain s6 where
    6: "run_turn e consume_doc FsmReceives s5 = Some s6"
    and s6: "stage s6 (Disconnecting url) State.Disconnected [DisconnectionComplete]
      [StateMachineUpdateMessage.State State.Disconnected] [] Active"
    by (auto simp: fsm_next_def fsm_report_def)
  from stage_fsm_receives [OF s6, of e] obtain s7 err where
    7: "run_turn e consume_doc FsmReceives s6 = Some s7"
    and s7: "stage s7 (Disconnecting url) State.Disconnected []
      [StateMachineUpdateMessage.State State.Disconnected, TransitionError err] [] Active"
    by (auto simp: fsm_next_def fsm_report_def)
  from stage_status [OF s7, of e] obtain s8 where
    8: "run_turn e consume_doc FromStateMachine s7 = Some s8"
    and s8: "stage s8 State.Disconnected State.Disconnected [] [TransitionError err] [] Active" by auto
  from stage_error_report [OF s8, of e] obtain s9 where
    9: "run_turn e consume_doc FromStateMachine s8 = Some s9"
    and s9: "stage s9 State.Disconnected State.Disconnected [] [] [] Active" by auto
  from 5 6 7 8 9 s9 show ?thesis
    by (intro exI [of _ s9]) (simp only: run_turns.simps bind.simps simp_thms)
qed

text \<open>C26: A reconnect can be lost. The TV closes the connection of a communicating manager with
  automatic reconnects; the handler reports that, then its end, and is gone. If the manager takes
  the machine's request to disconnect before the handler's last message, its reset overtakes the
  disconnect: the machine refuses the handler's \<open>DisconnectionComplete\<close>, nothing is left to do,
  and the manager stays disconnected with an active flow that never sends a \<open>Connect\<close>.\<close>

theorem reconnect_can_be_lost:
  assumes "stage s (Communicating url) (Communicating url) [] []
      [WsUpdateMessage.Status ServerClosedConnection, WsUpdateMessage.Status WsStatus.Disconnected] Inactive"
    and "ws_join_handle (run_manager s) \<noteq> None"
  shows "\<exists>s'. run_turns e consume_doc
      [FromWebSocket, FsmReceives, FromStateMachine, FromStateMachine, FromWebSocket,
       FsmReceives, FsmReceives, FromStateMachine, FromStateMachine] s = Some s' \<and>
    stage s' State.Disconnected State.Disconnected [] [] [] Active"
proof -
  from disconnect_overtakes [OF assms, of e] obtain s4 where
    "run_turns e consume_doc [FromWebSocket, FsmReceives, FromStateMachine, FromStateMachine] s = Some s4"
    "stage s4 (Disconnecting url) (Disconnecting url) [Reset] []
      [WsUpdateMessage.Status WsStatus.Disconnected] Active" by blast
  with disconnect_too_late [OF this(2), of e] show ?thesis
    using run_turns_append [of e consume_doc
      "[FromWebSocket, FsmReceives, FromStateMachine, FromStateMachine]"
      "[FromWebSocket, FsmReceives, FsmReceives, FromStateMachine, FromStateMachine]" s]
    by (simp del: run_turns.simps)
qed

definition demo_closed :: Run where
  "demo_closed =
    \<lparr>run_manager = demo_manager
       \<lparr>manager_status := Communicating ''u'',
        connection_details := Some (demo_connection False True),
        to_ws_tx := Some \<lparr>queue = [], rx_open = False\<rparr>,
        from_ws_rx := Some \<lparr>queue = [WsUpdateMessage.Status ServerClosedConnection,
          WsUpdateMessage.Status WsStatus.Disconnected], rx_open = True\<rparr>,
        ws_join_handle := Some ((ws_start ''u'' True new_chan new_chan)\<lparr>wt_phase := WsEnded\<rparr>),
        to_fsm_tx := Some \<lparr>queue = [], rx_open = True\<rparr>\<rparr>,
     run_fsm = \<lparr>fsm_state = Communicating ''u'', fsm_rx = \<lparr>queue = [], rx_open = True\<rparr>,
        fsm_tx = \<lparr>queue = [], rx_open = True\<rparr>, fsm_running = True\<rparr>,
     run_cancelled = False, run_was_on_network = False, run_looping = True, run_stopping = False\<rparr>"

theorem reconnect_can_be_lost_witness:
  "\<exists>s'. run_turns demo_ext consume_doc
      [FromWebSocket, FsmReceives, FromStateMachine, FromStateMachine, FromWebSocket,
       FsmReceives, FsmReceives, FromStateMachine, FromStateMachine] demo_closed = Some s' \<and>
    reconnect_flow_status (run_manager s') = Active \<and> fsm_state (run_fsm s') = State.Disconnected \<and>
    queue (fsm_rx (run_fsm s')) = []"
proof -
  have "stage demo_closed (Communicating ''u'') (Communicating ''u'') [] []
      [WsUpdateMessage.Status ServerClosedConnection, WsUpdateMessage.Status WsStatus.Disconnected] Inactive"
    by (simp add: stage_def demo_closed_def is_auto_reconnect_enabled_def load_is_tv_on_network_def
        nc_new_def)
  from reconnect_can_be_lost [OF this, of demo_ext]
  obtain s' where "run_turns demo_ext consume_doc
      [FromWebSocket, FsmReceives, FromStateMachine, FromStateMachine, FromWebSocket,
       FsmReceives, FsmReceives, FromStateMachine, FromStateMachine] demo_closed = Some s'"
    "stage s' State.Disconnected State.Disconnected [] [] [] Active"
    by (auto simp: demo_closed_def simp del: run_turns.simps)
  then show ?thesis by (auto simp: stage_def simp del: run_turns.simps)
qed

text \<open>
  Once the handler is gone and its messages are read, the manager's loop finds the receiving
  half of its channel ready at every turn, and does nothing with it: the turn never waits.
\<close>

lemma idle_turn_always_ready:
  assumes "run_looping s" "from_ws_rx (run_manager s) = Some c" "queue c = []"
    "ws_join_handle (run_manager s) = None"
  shows "run_turn e consume FromWebSocket s = Some s"
  using assms by (simp add: chan_recv_def)

end
