(* ===== verification/Manager_Reconnect.thy ===== *)
theory Manager_Reconnect
  imports Manager_Session Manager_Races
begin

text \<open>
  A reconnect that succeeds: from a communicating manager whose connection the TV closes, through
  the reset and the handshake, to a communicating manager with the same connection. It is the
  order of turns \<open>Manager_Races\<close> leaves out: the manager takes the handler's last message before
  it acts on the machine's request to disconnect.
\<close>

section \<open>Managers that can recover\<close>

text \<open>
  Beside the view of the session a reconnect depends on the URL the manager remembers, which
  each reset reads from disk, on the settings of the connection and on the network checker.
\<close>

definition remembered_url :: "'u ext \<Rightarrow> Manager \<Rightarrow> string option" where
  "remembered_url e m =
     from_disk per_ws_url (ws_url m) (read_persisted_state e (disk m) (data_dir m))"

definition recovers :: "'u ext \<Rightarrow> Connection \<Rightarrow> string \<Rightarrow> Manager \<Rightarrow> bool" where
  "recovers e connection url m \<longleftrightarrow> websocket_url_for_connection e connection = Inr url \<and>
     cs_auto_reconnect (settings_of connection) \<and> remembered_url e m \<noteq> None \<and> \<not> is_pairing m \<and>
     (load_is_tv_on_network m \<or> \<not> nc_is_operational (tv_on_network_checker m))"

text \<open>
  A turn between two views in which the manager goes on to recover, the disk being left alone and
  a URL in memory not forgotten.
\<close>

definition keeps_details :: "Run \<Rightarrow> Run \<Rightarrow> bool" where
  "keeps_details s s' \<longleftrightarrow> disk (run_manager s') = disk (run_manager s) \<and>
     data_dir (run_manager s') = data_dir (run_manager s) \<and>
     (ws_url (run_manager s) \<noteq> None \<longrightarrow> ws_url (run_manager s') \<noteq> None)"

definition recovery_turn ::
    "'u ext \<Rightarrow> Connection \<Rightarrow> string \<Rightarrow> turn \<Rightarrow> session \<Rightarrow> session \<Rightarrow> bool" where
  "recovery_turn e connection url t v v' \<longleftrightarrow>
     (\<forall>s. shows_session connection url s v \<and> recovers e connection url (run_manager s) \<longrightarrow>
        (\<exists>s'. run_turn e consume_doc t s = Some s' \<and> shows_session connection url s' v' \<and>
           recovers e connection url (run_manager s') \<and> keeps_details s s'))"

lemma recovery_turnI:
  assumes "\<And>s. shows_session connection url s v \<Longrightarrow> recovers e connection url (run_manager s) \<Longrightarrow>
    \<exists>s'. run_turn e consume_doc t s = Some s' \<and> shows_session connection url s' v' \<and>
      recovers e connection url (run_manager s') \<and> keeps_details s s'"
  shows "recovery_turn e connection url t v v'"
  using assms by (simp add: recovery_turn_def)

lemmas recovery_defs = recovers_def remembered_url_def load_is_tv_on_network_def keeps_details_def

section \<open>The turns\<close>

text \<open>The machine and the handler take their turns without the manager.\<close>

lemma recovers_kept:
  assumes "recovers e connection url (run_manager s)" "run_turn e consume t s = Some s'"
    "t = FsmReceives \<or> t = WsTurn ev"
  shows "recovers e connection url (run_manager s') \<and> keeps_details s s'"
  using assms
  by (auto simp: fsm_task_turn_def manager_step_def Let_def recovery_defs ws_turn_frame ws_turn_def
      split: if_splits option.splits)

lemma recovery_turn_outside:
  assumes "session_turn e connection url t v v'" "t = FsmReceives \<or> t = WsTurn ev"
  shows "recovery_turn e connection url t v v'"
  using assms recovers_kept unfolding recovery_turn_def session_turn_def by metis

lemma recover_fsm:
  assumes "se_ins v = i # ins"
  shows "recovery_turn e connection url FsmReceives v (v\<lparr>se_fsm := fsm_next (se_fsm v) i,
    se_ins := ins, se_outs := se_outs v @ fsm_report consume_doc (se_fsm v) i\<rparr>)"
  using turn_fsm [OF assms] by (rule recovery_turn_outside) simp

lemma recover_closed:
  assumes "se_phase v = Some WsRunning"
  shows "recovery_turn e connection url (WsTurn (Incoming (Inr Close))) v (v\<lparr>se_phase := Some WsEnded,
    se_waiting := [], se_updates := se_updates v @
      [WsUpdateMessage.Status ServerClosedConnection, WsUpdateMessage.Status WsStatus.Disconnected],
    se_written := se_written v\<rparr>)"
  using turn_closed [OF assms] by (rule recovery_turn_outside) simp

lemma recover_status:
  assumes "se_outs v = StateMachineUpdateMessage.State x # outs"
  shows "recovery_turn e connection url FromStateMachine v (v\<lparr>se_outs := outs, se_status := x\<rparr>)"
  using assms
  by (auto intro!: recovery_turnI simp: recovery_defs session_defs handler_at_def chan_recv_def
      manager_step_def Let_def set_manager_status_eq)

lemma recover_disconnected:
  assumes "se_phase v = Some phase" "se_updates v = WsUpdateMessage.Status WsStatus.Disconnected # updates"
  shows "recovery_turn e connection url FromWebSocket v
    (v\<lparr>se_updates := updates, se_ins := se_ins v @ [DisconnectionComplete]\<rparr>)"
  using assms
  by (auto intro!: recovery_turnI simp: recovery_defs session_defs handler_at_def chan_recv_def
      manager_step_def Let_def send_to_fsm_def chan_send_def)

lemma recover_server_closed:
  assumes "se_phase v = Some phase" "\<not> se_manual v" "se_flow v \<noteq> Cancelled"
    "se_updates v = WsUpdateMessage.Status ServerClosedConnection # updates"
  shows "recovery_turn e connection url FromWebSocket v
    (v\<lparr>se_updates := updates, se_ins := se_ins v @ [Input.Error], se_flow := Active\<rparr>)"
proof (rule recovery_turnI)
  fix s
  assume s: "shows_session connection url s v" "recovers e connection url (run_manager s)"
  let ?m = "(run_manager s)\<lparr>from_ws_rx := Some \<lparr>queue = updates, rx_open = True\<rparr>\<rparr>"
  have l: "link ?m \<lparr>queue = se_ins v, rx_open = True\<rparr>" using s by (simp add: session_defs link_def)
  have "lost_flow ?m = Active"
    using assms s by (auto simp: session_defs recovery_defs lost_flow_def is_auto_reconnect_enabled_def)
  with assms s connection_lost_eq [OF l, of "''Server closed connection''"]
  show "\<exists>s'. run_turn e consume_doc FromWebSocket s = Some s' \<and> shows_session connection url s'
      (v\<lparr>se_updates := updates, se_ins := se_ins v @ [Input.Error], se_flow := Active\<rparr>) \<and>
      recovers e connection url (run_manager s') \<and> keeps_details s s'"
    by (auto simp: session_defs handler_at_def chan_recv_def manager_step_def Let_def
        chan_pushes_def [of "\<lparr>queue = _, rx_open = _\<rparr>"] recovery_defs)
qed

text \<open>The manager asks a handler that has ended to disconnect, and resets.\<close>

lemma reset_disk:
  assumes "link m c"
  shows "disk (force_manager_reset e reason m) = disk m"
    "data_dir (force_manager_reset e reason m) = data_dir m"
  using assms unfolding link_def
  by (simp_all add: force_manager_reset_eq Let_def check_network_def import_persisted_state_eq
      cleared_def shut_down_ws_eq)

lemma recovers_reset:
  assumes "recovers e connection url m" "link m c" "in_reconnect_flow m"
  shows "recovers e connection url (force_manager_reset e reason m)"
proof -
  note disk = reset_disk [OF assms(2)]
  note r = reset_fields [OF assms(2), where e = e and reason = reason]
  have "remembered_url e (force_manager_reset e reason m) = remembered_url e m"
    using assms(3)
    by (cases "read_persisted_state e (disk m) (data_dir m)") (simp_all add: remembered_url_def disk r)
  with assms show ?thesis
    by (simp add: recovers_def r load_is_tv_on_network_def nc_check_now_def)
qed

lemma recover_reset:
  assumes "se_phase v = Some WsEnded" "\<not> se_manual v" "se_flow v = Active"
    "se_outs v = StateMachineUpdateMessage.Output DisconnectFromTv # outs"
  shows "recovery_turn e connection url FromStateMachine v (v\<lparr>se_outs := outs,
    se_ins := se_ins v @ [Reset], se_phase := None, se_ready := False\<rparr>)"
proof (rule recovery_turnI)
  fix s
  assume s: "shows_session connection url s v" "recovers e connection url (run_manager s)"
  let ?m = "run_manager s"
  define m where "m = optionally_prepare_for_reconnect ?m"
  let ?r = "force_manager_reset e
    ''Cannot send message to WebSocket handler: channel unexpectedly closed'' m"
  have flow: "lost_flow ?m = Active"
    using assms s by (auto simp: session_defs recovery_defs lost_flow_def is_auto_reconnect_enabled_def)
  from s(1) assms(1) obtain t ins where h: "ws_join_handle ?m = Some t"
    "to_ws_tx ?m = Some \<lparr>queue = ins, rx_open = False\<rparr>"
    by (auto simp: session_defs handler_at_def)
  have m: "link m \<lparr>queue = se_ins v, rx_open = True\<rparr>" "in_reconnect_flow m"
    "reconnect_flow_status m = Active" "recovers e connection url m"
    "ws_join_handle m = Some t" "to_ws_tx m = Some \<lparr>queue = ins, rx_open = False\<rparr>"
    "manager_status m = se_status v" "command_rx m = \<lparr>queue = se_calls v, rx_open = True\<rparr>"
    "connection_details m = Some connection" "\<not> is_manual_disconnect_requested m"
    "disk m = disk ?m" "data_dir m = data_dir ?m"
    using s flow h assms(2) by (simp_all add: m_def optionally_prepare_eq session_defs link_def
        in_reconnect_flow_def recovery_defs)
  have run: "handle_output e DisconnectFromTv ?m = ?r"
    by (simp add: m_def [symmetric] initiate_disconnect_from_tv_def send_to_ws_def chan_send_def m)
  note l = m(1) and r = m(2)
  note f = reset_fields [OF l, where e = e]
  have init: "\<not> is_connection_initialized ?r"
    using l unfolding link_def
    by (simp add: force_manager_reset_eq Let_def check_network_def import_persisted_state_eq cleared_def)
  have "run_turn e consume_doc FromStateMachine s = Some (manager_step (\<lambda>_. ?r)
      (s\<lparr>run_fsm := (run_fsm s)\<lparr>fsm_tx := \<lparr>queue = outs, rx_open = True\<rparr>\<rparr>\<rparr>))"
    using s(1) assms(4) run
    by (simp add: session_defs chan_recv_def manager_step_def Let_def del: handle_output.simps)
  moreover have "recovers e connection url ?r" by (rule recovers_reset [OF m(4) l r])
  moreover have "ws_url ?r \<noteq> None" using m(4) r by (simp add: f recovers_def remembered_url_def)
  moreover have "shows_session connection url (manager_step (\<lambda>_. ?r)
      (s\<lparr>run_fsm := (run_fsm s)\<lparr>fsm_tx := \<lparr>queue = outs, rx_open = True\<rparr>\<rparr>\<rparr>)) (v\<lparr>se_outs := outs,
        se_ins := se_ins v @ [Reset], se_phase := None, se_ready := False\<rparr>)"
    using s(1) assms init
    by (simp add: session_defs manager_step_def Let_def chan_pushes_def f m)
  ultimately show "\<exists>s'. run_turn e consume_doc FromStateMachine s = Some s' \<and>
      shows_session connection url s' (v\<lparr>se_outs := outs, se_ins := se_ins v @ [Reset],
        se_phase := None, se_ready := False\<rparr>) \<and> recovers e connection url (run_manager s') \<and>
      keeps_details s s'"
    by (auto simp: manager_step_def Let_def keeps_details_def reset_disk [OF l] m)
qed

text \<open>The end of the disconnect: the manager waits, and asks for the connection again.\<close>

lemma recover_reconnect:
  assumes "\<not> se_manual v" "se_flow v = Active" "se_status v = State.Disconnected" "se_phase v = None"
    "se_outs v = StateMachineUpdateMessage.Output HandleSuccessfulDisconnect # outs"
  shows "recovery_turn e connection url FromStateMachine v (v\<lparr>se_outs := outs,
    se_ins := se_ins v @ [Input.Connect url], se_flow := initial_flow connection, se_ready := False\<rparr>)"
proof (rule recovery_turnI)
  fix s
  assume s: "shows_session connection url s v" "recovers e connection url (run_manager s)"
  let ?m = "run_manager s"
  define m where "m = initialize_manager_state e
    (await_ws_handler e (?m\<lparr>is_manual_disconnect_requested := False\<rparr>))"
  let ?c = "\<lparr>queue = se_ins v, rx_open = True\<rparr>"
  from s assms have i: "to_fsm_tx ?m = Some ?c" "manager_status ?m = State.Disconnected"
    "connection_details ?m = Some connection" "reconnect_flow_status ?m = Active"
    "command_rx ?m = \<lparr>queue = se_calls v, rx_open = True\<rparr>"
    by (simp_all add: session_defs)
  have m: "link m ?c" "manager_status m = State.Disconnected" "connection_details m = Some connection"
    "reconnect_flow_status m = Active" "command_rx m = \<lparr>queue = se_calls v, rx_open = True\<rparr>"
    "\<not> is_manual_disconnect_requested m" "\<not> is_connection_initialized m"
    "recovers e connection url m" "ws_url m = remembered_url e ?m"
    "disk m = disk ?m" "data_dir m = data_dir ?m"
    using i s(2)
    by (auto simp: m_def initialize_manager_state_eq Let_def check_network_def import_persisted_state_eq
        cleared_def link_def in_reconnect_flow_def recovery_defs nc_check_now_def from_disk_def
        split: sum.splits)
  then have can: "can_reconnect e connection url ?c m" and pairing: "\<not> is_pairing m"
    using s(2) by (auto simp: can_reconnect_def recovers_def)
  note r = reconnect_fields [OF can, where immediate = False]
  have run: "handle_output e HandleSuccessfulDisconnect ?m = initiate_reconnect e False m"
    using m(4) pairing by (simp add: handle_disconnected_def m_def Let_def)
  have "recovers e connection url (initiate_reconnect e False m)"
    using m(8) by (auto simp: recovery_defs r pairing from_disk_def split: sum.splits)
  moreover have "run_turn e consume_doc FromStateMachine s = Some (manager_step
      (\<lambda>_. initiate_reconnect e False m)
      (s\<lparr>run_fsm := (run_fsm s)\<lparr>fsm_tx := \<lparr>queue = outs, rx_open = True\<rparr>\<rparr>\<rparr>))"
    using s(1) assms(5) run
    by (simp add: session_defs chan_recv_def manager_step_def Let_def del: handle_output.simps)
  moreover have "shows_session connection url (manager_step (\<lambda>_. initiate_reconnect e False m)
      (s\<lparr>run_fsm := (run_fsm s)\<lparr>fsm_tx := \<lparr>queue = outs, rx_open = True\<rparr>\<rparr>\<rparr>)) (v\<lparr>se_outs := outs,
      se_ins := se_ins v @ [Input.Connect url], se_flow := initial_flow connection, se_ready := False\<rparr>)"
    using s(1) assms m
    by (simp add: session_defs manager_step_def Let_def chan_pushes_def r)
  ultimately show "\<exists>s'. run_turn e consume_doc FromStateMachine s = Some s' \<and>
      shows_session connection url s' (v\<lparr>se_outs := outs, se_ins := se_ins v @ [Input.Connect url],
        se_flow := initial_flow connection, se_ready := False\<rparr>) \<and>
      recovers e connection url (run_manager s') \<and> keeps_details s s'"
    by (auto simp: manager_step_def Let_def keeps_details_def r m)
qed

section \<open>The protocol of a recovery\<close>

text \<open>The recovery as a machine on the view, like \<open>session_next\<close>.\<close>

fun recovery_report ::
    "Connection \<Rightarrow> string \<Rightarrow> StateMachineUpdateMessage \<Rightarrow> session \<Rightarrow> session option" where
  "recovery_report connection url (StateMachineUpdateMessage.State x) v = Some (v\<lparr>se_status := x\<rparr>)"
| "recovery_report connection url (StateMachineUpdateMessage.Output DisconnectFromTv) v =
     (if se_phase v = Some WsEnded \<and> \<not> se_manual v \<and> se_flow v = Active
      then Some (v\<lparr>se_ins := se_ins v @ [Reset], se_phase := None, se_ready := False\<rparr>) else None)"
| "recovery_report connection url (StateMachineUpdateMessage.Output HandleSuccessfulDisconnect) v =
     (if se_phase v = None \<and> \<not> se_manual v \<and> se_flow v = Active \<and> se_status v = State.Disconnected
      then Some (v\<lparr>se_ins := se_ins v @ [Input.Connect url], se_flow := initial_flow connection,
        se_ready := False\<rparr>) else None)"
| "recovery_report connection url _ v = None"

fun recovery_update :: "WsUpdateMessage \<Rightarrow> session \<Rightarrow> session option" where
  "recovery_update (WsUpdateMessage.Status WsStatus.Disconnected) v =
     Some (v\<lparr>se_ins := se_ins v @ [DisconnectionComplete]\<rparr>)"
| "recovery_update (WsUpdateMessage.Status ServerClosedConnection) v =
     (if \<not> se_manual v \<and> se_flow v \<noteq> Cancelled
      then Some (v\<lparr>se_ins := se_ins v @ [Input.Error], se_flow := Active\<rparr>) else None)"
| "recovery_update _ v = None"

fun recovery_next :: "Connection \<Rightarrow> string \<Rightarrow> turn \<Rightarrow> session \<Rightarrow> session option" where
  "recovery_next connection url FsmReceives v = (case se_ins v of
       [] \<Rightarrow> None
     | i # ins \<Rightarrow> Some (v\<lparr>se_fsm := fsm_next (se_fsm v) i, se_ins := ins,
         se_outs := se_outs v @ fsm_report consume_doc (se_fsm v) i\<rparr>))"
| "recovery_next connection url FromStateMachine v = (case se_outs v of
       [] \<Rightarrow> None | msg # outs \<Rightarrow> recovery_report connection url msg (v\<lparr>se_outs := outs\<rparr>))"
| "recovery_next connection url FromWebSocket v = (case (se_phase v, se_updates v) of
       (Some _, u # updates) \<Rightarrow> recovery_update u (v\<lparr>se_updates := updates\<rparr>)
     | _ \<Rightarrow> None)"
| "recovery_next connection url (WsTurn (Incoming (Inr Close))) v = (if se_phase v = Some WsRunning
     then Some (v\<lparr>se_phase := Some WsEnded, se_waiting := [], se_updates := se_updates v @
       [WsUpdateMessage.Status ServerClosedConnection, WsUpdateMessage.Status WsStatus.Disconnected],
       se_written := se_written v\<rparr>)
     else None)"
| "recovery_next connection url _ v = None"

lemma recovery_report_turn:
  assumes "se_outs v = msg # outs" "recovery_report connection url msg (v\<lparr>se_outs := outs\<rparr>) = Some v'"
  shows "recovery_turn e connection url FromStateMachine v v'"
proof (cases msg)
  case (State x)
  with assms recover_status [of v x outs] show ?thesis by auto
next
  case (Output x)
  with assms recover_reset [of v outs] recover_reconnect [of v outs] show ?thesis
    by (cases x) (auto split: if_splits)
qed (use assms in simp)

lemma recovery_update_turn:
  assumes "se_phase v = Some phase" "se_updates v = u # updates"
    "recovery_update u (v\<lparr>se_updates := updates\<rparr>) = Some v'"
  shows "recovery_turn e connection url FromWebSocket v v'"
proof (cases "(u, v)" rule: recovery_update.cases)
  case (1 v)
  with assms recover_disconnected [of v phase updates] show ?thesis by simp
next
  case (2 v)
  with assms recover_server_closed [of v phase updates] show ?thesis by (auto split: if_splits)
qed (use assms in simp_all)

lemma recovery_refined:
  assumes "recovery_next connection url t v = Some v'"
  shows "recovery_turn e connection url t v v'"
proof (cases "(connection, url, t, v)" rule: recovery_next.cases)
  case (1 connection url v)
  with assms recover_fsm [of v] show ?thesis by (auto split: list.splits)
next
  case (2 connection url v)
  with assms show ?thesis by (auto split: list.splits intro: recovery_report_turn)
next
  case (3 connection url v)
  with assms show ?thesis by (auto split: list.splits option.splits intro: recovery_update_turn)
next
  case (4 connection url v)
  with assms recover_closed [of v] show ?thesis by (auto split: if_splits)
qed (use assms in simp_all)

fun recovery_runs :: "Connection \<Rightarrow> string \<Rightarrow> turn list \<Rightarrow> session \<Rightarrow> session option" where
  "recovery_runs connection url [] v = Some v"
| "recovery_runs connection url (t # ts) v =
     Option.bind (recovery_next connection url t v) (recovery_runs connection url ts)"

lemma recovery_runs_refined:
  "recovery_runs connection url ts v = Some v' \<Longrightarrow> shows_session connection url s v \<Longrightarrow>
    recovers e connection url (run_manager s) \<Longrightarrow>
    \<exists>s'. run_turns e consume_doc ts s = Some s' \<and> shows_session connection url s' v' \<and>
      recovers e connection url (run_manager s') \<and> keeps_details s s'"
proof (induction ts arbitrary: s v)
  case Nil
  then show ?case by (simp add: keeps_details_def)
next
  case (Cons t ts)
  then obtain w where w: "recovery_next connection url t v = Some w"
    "recovery_runs connection url ts w = Some v'"
    by (cases "recovery_next connection url t v") auto
  from recovery_refined [OF w(1), of e] Cons.prems(2,3) obtain s1 where
    "run_turn e consume_doc t s = Some s1" "shows_session connection url s1 w"
    "recovers e connection url (run_manager s1)" "keeps_details s s1" by (auto simp: recovery_turn_def)
  with Cons.IH [OF w(2) this(2,3)] show ?case by (auto simp: keeps_details_def)
qed

section \<open>From communicating to communicating\<close>

definition recovery_turns :: "turn list" where
  "recovery_turns = [WsTurn (Incoming (Inr Close)), FromWebSocket, FromWebSocket,
     FsmReceives, FsmReceives, FromStateMachine, FromStateMachine, FromStateMachine,
     FromStateMachine, FsmReceives, FromStateMachine]"

definition session_again :: "Connection \<Rightarrow> string \<Rightarrow> session" where
  "session_again connection url =
     (session_start url (initial_flow connection))\<lparr>se_written := replicate 7 (Text [])\<rparr>"

lemma recovery_session:
  "recovery_runs connection url recovery_turns (session_communicating url) =
    Some (session_again connection url)"
  by (simp add: recovery_turns_def session_communicating_def session_again_def session_start_def
      fsm_next_def fsm_report_def)

text \<open>What the last handler has written is no part of a view without a handler.\<close>

lemma again_starts:
  "shows_session connection url s (session_again connection url) =
    shows_session connection url s (session_start url (initial_flow connection))"
  by (simp add: session_defs session_again_def session_start_def)

text \<open>A lost connection is made again. If the TV closes the connection of a communicating manager
  with automatic reconnects that is not held back by the network checker and remembers a URL, and
  the manager takes the handler's last message before it acts on the machine's request to
  disconnect, it resets, waits, asks for the same connection and, once the TV answers as before,
  communicates again.\<close>

theorem lost_connection_restored:
  assumes "shows_session connection url s (session_communicating url)"
    and "recovers e connection url (run_manager s)"
    and "registers e" "url_parse e url = Inr u"
    and "response_from_text e reg = Some (Registered r)"
    and "response_from_text e vol = Some (LgTvResponse.Command c)" "volume_of (cr_payload c) \<noteq> None"
  shows "\<exists>s'. run_turns e consume_doc (recovery_turns @ handshake_turns reg vol) s = Some s' \<and>
    shows_session connection url s' (session_communicating url)"
proof -
  from recovery_runs_refined [OF recovery_session assms(1,2)] obtain s1 where
    1: "run_turns e consume_doc recovery_turns s = Some s1"
    "shows_session connection url s1 (session_start url (initial_flow connection))"
    by (auto simp: again_starts)
  from session_runs_refined [OF handshake_session [OF assms(3-7)] 1(2)] obtain s2 where
    "run_turns e consume_doc (handshake_turns reg vol) s1 = Some s2"
    "shows_session connection url s2 (session_communicating url)" by blast
  with 1(1) show ?thesis unfolding run_turns_append by simp
qed

text \<open>A TV given by its name: the checker has nothing to ping and is not asked.\<close>

definition without_checker :: "Run \<Rightarrow> Run" where
  "without_checker s = s\<lparr>run_manager := (run_manager s)
     \<lparr>ws_url := Some ''wss://tv:3001/'', is_pairing := False, disk := demo_disk, data_dir := None,
      tv_on_network_checker := nc_new\<rparr>\<rparr>"

theorem lost_connection_restored_witness:
  "\<exists>s s'. shows_session (demo_connection True True) ''wss://tv:3001/'' s
       (session_communicating ''wss://tv:3001/'') \<and>
     run_turns demo_session consume_doc (recovery_turns @ handshake_turns ''reg'' ''vol'') s = Some s' \<and>
     manager_status (run_manager s') = Communicating ''wss://tv:3001/''"
proof -
  let ?c = "demo_connection True True" and ?url = "''wss://tv:3001/''"
  obtain s where "shows_session ?c ?url s (session_communicating ?url)" by (rule demo_stages)
  then have s: "shows_session ?c ?url (without_checker s) (session_communicating ?url)"
    by (simp add: session_defs handler_at_def without_checker_def)
  have "read_persisted_state demo_session demo_disk None =
      Inl ''Could not read persisted state: Os { code: 2, kind: NotFound }''"
    by (simp add: demo_session_def read_persisted_state_def get_data_file_def demo_disk_def file_open_def)
  then have r: "recovers demo_session ?c ?url (run_manager (without_checker s))"
    using demo_session_url by (simp add: recovery_defs without_checker_def nc_new_def)
  obtain c where c: "response_from_text demo_session ''vol'' = Some (LgTvResponse.Command c)"
    "volume_of (cr_payload c) \<noteq> None" by (rule demo_session_volume)
  from lost_connection_restored [OF s r demo_session_registers demo_session_parse demo_session_texts(1) c]
    s show ?thesis by (auto simp: session_defs session_communicating_def)
qed

section \<open>Again and again\<close>

text \<open>
  After a handshake the manager can recover as before, if its disk works: the registration has
  put the URL on it.
\<close>

definition disk_works :: "Disk \<Rightarrow> path option \<Rightarrow> bool" where
  "disk_works d dir \<longleftrightarrow> (\<exists>p. get_data_file d dir = Inr p) \<and>
     (\<forall>p. disk_open d p = None \<and> disk_read d p = None \<and> disk_create d p = None \<and> disk_write d p = None)"

text \<open>The persisted state reads back from the text it was written as.\<close>

definition persists :: "'u ext \<Rightarrow> bool" where
  "persists e \<longleftrightarrow> (\<forall>st t. json_to_text e (json_of_PersistedState st) = Inr t \<longrightarrow>
     json_from_text e t = Some (json_of_PersistedState st))"

definition steady :: "'u ext \<Rightarrow> Connection \<Rightarrow> string \<Rightarrow> Manager \<Rightarrow> bool" where
  "steady e connection url m \<longleftrightarrow> recovers e connection url m \<and> disk_works (disk m) (data_dir m) \<and>
     ws_url m \<noteq> None"

lemma steady_frame:
  assumes "steady e connection url m" "ws_url m' = ws_url m" "disk m' = disk m"
    "data_dir m' = data_dir m" "\<not> is_pairing m'" "is_tv_on_network m' = is_tv_on_network m"
    "tv_on_network_checker m' = tv_on_network_checker m"
  shows "steady e connection url m'"
  using assms by (simp add: steady_def recovery_defs)

lemma write_works:
  assumes "disk_works d dir" "persists e" "registers e"
  obtains d' where "write_persisted_state e d st dir = (Inr (), d')"
    "read_persisted_state e d' dir = Inr st" "disk_works d' dir"
proof -
  from assms(1) obtain p where p: "get_data_file d dir = Inr p" by (auto simp: disk_works_def)
  from assms(3) obtain t where t: "json_to_text e (json_of_PersistedState st) = Inr t"
    by (auto simp: registers_def)
  have free: "disk_open d q = None" "disk_read d q = None" "disk_create d q = None" "disk_write d q = None" for q
    using assms(1) by (simp_all add: disk_works_def)
  have w: "write_persisted_state e d st dir = (Inr (), set_file d p t)"
    by (simp add: write_persisted_state_def p t free file_create_def file_write_all_def)
  moreover have "read_persisted_state e (set_file d p t) dir = Inr st"
    using assms(2) t p free
    by (simp add: persists_def read_persisted_state_def file_open_def persisted_from_text_def)
  moreover have "disk_works (set_file d p t) dir"
    using p free by (simp add: disk_works_def)
  ultimately show thesis by (rule that)
qed

lemma steady_registered:
  assumes "steady e connection url m" "persists e" "registers e" "to_fsm_tx m = Some c" "rx_open c"
  shows "steady e connection url (snd (handle_lgtv_response e (Registered r) m))"
proof -
  let ?st = "\<lparr>per_ws_url = ws_url m, per_client_key = Some (rp_client_key (rr_payload r)),
    per_mac_addr = map_option (mac_to_string e) (mac_addr m)\<rparr>"
  from assms(1) have "disk_works (disk m) (data_dir m)" by (simp add: steady_def)
  from write_works [OF this assms(2,3), of ?st] obtain d' where
    w: "write_persisted_state e (disk m) ?st (data_dir m) = (Inr (), d')"
    "read_persisted_state e d' (data_dir m) = Inr ?st" "disk_works d' (data_dir m)" by blast
  have "snd (handle_lgtv_response e (Registered r) m) =
      m\<lparr>client_key := Some (rp_client_key (rr_payload r)), disk := d',
        to_fsm_tx := Some (chan_pushes c [Initialize]),
        output_tx := chan_pushes (output_tx m)
          [IsWakeLastSeenTvAvailable (load_is_tv_on_network m \<and> mac_addr m \<noteq> None)]\<rparr>"
    using assms(4,5)
    by (simp add: handle_lgtv_response_def manager_write_persisted_state_def w(1) manager_defs
        send_to_fsm_eq Let_def load_is_tv_on_network_def)
  with assms(1) w(2,3) show ?thesis by (simp add: steady_def recovery_defs)
qed

text \<open>The other messages of a handshake do not touch what a recovery depends on.\<close>

lemma register_frame:
  assumes "registers e" "to_ws_tx m = Some c" "rx_open c"
  obtains n tx where "send_register_payload e m = m\<lparr>uuid_count := n, to_ws_tx := tx\<rparr>"
proof -
  let ?force = "case connection_details m of None \<Rightarrow> False | Some c \<Rightarrow> cs_force_pairing (settings_of c)"
  from assms(1) obtain req n where
    g: "generate_register_request e (client_key m) ?force (uuid_count m) = (Inr req, n)"
    by (auto simp: registers_def generate_register_request_def Let_def generate_lgtv_message_id_def)
  from assms(1) obtain t where t: "json_to_text e (json_of_LgTvRequest req) = Inr t"
    by (auto simp: registers_def)
  from g t assms(2,3) have "send_register_payload e m = m\<lparr>uuid_count := n, to_ws_tx := Some (chan_pushes c [WsMessage.Payload t])\<rparr>"
    by (simp add: send_register_payload_def send_to_ws_def chan_send_pushes)
  then show thesis by (rule that)
qed

lemma open_handler:
  assumes "shows_session connection url s v" "add_waiting msgs v' = Some v''" "se_phase v' = se_phase v"
  obtains c where "to_ws_tx (run_manager s) = Some c" "rx_open c"
proof -
  from add_waitingD [OF assms(2)] assms(3) obtain phase where "se_phase v = Some phase" "phase \<noteq> WsEnded"
    by auto
  with assms(1) that show thesis by (auto simp: shows_session_def handler_at_def)
qed

lemma steady_report:
  assumes "steady e connection url (run_manager s)" "shows_session connection url s v"
    "session_report e url msg (v\<lparr>se_outs := outs\<rparr>) = Some v'"
  shows "steady e connection url (handle_state_machine_update e msg (run_manager s))"
proof (cases msg)
  case (State x)
  then show ?thesis by (auto intro!: steady_frame [OF assms(1)] simp: set_manager_status_eq
        assms(1) [unfolded steady_def recovers_def])
next
  case (Output x)
  have pairing: "\<not> is_pairing (run_manager s)" using assms(1) by (simp add: steady_def recovers_def)
  note frame = steady_frame [OF assms(1)]
  show ?thesis
  proof (cases x)
    case (ConnectToTv host)
    with Output pairing show ?thesis
      by (auto intro!: frame simp: start_websocket_handler_and_connect_def Let_def)
  next
    case SendRegisterPayload
    with Output assms(3) obtain c where c: "registers e" "to_ws_tx (run_manager s) = Some c" "rx_open c"
      by (auto split: if_splits elim: open_handler [OF assms(2)])
    let ?m = "(set_reconnect_flow_status Inactive (run_manager s))
      \<lparr>session_connection_count := session_connection_count (run_manager s) + 1\<rparr>"
    have "to_ws_tx ?m = Some c" using c(2) by (simp add: set_reconnect_flow_status_eq)
    from register_frame [OF c(1) this c(3)] obtain n tx where
      "send_register_payload e ?m = ?m\<lparr>uuid_count := n, to_ws_tx := tx\<rparr>" by blast
    with Output SendRegisterPayload pairing show ?thesis
      by (auto intro!: frame simp: set_reconnect_flow_status_eq)
  next
    case InitializeConnection
    with Output assms(3) obtain c where "to_ws_tx (run_manager s) = Some c" "rx_open c"
      by (auto split: if_splits elim: open_handler [OF assms(2)])
    with Output InitializeConnection pairing show ?thesis
      by (auto intro!: frame simp: initialize_connection_def Let_def send_command_open split: option.split)
  next
    case (SendCommand c)
    with Output assms(3) obtain c where "to_ws_tx (run_manager s) = Some c" "rx_open c"
      by (auto split: if_splits elim: open_handler [OF assms(2)])
    with Output SendCommand pairing show ?thesis by (auto intro!: frame simp: send_command_open)
  next
    case DisconnectFromTv
    with Output assms(3) obtain c where "to_ws_tx (run_manager s) = Some c" "rx_open c" "se_manual v"
      by (auto split: if_splits elim: open_handler [OF assms(2)])
    with Output DisconnectFromTv pairing assms(2) show ?thesis
      by (auto intro!: frame simp: session_defs optionally_prepare_for_reconnect_def
          initiate_disconnect_from_tv_def send_to_ws_def chan_send_def)
  qed (use Output assms(3) in auto)
qed (use assms(3) in simp)

lemma steady_volume:
  assumes "steady e connection url m" "to_fsm_tx m = Some c" "rx_open c" "volume_of (cr_payload cr) \<noteq> None"
  shows "steady e connection url (snd (handle_lgtv_response e (LgTvResponse.Command cr) m))"
proof -
  have pairing: "\<not> is_pairing m" using assms(1) by (simp add: steady_def recovers_def)
  obtain x where "volume_of (cr_payload cr) = Some x" using assms(4) by blast
  from volume_payload [OF this] obtain ts where
    p: "handle_payload e (cr_payload cr) m = emit_tv_state ((complete_initialization e m)\<lparr>tv_state := ts\<rparr>)"
    by blast
  let ?m1 = "m\<lparr>to_fsm_tx := Some (chan_pushes c [StartCommunication]), is_connection_initialized := True\<rparr>"
  obtain ip b where h: "set_host_ip_from_ws_url e ?m1 = ?m1\<lparr>tv_host_ip := ip, tv_host_ip_notifier := b\<rparr>"
    by (rule host_frame)
  have "complete_initialization e m = m \<or>
      complete_initialization e m = ?m1\<lparr>tv_host_ip := ip, tv_host_ip_notifier := b\<rparr>"
    using h by (simp add: complete_initialization_def send_to_fsm_eq [OF assms(2,3)] Let_def)
  with p pairing assms(2) show ?thesis
    by (auto intro!: steady_frame [OF assms(1)] simp: handle_lgtv_response_def manager_defs
        simp del: handle_payload.simps)
qed

lemma steady_response:
  assumes "steady e connection url m" "to_fsm_tx m = Some c" "volume_of (cr_payload cr) = None"
    "\<not> is_pair (cr_payload cr)"
  shows "steady e connection url (snd (handle_lgtv_response e (LgTvResponse.Command cr) m))"
proof -
  have pairing: "\<not> is_pairing m" using assms(1) by (simp add: steady_def recovers_def)
  from payload_keeps [OF assms(4), of m e] assms(3) obtain sw inputs info ts out where
    "handle_payload e (cr_payload cr) m = m\<lparr>tv_software_info := sw, tv_inputs := inputs,
       tv_info := info, tv_state := ts, output_tx := out\<rparr>" by blast
  with pairing assms(2) show ?thesis
    by (auto intro!: steady_frame [OF assms(1)] simp: handle_lgtv_response_def
        simp del: handle_payload.simps)
qed

lemma steady_update:
  assumes "steady e connection url m" "persists e" "registers e" "to_fsm_tx m = Some c" "rx_open c"
    "session_update e u v = Some v'" "is_connection_initialized m = se_ready v"
  shows "steady e connection url (handle_ws_message e u m)"
proof -
  note frame = steady_frame [OF assms(1)]
  have pairing: "\<not> is_pairing m" using assms(1) by (simp add: steady_def recovers_def)
  have fsm: "steady e connection url (send_to_fsm x m)" for x
    using pairing by (auto intro!: frame simp: send_to_fsm_eq [OF assms(4,5)])
  show ?thesis
  proof (cases "(e, u, v)" rule: session_update.cases)
    case (4 e' p w)
    then have 4: "u = WsUpdateMessage.Payload p" by simp
    show ?thesis
    proof (cases "response_from_text e p")
      case (Some r)
      show ?thesis
      proof (cases r)
        case (Registered reg)
        with Some 4 steady_registered [OF assms(1-5)] show ?thesis by simp
      next
        case (Command cr)
        with Some 4 assms(6) have "volume_of (cr_payload cr) \<noteq> None \<or> \<not> is_pair (cr_payload cr)"
          by (auto split: if_splits)
        with Some 4 Command steady_volume [OF assms(1,4,5), of cr] steady_response [OF assms(1,4), of cr]
        show ?thesis by (cases "volume_of (cr_payload cr)") auto
      qed (use Some 4 assms(6) in simp)
    qed (use 4 assms(6) in simp)
  qed (use assms(1,6) fsm in simp_all)
qed

text \<open>Every turn of a session leaves a steady manager steady.\<close>

lemma steady_outside:
  assumes "steady e connection url (run_manager s)" "run_turn e consume t s = Some s'"
    "t = FsmReceives \<or> (\<exists>ev. t = WsTurn ev) \<or> (\<exists>msg. t = CallerSends msg)"
  shows "steady e connection url (run_manager s')"
proof -
  have pairing: "\<not> is_pairing (run_manager s)" using assms(1) by (simp add: steady_def recovers_def)
  from assms(2,3) pairing show ?thesis
    by (intro steady_frame [OF assms(1)])
       (auto simp: fsm_task_turn_def manager_step_def Let_def ws_turn_frame ws_turn_def
         split: if_splits option.splits sum.splits)
qed

lemma steady_next:
  assumes "session_next e url t v = Some v'" "shows_session connection url s v"
    "steady e connection url (run_manager s)" "persists e" "registers e"
  shows "\<exists>s'. run_turn e consume_doc t s = Some s' \<and> shows_session connection url s' v' \<and>
    steady e connection url (run_manager s')"
proof -
  from session_refined [OF assms(1,2)] obtain s' where
    s': "run_turn e consume_doc t s = Some s'" "shows_session connection url s' v'" by blast
  note outside = steady_outside [OF assms(3) s'(1)]
  have pairing: "\<not> is_pairing (run_manager s)" using assms(3) by (simp add: steady_def recovers_def)
  have "steady e connection url (run_manager s')"
  proof (cases "(e, url, t, v)" rule: session_next.cases)
    case (2 e' url' w)
    with assms(1) obtain msg outs where m: "se_outs v = msg # outs"
      "session_report e url msg (v\<lparr>se_outs := outs\<rparr>) = Some v'" by (auto split: list.splits)
    with 2 s'(1) assms(2) have "run_manager s' = handle_state_machine_update e msg (run_manager s)"
      by (auto simp: session_defs chan_recv_def manager_step_def Let_def
          simp del: handle_state_machine_update.simps)
    with steady_report [OF assms(3,2) m(2)] show ?thesis by simp
  next
    case (3 e' url' w)
    with assms(1) obtain phase u updates where u: "se_phase v = Some phase" "se_updates v = u # updates"
      "session_update e u (v\<lparr>se_updates := updates\<rparr>) = Some v'"
      by (auto split: list.splits option.splits)
    let ?m = "(run_manager s)\<lparr>from_ws_rx := Some \<lparr>queue = updates, rx_open = True\<rparr>\<rparr>"
    from 3 u s'(1) assms(2) have "run_manager s' = handle_ws_message e u ?m"
      by (auto simp: session_defs handler_at_def chan_recv_def manager_step_def Let_def
          simp del: handle_ws_message.simps)
    moreover have "steady e connection url ?m" using pairing by (auto intro!: steady_frame [OF assms(3)])
    ultimately show ?thesis
      using steady_update [OF _ assms(4,5) _ _ u(3), of connection url ?m "\<lparr>queue = se_ins v, rx_open = True\<rparr>"]
        assms(2) by (simp add: session_defs)
  next
    case (6 e' url' w)
    then have t: "t = FromCaller" by simp
    from assms(1,2) s'(1) pairing show ?thesis unfolding t
      by (intro steady_frame [OF assms(3)])
         (auto simp: session_defs chan_recv_def manager_step_def Let_def send_to_fsm_def chan_send_def
           split: list.splits ManagerMessage.splits)
  qed (use assms(1) outside in auto)
  with s' show ?thesis by blast
qed

lemma steady_session_runs:
  "session_runs e url ts v = Some v' \<Longrightarrow> shows_session connection url s v \<Longrightarrow>
    steady e connection url (run_manager s) \<Longrightarrow> persists e \<Longrightarrow> registers e \<Longrightarrow>
    \<exists>s'. run_turns e consume_doc ts s = Some s' \<and> shows_session connection url s' v' \<and>
      steady e connection url (run_manager s')"
proof (induction ts arbitrary: s v)
  case Nil
  then show ?case by simp
next
  case (Cons t ts)
  then obtain w where w: "session_next e url t v = Some w" "session_runs e url ts w = Some v'"
    by (cases "session_next e url t v") auto
  from steady_next [OF w(1) Cons.prems(2-5)] obtain s1
    where s1: "run_turn e consume_doc t s = Some s1" "shows_session connection url s1 w"
      "steady e connection url (run_manager s1)" by blast
  from Cons.IH [OF w(2) s1(2,3) Cons.prems(4,5)] s1(1) show ?case by auto
qed

text \<open>A recovery and the handshake after it keep the manager steady.\<close>

lemma reconnects_once:
  assumes "shows_session connection url s (session_communicating url)"
    and "steady e connection url (run_manager s)" "persists e"
    and "registers e" "url_parse e url = Inr u"
    and "response_from_text e reg = Some (Registered r)"
    and "response_from_text e vol = Some (LgTvResponse.Command c)" "volume_of (cr_payload c) \<noteq> None"
  shows "\<exists>s'. run_turns e consume_doc (recovery_turns @ handshake_turns reg vol) s = Some s' \<and>
    shows_session connection url s' (session_communicating url) \<and> steady e connection url (run_manager s')"
proof -
  from assms(2) have r: "recovers e connection url (run_manager s)"
    and d: "disk_works (disk (run_manager s)) (data_dir (run_manager s))"
    by (simp_all add: steady_def)
  from recovery_runs_refined [OF recovery_session assms(1) r] obtain s1 where
    1: "run_turns e consume_doc recovery_turns s = Some s1"
    "shows_session connection url s1 (session_start url (initial_flow connection))"
    "recovers e connection url (run_manager s1)" "keeps_details s s1"
    by (auto simp: again_starts)
  from 1(3,4) d assms(2) have "steady e connection url (run_manager s1)"
    by (simp add: steady_def keeps_details_def)
  from steady_session_runs [OF handshake_session [OF assms(4-8)] 1(2) this assms(3,4)] obtain s2 where
    "run_turns e consume_doc (handshake_turns reg vol) s1 = Some s2"
    "shows_session connection url s2 (session_communicating url)"
    "steady e connection url (run_manager s2)" by blast
  with 1(1) show ?thesis unfolding run_turns_append by simp
qed


text \<open>A TV that answers with the same two texts, and JSON texts from which the persisted state reads back.\<close>

definition demo_stored :: "demo_url ext" where
  "demo_stored = demo_session\<lparr>json_to_text := \<lambda>j. case demo_to_text j of
     Inl _ \<Rightarrow> Inr ''json'' | Inr t \<Rightarrow> Inr t\<rparr>"

lemma demo_stored_persists: "persists demo_stored"
proof -
  have "json_from_text demo_stored t = Some (json_of_PersistedState st)"
    if "json_to_text demo_stored (json_of_PersistedState st) = Inr t" for st t
  proof -
    let ?j = "json_of_PersistedState st"
    have v: "\<exists>a. demo_value_text (json_opt JStr x) = Some a" for x by (cases x) (simp_all add: json_opt_def)
    from v [of "per_ws_url st"] v [of "per_client_key st"] v [of "per_mac_addr st"] obtain t' where
      t': "demo_to_text ?j = Inr (CHR ''+'' # t')"
      by (auto simp: json_of_PersistedState_def demo_text_str_def)
    with that have "t = CHR ''+'' # t'" by (simp add: demo_stored_def)
    moreover from demo_json_laws t' have "demo_from_text (CHR ''+'' # t') = Some ?j"
      by (simp add: json_laws_def demo_ext_def)
    ultimately show ?thesis by (simp add: demo_stored_def demo_session_def)
  qed
  then show ?thesis by (simp add: persists_def)
qed

lemma demo_stored_eqs:
  "url_parse demo_stored = url_parse demo_session" "json_from_text demo_stored = json_from_text demo_session"
  "register_payload demo_stored = register_payload demo_session"
  "response_from_text demo_stored = response_from_text demo_session"
  by (simp_all add: demo_stored_def response_from_text_def fun_eq_iff)

lemma demo_stored_facts:
  shows demo_stored_url:
      "websocket_url_for_connection demo_stored (demo_connection True True) = Inr ''wss://tv:3001/''"
    and demo_stored_registers: "registers demo_stored"
proof -
  show "websocket_url_for_connection demo_stored (demo_connection True True) = Inr ''wss://tv:3001/''"
    by code_simp
  show "registers demo_stored"
    using demo_session_texts(3)
    by (auto simp: registers_def demo_stored_eqs) (simp add: demo_stored_def split: sum.split)
qed


end
