(* ===== verification/Manager_Stray.thy ===== *)
theory Manager_Stray
  imports Manager_Reconnect
begin

text \<open>
  Two notes of the manager that outlive what they are about. That the caller disconnects is noted
  before the machine is asked (\<open>lgtv_manager.rs\<close>, the \<open>Disconnect\<close> message), and only the end of a
  disconnect removes the note: a \<open>Disconnect\<close> of an idle manager stays noted over the next
  connection, and the loss of that connection is then taken for the disconnect the caller asked for.
  That a request to pair is under way is forgotten after its failure in one flow status only.
\<close>

section \<open>A connection with the note\<close>

definition stray_turns :: "turn list" where
  "stray_turns = [CallerSends Disconnect, FromCaller, FsmReceives, FromStateMachine]"

text \<open>The machine refuses the \<open>Disconnect\<close>; nothing but the note is left of it.\<close>

lemma stray_start:
  assumes "idle s" "websocket_url_for_connection e connection = Inr url"
  shows "\<exists>s'. run_turns e consume_doc (stray_turns @
      [CallerSends (ManagerMessage.Connect connection), FromCaller]) s = Some s' \<and>
    shows_session connection url s' ((session_start url (initial_flow connection))\<lparr>se_manual := True\<rparr>)"
proof -
  let ?noted = "\<lambda>s. machine_at s State.Disconnected State.Disconnected [] [] \<and>
    command_rx (run_manager s) = \<lparr>queue = [], rx_open = True\<rparr> \<and>
    \<not> is_connection_initialized (run_manager s) \<and> is_manual_disconnect_requested (run_manager s)"
  from assms(1) obtain s1 where s1: "run_turns e consume_doc stray_turns s = Some s1" "?noted s1"
    by (auto simp: stray_turns_def idle_def machine_at_def chan_send_def chan_recv_def manager_step_def
        Let_def send_to_fsm_def fsm_task_turn_def fsm_recv_def
        fsm_handle_open [OF lgtv_fsm.rust_fsm_axioms] fsm_next_def fsm_report_def)
  let ?m = "(run_manager s1)\<lparr>command_rx := \<lparr>queue = [], rx_open = True\<rparr>\<rparr>"
  from s1(2) have "link ?m \<lparr>queue = [], rx_open = True\<rparr>" "manager_status ?m = State.Disconnected"
    by (simp_all add: machine_at_def link_def)
  note c = connect_eq [OF this assms(2)]
  from s1(2) c have "\<exists>s'. run_turns e consume_doc
      [CallerSends (ManagerMessage.Connect connection), FromCaller] s1 = Some s' \<and>
    shows_session connection url s' ((session_start url (initial_flow connection))\<lparr>se_manual := True\<rparr>)"
    by (auto simp: session_defs session_start_def chan_send_def chan_recv_def
        manager_step_def Let_def report_connect_error_def chan_pushes_def)
  with s1(1) show ?thesis unfolding run_turns_append by simp
qed

lemma stray_handshake:
  assumes "registers e" "url_parse e url = Inr u"
    and "response_from_text e reg = Some (Registered r)"
    and "response_from_text e vol = Some (LgTvResponse.Command c)" "volume_of (cr_payload c) \<noteq> None"
  shows "session_runs e url (handshake_turns reg vol) ((session_start url flow)\<lparr>se_manual := True\<rparr>) =
    Some ((session_communicating url)\<lparr>se_manual := True\<rparr>)"
  using assms
  by (auto simp: handshake_turns_def session_start_def session_communicating_def numeral_eq_Suc
      fsm_next_def fsm_report_def add_waiting_def has_handler_def)

section \<open>Its loss\<close>

text \<open>The handler says that the TV closed the connection: the note keeps the flow as it is.\<close>

lemma turn_server_closed_noted:
  assumes "se_phase v = Some phase" "se_manual v"
    "se_updates v = WsUpdateMessage.Status ServerClosedConnection # updates"
  shows "session_turn e connection url FromWebSocket v
    (v\<lparr>se_updates := updates, se_ins := se_ins v @ [Input.Error]\<rparr>)"
  unfolding session_turn_def
proof (intro allI impI)
  fix s
  assume s: "shows_session connection url s v"
  let ?m = "(run_manager s)\<lparr>from_ws_rx := Some \<lparr>queue = updates, rx_open = True\<rparr>\<rparr>"
  have l: "link ?m \<lparr>queue = se_ins v, rx_open = True\<rparr>" using s by (simp add: session_defs link_def)
  have "lost_flow ?m = se_flow v" using assms s by (simp add: session_defs lost_flow_def)
  with assms s connection_lost_eq [OF l, of "''Server closed connection''"]
  show "\<exists>s'. run_turn e consume_doc FromWebSocket s = Some s' \<and> shows_session connection url s'
      (v\<lparr>se_updates := updates, se_ins := se_ins v @ [Input.Error]\<rparr>)"
    by (auto simp: session_defs handler_at_def chan_recv_def manager_step_def Let_def
        chan_pushes_def [of "\<lparr>queue = _, rx_open = _\<rparr>"])
qed

text \<open>A manager without a handler, once the machine is disconnected.\<close>

definition winding_down :: "Run \<Rightarrow> State \<Rightarrow> Input list \<Rightarrow> StateMachineUpdateMessage list \<Rightarrow> bool \<Rightarrow> bool" where
  "winding_down s status ins outs manual \<longleftrightarrow> machine_at s status State.Disconnected ins outs \<and>
     command_rx (run_manager s) = \<lparr>queue = [], rx_open = True\<rparr> \<and>
     ws_join_handle (run_manager s) = None \<and> \<not> is_connection_initialized (run_manager s) \<and>
     connection_details (run_manager s) = None \<and>
     reconnect_flow_status (run_manager s) = Inactive \<and>
     is_manual_disconnect_requested (run_manager s) = manual"

lemma winding_idle: "winding_down s State.Disconnected [] [] False \<Longrightarrow> idle s"
  by (simp add: winding_down_def idle_def)

lemma turn_seq: "run_turn e consume t s = Some s' \<Longrightarrow> run_turns e consume ts s' = r \<Longrightarrow>
  run_turns e consume (t # ts) s = r"
  by simp

text \<open>The handler is gone: the request to disconnect fails, and resets the manager.\<close>

lemma noted_reset:
  assumes "shows_session connection url s v" "se_phase v = Some WsEnded" "se_manual v"
    "se_flow v = Inactive" "se_fsm v = State.Disconnected" "se_calls v = []"
    "se_outs v = StateMachineUpdateMessage.Output DisconnectFromTv # outs"
  shows "\<exists>s'. run_turn e consume_doc FromStateMachine s = Some s' \<and>
    winding_down s' (se_status v) (se_ins v @ [Reset]) outs True"
proof -
  let ?m = "run_manager s"
  let ?reason = "''Cannot send message to WebSocket handler: channel unexpectedly closed''"
  define r where "r = force_manager_reset e ?reason ?m"
  from assms(1,2) obtain t ins where h: "ws_join_handle ?m = Some t"
    "to_ws_tx ?m = Some \<lparr>queue = ins, rx_open = False\<rparr>"
    by (auto simp: session_defs handler_at_def)
  have keep: "optionally_prepare_for_reconnect ?m = ?m"
    using assms(1,3) by (simp add: session_defs optionally_prepare_for_reconnect_def)
  have run: "handle_output e DisconnectFromTv ?m = r"
    by (simp add: keep r_def initiate_disconnect_from_tv_def send_to_ws_def chan_send_def h)
  have l: "link ?m \<lparr>queue = se_ins v, rx_open = True\<rparr>" "\<not> in_reconnect_flow ?m"
    using assms(1,4) by (simp_all add: session_defs link_def in_reconnect_flow_def)
  note f = reset_fields [OF l(1), where e = e and reason = ?reason, folded r_def]
  have g: "ws_join_handle r = None" "\<not> is_connection_initialized r" "is_manual_disconnect_requested r"
    using l(1) assms(1,3) unfolding link_def r_def
    by (simp_all add: force_manager_reset_eq Let_def check_network_def import_persisted_state_eq
        cleared_def session_defs shut_down_ws_eq)
  have "command_rx r = command_rx ?m" by (simp add: r_def)
  with assms run f g l(2) show ?thesis
    by (auto simp: session_defs winding_down_def chan_recv_def manager_step_def Let_def chan_pushes_def
        simp del: handle_output.simps)
qed

lemma winding_turns:
  shows winding_status: "winding_down s status ins (StateMachineUpdateMessage.State x # outs) manual \<Longrightarrow>
      \<exists>s'. run_turn e consume_doc FromStateMachine s = Some s' \<and> winding_down s' x ins outs manual"
    and winding_machine: "winding_down s status [Reset] [] manual \<Longrightarrow>
      \<exists>s'. run_turn e consume_doc FsmReceives s = Some s' \<and>
        winding_down s' status [] [StateMachineUpdateMessage.State State.Disconnected] manual"
  by (auto simp: winding_down_def machine_at_def chan_recv_def manager_step_def Let_def
      set_manager_status_eq fsm_task_turn_def fsm_recv_def
      fsm_handle_open [OF lgtv_fsm.rust_fsm_axioms] fsm_next_def fsm_report_def)

text \<open>The end of the disconnect removes the note, and does not reconnect.\<close>

lemma winding_handled:
  assumes "winding_down s status ins (StateMachineUpdateMessage.Output HandleSuccessfulDisconnect # outs) manual"
  shows "\<exists>s'. run_turn e consume_doc FromStateMachine s = Some s' \<and> winding_down s' status ins outs False"
proof -
  let ?m = "(run_manager s)\<lparr>is_manual_disconnect_requested := False\<rparr>"
  define m where "m = initialize_manager_state e ?m"
  have flow: "reconnect_flow_status ?m = Inactive" "ws_join_handle ?m = None"
    "connection_details ?m = None" using assms by (simp_all add: winding_down_def)
  then have "connection_details m = None"
    by (simp add: m_def initialize_manager_state_eq Let_def check_network_def import_persisted_state_eq
        cleared_def)
  note m = this initialize_frame(1-6) [where e = e and m = ?m, folded m_def] initialize_frame(7) [OF flow(1), where e = e, folded m_def]
  have "handle_output e HandleSuccessfulDisconnect (run_manager s) = m"
    using flow m by (simp add: handle_disconnected_def await_ws_handler_def m_def [symmetric])
  with assms m show ?thesis
    by (auto simp: winding_down_def machine_at_def chan_recv_def manager_step_def Let_def
        simp del: handle_output.simps)
qed

section \<open>The connection is not made again\<close>

text \<open>Up to the request to disconnect the loss is seen as in a recovery, the flow left as it is.\<close>

definition stray_lost :: "string \<Rightarrow> session" where
  "stray_lost url = (session_communicating url)\<lparr>se_fsm := State.Disconnected,
     se_status := Disconnecting url, se_phase := Some WsEnded, se_manual := True,
     se_outs := [StateMachineUpdateMessage.Output DisconnectFromTv,
       StateMachineUpdateMessage.State State.Disconnected,
       StateMachineUpdateMessage.Output HandleSuccessfulDisconnect]\<rparr>"

lemma stray_loss:
  assumes "shows_session connection url s ((session_communicating url)\<lparr>se_manual := True\<rparr>)"
  shows "\<exists>s'. run_turns e consume_doc [WsTurn (Incoming (Inr Close)), FromWebSocket, FromWebSocket,
      FsmReceives, FsmReceives, FromStateMachine] s = Some s' \<and>
    shows_session connection url s' (stray_lost url)"
proof -
  let ?v = "(session_communicating url)\<lparr>se_manual := True\<rparr>"
  let ?v1 = "?v\<lparr>se_phase := Some WsEnded, se_updates :=
    [WsUpdateMessage.Status ServerClosedConnection, WsUpdateMessage.Status WsStatus.Disconnected]\<rparr>"
  let ?v2 = "?v1\<lparr>se_updates := [WsUpdateMessage.Status WsStatus.Disconnected], se_ins := [Input.Error]\<rparr>"
  from turn_closed [of ?v e connection url] assms obtain s1 where
    1: "run_turn e consume_doc (WsTurn (Incoming (Inr Close))) s = Some s1" "shows_session connection url s1 ?v1"
    by (auto simp: session_turn_def session_communicating_def)
  from turn_server_closed_noted [of ?v1 WsEnded _ e connection url] 1(2) obtain s2 where
    2: "run_turn e consume_doc FromWebSocket s1 = Some s2" "shows_session connection url s2 ?v2"
    by (auto simp: session_turn_def session_communicating_def)
  have "session_runs e url [FromWebSocket, FsmReceives, FsmReceives, FromStateMachine] ?v2 = Some (stray_lost url)"
    by (simp add: session_communicating_def stray_lost_def fsm_next_def fsm_report_def)
  from session_runs_refined [OF this 2(2)] 1(1) 2(1) show ?thesis by simp
qed


lemma stray_end:
  assumes "shows_session connection url s (stray_lost url)"
  shows "\<exists>s'. run_turns e consume_doc [FromStateMachine, FromStateMachine, FromStateMachine,
      FsmReceives, FromStateMachine] s = Some s' \<and> winding_down s' State.Disconnected [] [] False"
proof -
  let ?outs = "[StateMachineUpdateMessage.State State.Disconnected,
    StateMachineUpdateMessage.Output HandleSuccessfulDisconnect]"
  from noted_reset [OF assms, of ?outs e] obtain s1 where
    1: "run_turn e consume_doc FromStateMachine s = Some s1" "winding_down s1 (Disconnecting url) [Reset] ?outs True"
    by (auto simp: stray_lost_def session_communicating_def)
  from winding_status [OF 1(2), of e] obtain s2 where
    2: "run_turn e consume_doc FromStateMachine s1 = Some s2"
    "winding_down s2 State.Disconnected [Reset] (tl ?outs) True" by auto
  from winding_handled [of s2 _ _ "[]" True e] 2(2) obtain s3 where
    3: "run_turn e consume_doc FromStateMachine s2 = Some s3" "winding_down s3 State.Disconnected [Reset] [] False"
    by auto
  from winding_machine [OF 3(2), of e] obtain s4 where
    4: "run_turn e consume_doc FsmReceives s3 = Some s4"
    "winding_down s4 State.Disconnected [] [StateMachineUpdateMessage.State State.Disconnected] False" by auto
  from winding_status [OF 4(2), of e] 1(1) 2(1) 3(1) 4(1) show ?thesis by (auto simp del: run_turn.simps)
qed

text \<open>C25: A \<open>Disconnect\<close> of an idle manager switches off the reconnects of the next connection. The
  machine refuses the \<open>Disconnect\<close>, but the manager has noted it: after it a \<open>Connect\<close> and the
  handshake lead to a communicating manager as they do without it, and when the TV closes that
  connection, the turns that otherwise make it again (\<open>recovery_turns\<close>, whose effect
  without the note is stated by \<open>reconnects_go_on\<close>) end in an idle manager that has forgotten the
  connection, whatever its settings say about reconnects.\<close>

theorem stray_disconnect_stops_reconnects:
  assumes "idle s" "websocket_url_for_connection e connection = Inr url"
    and "registers e" "url_parse e url = Inr u"
    and "response_from_text e reg = Some (Registered r)"
    and "response_from_text e vol = Some (LgTvResponse.Command c)" "volume_of (cr_payload c) \<noteq> None"
  shows "\<exists>s1 s2. run_turns e consume_doc (stray_turns @
      [CallerSends (ManagerMessage.Connect connection), FromCaller] @ handshake_turns reg vol) s = Some s1 \<and>
    manager_status (run_manager s1) = Communicating url \<and>
    connection_details (run_manager s1) = Some connection \<and>
    run_turns e consume_doc recovery_turns s1 = Some s2 \<and> idle s2 \<and>
    connection_details (run_manager s2) = None \<and> reconnect_flow_status (run_manager s2) = Inactive"
proof -
  from stray_start [OF assms(1,2)] obtain s0 where
    0: "run_turns e consume_doc (stray_turns @
      [CallerSends (ManagerMessage.Connect connection), FromCaller]) s = Some s0"
    "shows_session connection url s0 ((session_start url (initial_flow connection))\<lparr>se_manual := True\<rparr>)"
    by blast
  from session_runs_refined [OF stray_handshake [OF assms(3-7)] 0(2)] obtain s1 where
    1: "run_turns e consume_doc (handshake_turns reg vol) s0 = Some s1"
    "shows_session connection url s1 ((session_communicating url)\<lparr>se_manual := True\<rparr>)" by blast
  from stray_loss [OF 1(2), of e] obtain s2 where
    2: "run_turns e consume_doc [WsTurn (Incoming (Inr Close)), FromWebSocket, FromWebSocket,
      FsmReceives, FsmReceives, FromStateMachine] s1 = Some s2"
    "shows_session connection url s2 (stray_lost url)" by blast
  from stray_end [OF 2(2), of e] obtain s3 where
    3: "run_turns e consume_doc [FromStateMachine, FromStateMachine, FromStateMachine,
      FsmReceives, FromStateMachine] s2 = Some s3" "winding_down s3 State.Disconnected [] [] False" by blast
  have turns: "recovery_turns = [WsTurn (Incoming (Inr Close)), FromWebSocket, FromWebSocket, FsmReceives,
      FsmReceives, FromStateMachine] @ [FromStateMachine, FromStateMachine, FromStateMachine,
      FsmReceives, FromStateMachine]" by (simp add: recovery_turns_def)
  have "run_turns e consume_doc recovery_turns s1 = Some s3"
    unfolding turns run_turns_append 2(1) bind.simps by (rule 3(1))
  moreover have "run_turns e consume_doc (stray_turns @
      [CallerSends (ManagerMessage.Connect connection), FromCaller] @ handshake_turns reg vol) s = Some s1"
    unfolding append_assoc [symmetric] run_turns_append [of _ _ "_ @ _"] 0(1) bind.simps by (rule 1(1))
  moreover from 1(2) have "manager_status (run_manager s1) = Communicating url"
    "connection_details (run_manager s1) = Some connection"
    by (simp_all add: session_defs session_communicating_def)
  ultimately show ?thesis using winding_idle [OF 3(2)] 3(2) unfolding winding_down_def by blast
qed

theorem stray_disconnect_stops_reconnects_witness:
  "cs_auto_reconnect (settings_of (demo_connection True True)) \<and>
   (\<exists>s1 s2. run_turns demo_session consume_doc (stray_turns @
      [CallerSends (ManagerMessage.Connect (demo_connection True True)), FromCaller] @
      handshake_turns ''reg'' ''vol'') demo_start = Some s1 \<and>
    manager_status (run_manager s1) = Communicating ''wss://tv:3001/'' \<and>
    run_turns demo_session consume_doc recovery_turns s1 = Some s2 \<and> idle s2)"
proof -
  obtain c where c: "response_from_text demo_session ''vol'' = Some (LgTvResponse.Command c)"
    "volume_of (cr_payload c) \<noteq> None" by (rule demo_session_volume)
  show ?thesis
    using stray_disconnect_stops_reconnects [OF initial_idle [where e = demo_session and client = "Inr ()"
        and d = demo_disk] demo_session_url demo_session_registers demo_session_parse demo_session_texts(1) c] by auto
qed

section \<open>A refused pairing\<close>

text \<open>
  \<open>handle_disconnected\<close> does not want to reconnect after a failed request to pair, but looks at the
  request only if the flow is \<open>Active\<close>. While the network checker does not see the TV the flow is
  \<open>WaitingForTvOnNetwork\<close>: the mark of the request stays, and the connection whose pairing was
  refused is asked for again as soon as the checker sees the TV.
\<close>

theorem refused_pairing_reconnects:
  assumes "link m c" "manager_status m = State.Disconnected" "connection_details m = Some connection"
    and "websocket_url_for_connection e connection = Inr url" "remembered_url e m \<noteq> None"
    and "reconnect_flow_status m = WaitingForTvOnNetwork" "is_pairing m"
  shows "reconnect_flow_status (handle_disconnected e m) = WaitingForTvOnNetwork"
    and "is_pairing (handle_disconnected e m)"
    and "load_is_tv_on_network ((handle_disconnected e m)\<lparr>tv_on_network_checker := seen\<rparr>) \<Longrightarrow>
      to_fsm_tx (fst (handle_on_network_notify e False ((handle_disconnected e m)\<lparr>tv_on_network_checker := seen\<rparr>))) =
        Some (chan_pushes c [Input.Connect url])"
proof -
  let ?i = "initialize_manager_state e (await_ws_handler e m)"
  have i: "reconnect_flow_status ?i = WaitingForTvOnNetwork" "is_pairing ?i"
    "connection_details ?i = Some connection" "manager_status ?i = State.Disconnected"
    "to_fsm_tx ?i = Some c" "ws_url ?i = remembered_url e m"
    using assms
    by (simp_all add: initialize_manager_state_eq Let_def check_network_def import_persisted_state_eq
        cleared_def in_reconnect_flow_def remembered_url_def link_def from_disk_def split: sum.split)
  then have h: "handle_disconnected e m = ?i" by (simp add: handle_disconnected_def)
  from i h show "reconnect_flow_status (handle_disconnected e m) = WaitingForTvOnNetwork"
    "is_pairing (handle_disconnected e m)" by simp_all
  assume seen: "load_is_tv_on_network ((handle_disconnected e m)\<lparr>tv_on_network_checker := seen\<rparr>)"
  let ?m = "emit_is_wake_tv_available (send_out (TvOnNetworkTestStatus Passed)
    (?i\<lparr>tv_on_network_checker := seen\<rparr>))"
  have "can_reconnect e connection url c ?m"
    using seen i assms(1,4,5) by (simp add: can_reconnect_def link_def h manager_defs)
  note r = reconnect_fields(1) [OF this, of True]
  have "reconnect_flow_status ?m = WaitingForTvOnNetwork" using i by (simp add: manager_defs)
  with seen r show "to_fsm_tx (fst (handle_on_network_notify e False
      ((handle_disconnected e m)\<lparr>tv_on_network_checker := seen\<rparr>))) = Some (chan_pushes c [Input.Connect url])"
    by (simp add: handle_on_network_notify_def Let_def h)
qed

end
