(* ===== verification/Manager_Waits.thy ===== *)
theory Manager_Waits
  imports Manager_Session
begin

text \<open>
  The manager waits for its WebSocket handler in two places: in a reset, after it has asked the
  handler to shut down, and when the state machine reports the end of a disconnect. While it waits
  it serves nobody, so a handler that never ended would stop it for good. Here: in every reachable
  situation the handlers it waits for come to an end.
\<close>

section \<open>The handler of the manager\<close>

text \<open>
  The manager has the channel of its handler, with the receiver there until the handler has
  ended; and the handler has ended or will be told to.
\<close>

definition handler_attached :: "Manager \<Rightarrow> bool" where
  "handler_attached m \<longleftrightarrow> (\<forall>t. ws_join_handle m = Some t \<longrightarrow>
     (\<exists>c. to_ws_tx m = Some c \<and> (rx_open c \<or> wt_phase t = WsEnded)))"

definition handler_stopping :: "Manager \<Rightarrow> bool" where
  "handler_stopping m \<longleftrightarrow> (\<forall>t. ws_join_handle m = Some t \<longrightarrow> wt_phase t = WsEnded \<or>
     (\<exists>c. to_ws_tx m = Some c \<and> WsMessage.Command WsCommand.ShutDown \<in> set (queue c)))"

text \<open>What a handler of the manager keeps of both, and of the first where it starts a connection.\<close>

definition keeps_stopping :: "Manager \<Rightarrow> Manager \<Rightarrow> bool" where
  "keeps_stopping m m' \<longleftrightarrow> (handler_attached m \<longrightarrow> handler_attached m' \<and>
     (handler_stopping m \<longrightarrow> handler_stopping m'))"

lemmas handler_defs = handler_attached_def handler_stopping_def

lemma handler_core:
  assumes "ws_join_handle m' = ws_join_handle m" "to_ws_tx m' = to_ws_tx m"
  shows "handler_attached m' = handler_attached m" "handler_stopping m' = handler_stopping m"
  using assms by (simp_all add: handler_defs)

lemma handler_none:
  assumes "ws_join_handle m = None"
  shows "handler_attached m" "handler_stopping m"
  using assms by (simp_all add: handler_defs)

lemma handler_push:
  assumes "to_ws_tx m = Some c"
  shows "handler_attached (m\<lparr>to_ws_tx := Some (chan_pushes c [x])\<rparr>) = handler_attached m"
    "handler_stopping m \<Longrightarrow> handler_stopping (m\<lparr>to_ws_tx := Some (chan_pushes c [x])\<rparr>)"
  using assms by (auto simp: handler_defs chan_pushes_def)

lemma handler_fsm:
  "ws_join_handle (send_to_fsm x m) = ws_join_handle m" "to_ws_tx (send_to_fsm x m) = to_ws_tx m"
  by (simp_all add: send_to_fsm_def enter_zombie_state_def set_manager_status_eq
      split: option.split sum.split)

interpretation stopping: manager_relation e keeps_stopping
proof
  fix a b c
  show "keeps_stopping a b \<Longrightarrow> keeps_stopping b c \<Longrightarrow> keeps_stopping a c"
    by (auto simp: keeps_stopping_def)
next
  fix m m'
  show "core m' = core m \<Longrightarrow> keeps_stopping m m'"
    by (simp add: keeps_stopping_def core_eq_iff handler_core [of m' m])
next
  fix m x
  show "keeps_stopping m (send_to_fsm x m)"
    by (simp add: keeps_stopping_def handler_core [OF handler_fsm])
next
  fix m
  show "keeps_stopping m (check_network m)"
    by (simp add: keeps_stopping_def check_network_def handler_defs)
next
  fix m ip
  show "keeps_stopping m (m\<lparr>tv_on_network_checker := nc_set_tv_ip ip (tv_on_network_checker m)\<rparr>)"
    by (simp add: keeps_stopping_def handler_defs)
next
  fix m :: Manager and c x
  assume "to_ws_tx m = Some c"
  then show "keeps_stopping m (m\<lparr>to_ws_tx := Some (chan_pushes c [x])\<rparr>)"
    by (simp add: keeps_stopping_def handler_push)
next
  fix m
  show "keeps_stopping m (await_ws_handler e m)"
    by (simp add: keeps_stopping_def handler_none)
qed

lemma handler_started: "handler_attached (start_websocket_handler_and_connect host m)"
  by (simp add: handler_attached_def start_websocket_handler_and_connect_def Let_def new_chan_def)

lemma attached_output:
  assumes "handler_attached m"
  shows "handler_attached (handle_output e x m)"
proof (cases "\<exists>host. x = ConnectToTv host")
  case True
  then show ?thesis by (auto simp: handler_started)
next
  case False
  with assms stopping.fsm_output_started [of x m e] show ?thesis by (auto simp: keeps_stopping_def)
qed

section \<open>Asking the handler to stop\<close>

lemma stopping_shut_down:
  assumes "handler_attached m"
  shows "handler_stopping (shut_down_ws m)"
proof (cases "ws_join_handle m")
  case None
  then show ?thesis by (simp add: handler_stopping_def shut_down_ws_eq)
next
  case (Some t)
  with assms obtain c where "to_ws_tx m = Some c" "rx_open c \<or> wt_phase t = WsEnded"
    by (auto simp: handler_attached_def)
  with Some show ?thesis by (cases "rx_open c") (simp_all add: handler_stopping_def shut_down_ws_eq)
qed

lemma stopping_reset: "handler_stopping (force_manager_reset e reason m)"
proof -
  let ?m = "await_ws_handler e (shut_down_ws (send_out (Resetting reason) m))"
  have "keeps_stopping ?m (emit_manager_status (send_to_fsm Reset (initialize_manager_state e ?m)))"
    unfolding emit_manager_status_def
    by (intro stopping.trans [OF _ stopping.out] stopping.trans [OF _ stopping.fsm] stopping.initialize)
  then show ?thesis
    unfolding force_manager_reset_def Let_def by (simp add: keeps_stopping_def handler_none)
qed

lemma stopping_disconnect_tv:
  assumes "handler_attached m"
  shows "handler_stopping (initiate_disconnect_from_tv e m)"
proof (cases "ws_join_handle m")
  case None
  then show ?thesis by (simp add: initiate_disconnect_from_tv_def handler_none)
next
  case (Some t)
  with assms obtain c where c: "to_ws_tx m = Some c" by (auto simp: handler_attached_def)
  show ?thesis
  proof (cases "rx_open c")
    case True
    with Some c show ?thesis
      by (simp add: initiate_disconnect_from_tv_def send_to_ws_def chan_send_pushes
          handler_stopping_def)
  next
    case False
    with Some c stopping_reset show ?thesis
      by (simp add: initiate_disconnect_from_tv_def send_to_ws_def chan_send_pushes)
  qed
qed

text \<open>Once the handler has been waited for there is none.\<close>

lemma stopping_disconnected: "handler_stopping (handle_disconnected e m)"
proof -
  have "await_ws_handler e (await_ws_handler e m) = await_ws_handler e m"
    by (simp add: await_ws_handler_def [of e "await_ws_handler e m"])
  then have "handle_disconnected e m = handle_disconnected e (await_ws_handler e m)"
    by (simp add: handle_disconnected_def)
  with stopping.disconnected [of "await_ws_handler e m" e] show ?thesis
    by (simp add: keeps_stopping_def handler_none)
qed

text \<open>The outputs of the machine that end with a handler on its way out.\<close>

lemma stopping_output:
  assumes "handler_attached m" "x \<in> {DisconnectFromTv, HandleSuccessfulDisconnect, HandleDisconnectError}"
  shows "handler_stopping (handle_output e x m)"
proof -
  have "handler_attached (optionally_prepare_for_reconnect m)"
    using stopping.prepare [of m] assms(1) by (simp add: keeps_stopping_def)
  from stopping_disconnect_tv [OF this] assms(2) show ?thesis
    by (auto simp: stopping_disconnected)
qed


section \<open>The turns of the handler\<close>

lemma ws_step_receiver:
  assumes "rx_open (wt_rx t) \<or> wt_phase t = WsEnded"
  shows "rx_open (wt_rx (ws_step e ev t)) \<or> wt_phase (ws_step e ev t) = WsEnded"
proof (cases "wt_phase t")
  case WsSpawned
  with assms show ?thesis
    by (cases ev) (auto simp: ws_step_def ws_send_update_def ws_return_def split: sum.splits)
next
  case WsConnecting
  with assms show ?thesis
    by (cases ev) (auto simp: ws_step_def ws_defs split: sum.splits option.splits)
next
  case WsRunning
  show ?thesis
  proof (cases ev)
    case (CallerMessage err now)
    have caller: "rx_open (wt_rx (ws_on_caller msg err now t')) \<or>
        wt_phase (ws_on_caller msg err now t') = WsEnded" if "rx_open (wt_rx t')" for msg t'
      using that by (cases msg) (auto simp: ws_write_def split: WsCommand.splits option.splits)
    show ?thesis
    proof (cases "queue (wt_rx t)")
      case Nil
      with assms WsRunning CallerMessage show ?thesis by (simp add: ws_step_def chan_recv_def)
    next
      case (Cons msg msgs)
      with assms WsRunning CallerMessage
        caller [of "t\<lparr>wt_rx := (wt_rx t)\<lparr>queue := msgs\<rparr>\<rparr>" msg]
      show ?thesis by (simp add: ws_step_def chan_recv_def)
    qed
  next
    case (Incoming msg)
    with assms WsRunning show ?thesis
      by (induction msg t rule: ws_on_socket.induct)
        (auto simp: ws_step_def ws_send_ignore_def ws_send_update_def split: sum.splits)
  next
    case (Tick now)
    with assms WsRunning show ?thesis
      by (auto simp: ws_step_def ws_on_tick_def ws_send_ignore_def ws_send_update_def
          split: option.splits sum.splits)
  qed (use assms WsRunning in \<open>simp_all add: ws_step_def\<close>)
next
  case WsEnded
  then show ?thesis by simp
qed

lemma keeps_stopping_ws_turn: "keeps_stopping m (ws_turn e ev m)"
  unfolding keeps_stopping_def
proof (intro impI conjI)
  assume a: "handler_attached m"
  show "handler_attached (ws_turn e ev m)"
  proof (cases "ws_join_handle m")
    case None
    then show ?thesis by (simp add: ws_turn_def handler_none)
  next
    case (Some t)
    with a obtain c where "to_ws_tx m = Some c" "rx_open c \<or> wt_phase t = WsEnded"
      by (auto simp: handler_attached_def)
    with Some ws_step_receiver [of "attach_ws m t" e ev] show ?thesis
      by (simp add: ws_turn_def Let_def handler_attached_def attach_ws_def)
  qed
  assume s: "handler_stopping m"
  show "handler_stopping (ws_turn e ev m)"
  proof (cases "ws_join_handle m")
    case None
    then show ?thesis by (simp add: ws_turn_def handler_none)
  next
    case (Some t)
    with s consider "wt_phase t = WsEnded"
      | c where "to_ws_tx m = Some c" "WsMessage.Command WsCommand.ShutDown \<in> set (queue c)"
      by (auto simp: handler_stopping_def)
    then show ?thesis
    proof cases
      case 1
      with Some show ?thesis
        by (simp add: ws_turn_def Let_def handler_stopping_def attach_ws_def)
    next
      case 2
      with Some ws_step_keeps_shutdown [of "attach_ws m t" e ev] show ?thesis
        by (auto simp: ws_turn_def Let_def handler_stopping_def attach_ws_def)
    qed
  qed
qed

section \<open>The order of the outputs\<close>

text \<open>
  Read in the order the manager will: is there a handler on its way out after each message, and
  is there one whenever a message makes the manager wait.
\<close>

fun stopping_after :: "bool \<Rightarrow> StateMachineUpdateMessage \<Rightarrow> bool" where
  "stopping_after b (StateMachineUpdateMessage.Output (ConnectToTv _)) = False"
| "stopping_after b (StateMachineUpdateMessage.Output DisconnectFromTv) = True"
| "stopping_after b (StateMachineUpdateMessage.Output HandleSuccessfulDisconnect) = True"
| "stopping_after b (StateMachineUpdateMessage.Output HandleDisconnectError) = True"
| "stopping_after b _ = b"

definition makes_wait :: "StateMachineUpdateMessage \<Rightarrow> bool" where
  "makes_wait msg \<longleftrightarrow> msg \<in> StateMachineUpdateMessage.Output ` {HandleSuccessfulDisconnect, HandleDisconnectError}"

primrec waits_safely :: "bool \<Rightarrow> StateMachineUpdateMessage list \<Rightarrow> bool" where
  "waits_safely b [] = True"
| "waits_safely b (msg # msgs) =
     ((makes_wait msg \<longrightarrow> b) \<and> waits_safely (stopping_after b msg) msgs)"

definition stopping_at_end :: "bool \<Rightarrow> StateMachineUpdateMessage list \<Rightarrow> bool" where
  "stopping_at_end b msgs = fold (\<lambda>msg b. stopping_after b msg) msgs b"

lemma stopping_after_mono: "(b \<longrightarrow> b') \<Longrightarrow> stopping_after b msg \<longrightarrow> stopping_after b' msg"
  by (induction b msg rule: stopping_after.induct) auto

lemma waits_safely_mono: "waits_safely b msgs \<Longrightarrow> (b \<longrightarrow> b') \<Longrightarrow> waits_safely b' msgs"
proof (induction msgs arbitrary: b b')
  case (Cons msg msgs)
  from Cons.prems(1) have "waits_safely (stopping_after b msg) msgs" by simp
  from Cons.IH [OF this stopping_after_mono [OF Cons.prems(2)]] Cons.prems show ?case by simp
qed simp

lemma stopping_at_end_mono: "stopping_at_end b msgs \<Longrightarrow> (b \<longrightarrow> b') \<Longrightarrow> stopping_at_end b' msgs"
proof (induction msgs arbitrary: b b')
  case (Cons msg msgs)
  from Cons.prems(1) have "stopping_at_end (stopping_after b msg) msgs"
    by (simp add: stopping_at_end_def)
  from Cons.IH [OF this stopping_after_mono [OF Cons.prems(2)]] show ?case
    by (simp add: stopping_at_end_def)
qed (simp add: stopping_at_end_def)

lemma stopping_append:
  "waits_safely b (xs @ ys) \<longleftrightarrow> waits_safely b xs \<and> waits_safely (stopping_at_end b xs) ys"
  "stopping_at_end b (xs @ ys) = stopping_at_end (stopping_at_end b xs) ys"
  by (induction xs arbitrary: b) (simp_all add: stopping_at_end_def)

text \<open>What the machine reports keeps the order: only \<open>Disconnecting\<close> makes the manager wait.\<close>

definition orderly :: "bool \<Rightarrow> FsmTask \<Rightarrow> bool" where
  "orderly b t \<longleftrightarrow> waits_safely b (queue (fsm_tx t)) \<and>
     (\<forall>u. fsm_state t = Disconnecting u \<longrightarrow> stopping_at_end b (queue (fsm_tx t)))"

lemma report_orderly:
  assumes "\<forall>u. s = Disconnecting u \<longrightarrow> b"
  shows "waits_safely b (fsm_report consume s i) \<and>
    (\<forall>u. fsm_next s i = Disconnecting u \<longrightarrow> stopping_at_end b (fsm_report consume s i))"
proof (cases "transition s i")
  case None
  with assms show ?thesis
    by (auto simp: fsm_report_def fsm_next_def makes_wait_def stopping_at_end_def)
next
  case (Some s')
  with assms show ?thesis
    by (cases "(s, i)" rule: transition.cases)
       (auto simp: fsm_report_def fsm_next_def makes_wait_def stopping_at_end_def)
qed

lemma orderly_handle:
  assumes "rust_fsm transition fsm_output consume" "rx_open (fsm_tx t)" "orderly b t"
  shows "orderly b (fsm_handle consume t i)"
  using assms(3) report_orderly [of "fsm_state t" "stopping_at_end b (queue (fsm_tx t))" consume i]
  by (simp add: orderly_def fsm_handle_open [OF assms(1,2)] stopping_append)


section \<open>Every reachable situation\<close>

definition waits_inv :: "Run \<Rightarrow> bool" where
  "waits_inv s \<longleftrightarrow> (run_looping s \<longrightarrow> handler_attached (run_manager s) \<and>
     orderly (handler_stopping (run_manager s)) (run_fsm s))"

lemma orderly_mono: "orderly b t \<Longrightarrow> (b \<longrightarrow> b') \<Longrightarrow> orderly b' t"
  by (auto simp: orderly_def intro: waits_safely_mono stopping_at_end_mono)

lemma orderly_fields [simp]: "orderly b (t\<lparr>fsm_rx := c\<rparr>) = orderly b t"
  by (simp add: orderly_def)

lemma waits_inv_step:
  assumes "waits_inv s" "keeps_stopping (run_manager s) (f (run_manager s))"
  shows "waits_inv (manager_step f s)"
  using assms
  by (auto simp: waits_inv_def manager_step_def Let_def keeps_stopping_def intro: orderly_mono)

lemma waits_inv_same:
  assumes "waits_inv s" "\<And>m. ws_join_handle (f m) = ws_join_handle m" "\<And>m. to_ws_tx (f m) = to_ws_tx m"
  shows "waits_inv (manager_step f s)"
  using assms(1) by (rule waits_inv_step) (simp add: keeps_stopping_def handler_core [OF assms(2,3)])

lemma waits_inv_fields [simp]: "waits_inv (s\<lparr>run_was_on_network := b\<rparr>) = waits_inv s"
  by (simp add: waits_inv_def)

lemma stopping_after_output:
  assumes "handler_attached m" "stopping_after (handler_stopping m) (StateMachineUpdateMessage.Output x)"
  shows "handler_stopping (handle_output e x m)"
proof (cases "x \<in> {DisconnectFromTv, HandleSuccessfulDisconnect, HandleDisconnectError}")
  case True
  with assms(1) show ?thesis by (rule stopping_output)
next
  case False
  with assms(2) have "handler_stopping m" "\<And>host. x \<noteq> ConnectToTv host" by (cases x; simp)+
  with assms(1) stopping.fsm_output_started [of x m e] show ?thesis by (simp add: keeps_stopping_def)
qed

lemma waits_inv_update:
  assumes "waits_inv s" "chan_recv (fsm_tx (run_fsm s)) = Some (msg, rx)"
  shows "waits_inv (manager_step (handle_state_machine_update e msg)
    (s\<lparr>run_fsm := (run_fsm s)\<lparr>fsm_tx := rx\<rparr>\<rparr>))"
proof (cases "run_looping s")
  case True
  let ?m = "run_manager s" and ?t = "(run_fsm s)\<lparr>fsm_tx := rx\<rparr>"
  let ?m' = "handle_state_machine_update e msg ?m"
  from True assms(1) have a: "handler_attached ?m" and o: "orderly (handler_stopping ?m) (run_fsm s)"
    by (simp_all add: waits_inv_def)
  from o assms(2) have "orderly (stopping_after (handler_stopping ?m) msg) ?t"
    by (auto simp: orderly_def chan_recv_def stopping_at_end_def split: list.splits)
  moreover have "handler_attached ?m' \<and>
      (stopping_after (handler_stopping ?m) msg \<longrightarrow> handler_stopping ?m')"
  proof (cases msg)
    case (Output x)
    with a show ?thesis by (simp add: attached_output stopping_after_output)
  next
    case (State x)
    with a show ?thesis by (simp add: set_manager_status_eq handler_defs)
  next
    case (TransitionError x)
    with a show ?thesis by (simp add: handler_defs)
  qed
  ultimately show ?thesis
    by (auto simp: waits_inv_def manager_step_def Let_def intro: orderly_mono)
qed (simp add: waits_inv_def manager_step_def Let_def)

lemma waits_inv_fsm_receives:
  assumes "rust_fsm transition fsm_output consume" "run_inv s" "waits_inv s"
  shows "waits_inv (fsm_task_turn (fsm_recv consume) s)"
proof (cases "run_looping s \<and> chan_recv (fsm_rx (run_fsm s)) \<noteq> None \<and> fsm_running (run_fsm s)")
  case True
  then obtain i rx where r: "chan_recv (fsm_rx (run_fsm s)) = Some (i, rx)" by auto
  let ?t = "(run_fsm s)\<lparr>fsm_rx := rx\<rparr>"
  from True assms(2,3) have "rx_open (fsm_tx ?t)" "orderly (handler_stopping (run_manager s)) ?t"
    by (simp_all add: run_inv_def waits_inv_def)
  from orderly_handle [OF assms(1) this] r True assms(3) show ?thesis
    by (simp add: waits_inv_def fsm_task_turn_def fsm_recv_def Let_def handler_defs)
next
  case False
  with assms(3) show ?thesis
    by (auto simp: waits_inv_def fsm_task_turn_def fsm_recv_def Let_def handler_defs
        split: option.splits)
qed

lemma waits_inv_initial: "waits_inv (run_initial e client (manager_new e d rx))"
proof -
  have host: "core (set_host_ip_from_ws_url e m) = core m" for m
    by (simp add: set_host_ip_from_ws_url_def core_eq_iff split: option.split)
  have checker: "keeps_stopping m (start_network_checker client m)" for m
    by (cases "nc_start client (tv_on_network_checker m)")
       (simp_all add: keeps_stopping_def start_network_checker_def handler_defs)
  let ?m = "(manager_new e d rx)\<lparr>to_fsm_tx := Some new_chan\<rparr>"
  have "keeps_stopping ?m (run_start e client (manager_new e d rx))"
    unfolding run_start_def Let_def emit_manager_status_def
    by (rule stopping.trans [OF _ checker], rule stopping.trans [OF _ stopping.flow],
        rule stopping.trans [OF _ stopping.out], rule stopping.via [OF stopping.initialize host])
  moreover have "ws_join_handle ?m = None"
    by (simp add: manager_new_def import_persisted_state_eq Let_def)
  ultimately have "handler_attached (run_start e client (manager_new e d rx))"
    by (simp add: keeps_stopping_def handler_none)
  then show ?thesis
    by (simp add: waits_inv_def run_initial_def Let_def orderly_def INITIAL_STATE_def new_chan_def)
qed


lemma waits_inv_manager_turn:
  assumes "waits_inv s" "run_turn e consume t s = Some s'"
    "t \<in> {FromCaller, FromStateMachine, FromWebSocket, OnNetworkNotified, TestingNotified}"
  shows "waits_inv s'"
proof -
  have notified: "waits_inv s1" if "take_notify permit clear s = Some s1" for permit clear s1
    using that by (auto simp: take_notify_def split: if_splits intro: waits_inv_same [OF assms(1)])
  from assms(3) consider "t = FromCaller" | "t = FromStateMachine" | "t = FromWebSocket"
    | "t = OnNetworkNotified" | "t = TestingNotified" by blast
  then show ?thesis
  proof cases
    case 1
    have received: "waits_inv (manager_step (\<lambda>m. m\<lparr>command_rx := rx\<rparr>) s)" for rx
      using assms(1) by (rule waits_inv_same) simp_all
    have "waits_inv (begin_shut_down s1)" for s1 by (simp add: waits_inv_def begin_shut_down_def)
    with 1 assms(2) show ?thesis
      by (auto simp: Let_def split: if_splits option.splits
          intro!: waits_inv_step [OF received] stopping.manager_message)
  next
    case 2
    with assms(2) show ?thesis by (auto split: if_splits option.splits intro: waits_inv_update [OF assms(1)])
  next
    case 3
    have "waits_inv (manager_step (\<lambda>m. handle_ws_message e msg (m\<lparr>from_ws_rx := Some rx\<rparr>)) s)"
      for msg rx
      using assms(1) by (rule waits_inv_step)
        (rule stopping.after [OF _ stopping.ws_message], simp add: core_eq_iff)
    with 3 assms(1,2) show ?thesis by (auto split: if_splits option.splits)
  next
    case 4
    with assms(2) show ?thesis
      by (auto simp: Let_def split: option.splits dest!: notified
          intro!: waits_inv_step stopping.on_network)
  next
    case 5
    with assms(2) show ?thesis
      by (auto split: option.splits dest!: notified intro!: waits_inv_step stopping.testing)
  qed
qed

lemma waits_inv_turn:
  assumes "rust_fsm transition fsm_output consume" "run_inv s" "waits_inv s"
    "run_turn e consume t s = Some s'"
  shows "waits_inv s'"
proof -
  have quiet: ?thesis if "quiet_turn t"
    using assms(4) that by (rule quiet_turnE) (auto simp: core_eq_iff intro: waits_inv_same [OF assms(3)])
  show ?thesis
  proof (cases t)
    case FsmReceives
    with assms(4) waits_inv_fsm_receives [OF assms(1-3)] show ?thesis by (auto split: if_splits)
  next
    case FsmCancelled
    with assms(2,4) have "\<not> run_looping s'"
      by (auto simp: run_inv_def fsm_task_turn_def Let_def split: if_splits)
    then show ?thesis by (simp add: waits_inv_def)
  next
    case (WsTurn ev)
    from assms(3) have "waits_inv (manager_step (ws_turn e ev) s)"
      by (rule waits_inv_step) (rule keeps_stopping_ws_turn)
    with WsTurn assms(4) show ?thesis by simp
  next
    case (CheckerTurn ev)
    with assms(4) show ?thesis by (auto intro: waits_inv_same [OF assms(3)])
  next
    case ShutDownEnds
    with assms(2,4) show ?thesis
      by (auto simp: waits_inv_def run_inv_def end_shut_down_def manager_step_def Let_def split: if_splits)
  qed (use quiet waits_inv_manager_turn [OF assms(3,4)] in \<open>simp_all add: quiet_turn_def\<close>)
qed

lemma reachable_waits_inv:
  assumes "rust_fsm transition fsm_output consume" "reachable e consume s"
  shows "waits_inv s"
  using assms(2)
proof (induction rule: reachable.induct)
  case (init client d rx)
  show ?case by (rule waits_inv_initial)
next
  case (turn s t s')
  from waits_inv_turn [OF assms(1) reachable_run_inv [OF assms(1) turn.hyps(1)] turn.IH turn.hyps(2)]
  show ?case .
qed

text \<open>The wait for the handler ends, whatever happens to the handler meanwhile.\<close>

definition wait_ends :: "'u ext \<Rightarrow> Manager \<Rightarrow> bool" where
  "wait_ends e m \<longleftrightarrow> (\<forall>t evs. ws_join_handle m = Some t \<longrightarrow>
     wt_phase (ws_run_out e evs (attach_ws m t)) = WsEnded)"

lemma stopping_wait_ends: "handler_stopping m \<Longrightarrow> wait_ends e m"
  unfolding wait_ends_def
proof (intro allI impI)
  fix t evs
  assume "handler_stopping m" "ws_join_handle m = Some t"
  then have "WsMessage.Command WsCommand.ShutDown \<in> set (queue (wt_rx (attach_ws m t))) \<or>
      wt_phase (attach_ws m t) = WsEnded"
    by (auto simp: handler_stopping_def attach_ws_def)
  then show "wt_phase (ws_run_out e evs (attach_ws m t)) = WsEnded" by (rule ws_run_out_ends)
qed




end
