(* ===== verification/Manager_Wellformed.thy ===== *)
theory Manager_Wellformed
  imports Manager_Waits
begin

text \<open>
  What is well formed about a manager in every reachable situation: the fields that only make
  sense together are set together, so that the branches of the code for the other combinations
  are not taken.
\<close>

section \<open>Well-formed managers\<close>

text \<open>A manager in a reconnect flow knows the connection to make again.\<close>

definition flow_wf :: "Manager \<Rightarrow> bool" where
  "flow_wf m \<longleftrightarrow> (in_reconnect_flow m \<longrightarrow> \<not> Option.is_none (connection_details m))"

text \<open>
  The handler and the two channels to it are there together, the channels to stay; and the
  receiver of what the handler sends is never dropped.
\<close>

definition channels_wf :: "Manager \<Rightarrow> bool" where
  "channels_wf m \<longleftrightarrow> Option.is_none (to_ws_tx m) = Option.is_none (from_ws_rx m) \<and>
     (Option.is_none (ws_join_handle m) \<or> \<not> Option.is_none (from_ws_rx m)) \<and>
     pred_option rx_open (from_ws_rx m)"

text \<open>The manager shares the flags of its network checker exactly while that works.\<close>

definition shared_flag :: "Manager \<Rightarrow> SharedFlag" where
  "shared_flag m =
     (if nc_is_operational (tv_on_network_checker m) then CheckerFlag else OwnFlag False)"

definition flags_wf :: "Manager \<Rightarrow> bool" where
  "flags_wf m \<longleftrightarrow> is_tv_on_network m = shared_flag m \<and> is_testing_tv_on_network m = shared_flag m"

text \<open>The details of the TV: the volume comes as a whole and with it the connection is initialized.\<close>

definition details_wf :: "Manager \<Rightarrow> bool" where
  "details_wf m \<longleftrightarrow>
     Option.is_none (ts_is_muted (tv_state m)) = Option.is_none (ts_volume (tv_state m)) \<and>
     Option.is_none (ts_is_volume_settable (tv_state m)) = Option.is_none (ts_volume (tv_state m)) \<and>
     (Option.is_none (ts_volume (tv_state m)) \<or> is_connection_initialized m) \<and>
     Option.is_none (tv_host_ip m) = (\<not> tv_host_ip_notifier m)"

definition manager_wf :: "Manager \<Rightarrow> bool" where
  "manager_wf m \<longleftrightarrow> flow_wf m \<and> channels_wf m \<and> flags_wf m \<and> details_wf m"

lemmas wf_defs = manager_wf_def flow_wf_def channels_wf_def flags_wf_def shared_flag_def
  details_wf_def in_reconnect_flow_def

section \<open>The elementary steps\<close>

named_theorems wf_steps

lemma wf_fields [simp]:
  "manager_wf (m\<lparr>output_tx := a\<rparr>) = manager_wf m" "manager_wf (m\<lparr>is_pairing := b\<rparr>) = manager_wf m"
  "manager_wf (m\<lparr>is_manual_disconnect_requested := b\<rparr>) = manager_wf m"
  "manager_wf (m\<lparr>session_connection_count := n\<rparr>) = manager_wf m"
  "manager_wf (m\<lparr>uuid_count := i\<rparr>) = manager_wf m" "manager_wf (m\<lparr>wait_count := i\<rparr>) = manager_wf m"
  "manager_wf (m\<lparr>reconnect_attempts := n\<rparr>) = manager_wf m"
  "manager_wf (m\<lparr>command_rx := rc\<rparr>) = manager_wf m" "manager_wf (m\<lparr>to_fsm_tx := ft\<rparr>) = manager_wf m"
  "manager_wf (m\<lparr>last_good_connection := lg\<rparr>) = manager_wf m"
  "manager_wf (m\<lparr>client_key := k\<rparr>) = manager_wf m" "manager_wf (m\<lparr>disk := d\<rparr>) = manager_wf m"
  "manager_wf (m\<lparr>ws_url := u\<rparr>) = manager_wf m" "manager_wf (m\<lparr>mac_addr := ma\<rparr>) = manager_wf m"
  "manager_wf (m\<lparr>tv_info := ti\<rparr>) = manager_wf m" "manager_wf (m\<lparr>tv_inputs := tn\<rparr>) = manager_wf m"
  "manager_wf (m\<lparr>tv_software_info := tsi\<rparr>) = manager_wf m"
  "manager_wf (m\<lparr>manager_status := st\<rparr>) = manager_wf m"
  "manager_wf (m\<lparr>discovery_tasks := i\<rparr>) = manager_wf m"
  "manager_wf (m\<lparr>discovery_searching := i\<rparr>) = manager_wf m"
  "manager_wf (m\<lparr>discovery_ending := i\<rparr>) = manager_wf m"
  "manager_wf (m\<lparr>connection_details := Some c, reconnect_flow_status := r\<rparr>) =
     manager_wf (m\<lparr>connection_details := Some c\<rparr>)"
  by (simp_all add: wf_defs)

lemma wf_checker:
  "manager_wf m \<Longrightarrow> nc_is_operational c = nc_is_operational (tv_on_network_checker m) \<Longrightarrow>
    manager_wf (m\<lparr>tv_on_network_checker := c\<rparr>)"
  by (simp_all add: wf_defs)

lemma wf_connection: "manager_wf m \<Longrightarrow> manager_wf (m\<lparr>connection_details := Some c\<rparr>)"
  by (simp_all add: wf_defs)

lemma wf_received:
  "manager_wf m \<Longrightarrow> from_ws_rx m = Some old \<Longrightarrow> rx_open c = rx_open old \<Longrightarrow>
    manager_wf (m\<lparr>from_ws_rx := Some c\<rparr>)"
  by (simp_all add: wf_defs)

lemma wf_tv_state:
  "manager_wf m \<Longrightarrow> ts_volume ts = ts_volume (tv_state m) \<Longrightarrow> ts_is_muted ts = ts_is_muted (tv_state m) \<Longrightarrow>
    ts_is_volume_settable ts = ts_is_volume_settable (tv_state m) \<Longrightarrow> manager_wf (m\<lparr>tv_state := ts\<rparr>)"
  by (simp_all add: wf_defs)

lemma wf_fsm [simp]: "manager_wf (send_to_fsm x m) = manager_wf m"
  by (simp add: send_to_fsm_def enter_zombie_state_def set_manager_status_eq split: option.split sum.split)

lemma wf_status [simp]: "manager_wf (set_manager_status st m) = manager_wf m"
  by (simp add: set_manager_status_eq)

lemma wf_fsm_error [simp]: "manager_wf (attempt_fsm_error x m) = manager_wf m"
  by (simp add: attempt_fsm_error_def)

lemma wf_import [simp]: "manager_wf (import_persisted_state e m) = manager_wf m"
  by (simp add: import_persisted_state_eq Let_def)

lemma wf_check [simp]: "manager_wf (check_network m) = manager_wf m"
  by (simp add: check_network_def nc_check_now_def wf_defs)

lemma wf_shut_down_ws [simp]: "manager_wf (shut_down_ws m) = manager_wf m"
  by (simp add: shut_down_ws_eq wf_defs)

lemma wf_host [wf_steps]: "manager_wf m \<Longrightarrow> manager_wf (set_host_ip_from_ws_url e m)"
  by (simp add: set_host_ip_from_ws_url_def wf_defs split: option.split)

lemma ws_step_tx_open [simp]: "rx_open (wt_tx (ws_step e ev t)) = rx_open (wt_tx t)"
proof -
  have caller: "rx_open (wt_tx (ws_on_caller msg err now t')) = rx_open (wt_tx t')" for msg err now t'
    by (cases msg) (auto simp: ws_defs chan_send_def split: WsCommand.split option.split)
  have socket: "rx_open (wt_tx (ws_on_socket msg t')) = rx_open (wt_tx t')" for msg t'
    by (cases "(msg, t')" rule: ws_on_socket.cases)
       (auto simp: ws_defs chan_send_def split: sum.split)
  show ?thesis
    by (cases "wt_phase t"; cases ev)
       (auto simp: ws_step_def caller socket ws_defs chan_send_def split: option.split sum.split)
qed

lemma ws_run_tx_open [simp]: "rx_open (wt_tx (ws_run e evs t)) = rx_open (wt_tx t)"
  by (induction evs arbitrary: t) simp_all

lemma ws_run_out_tx_open [simp]: "rx_open (wt_tx (ws_run_out e evs t)) = rx_open (wt_tx t)"
  by (simp add: ws_run_out_def ws_drain_def del: ws_run_simps)

lemma attached_open:
  "pred_option rx_open (from_ws_rx m) \<Longrightarrow> \<not> Option.is_none (from_ws_rx m) \<Longrightarrow>
    rx_open (wt_tx (attach_ws m t))"
  by (cases "from_ws_rx m") (simp_all add: attach_ws_def)

lemma wf_wait [wf_steps]: "manager_wf m \<Longrightarrow> manager_wf (await_ws_handler e m)"
  by (auto simp: await_ws_handler_def Let_def wf_defs attached_open split: option.split)

lemma wf_start_ws [wf_steps]:
  "manager_wf m \<Longrightarrow> manager_wf (start_websocket_handler_and_connect host m)"
  by (simp add: start_websocket_handler_and_connect_def Let_def wf_defs)

lemma wf_flow:
  "manager_wf m \<Longrightarrow> (r \<in> {Active, WaitingForTvOnNetwork} \<longrightarrow> \<not> Option.is_none (connection_details m)) \<Longrightarrow>
    manager_wf (set_reconnect_flow_status r m)"
  by (cases r) (simp_all add: set_reconnect_flow_status_eq wf_defs)

lemma wf_flow_over [wf_steps]:
  "manager_wf m \<Longrightarrow> manager_wf (set_reconnect_flow_status Inactive m)"
  "manager_wf m \<Longrightarrow> manager_wf (set_reconnect_flow_status Cancelled m)"
  by (simp_all add: wf_flow)

lemma wf_flow_auto [wf_steps]:
  "manager_wf m \<Longrightarrow> is_auto_reconnect_enabled m \<Longrightarrow> manager_wf (set_reconnect_flow_status r m)"
  by (rule wf_flow) (auto simp: is_auto_reconnect_enabled_def split: option.splits)

section \<open>The handlers\<close>

lemma wf_prepare [wf_steps]: "manager_wf m \<Longrightarrow> manager_wf (optionally_prepare_for_reconnect m)"
  by (auto simp: optionally_prepare_for_reconnect_def intro: wf_steps)

lemma wf_cleared: "manager_wf m \<Longrightarrow> manager_wf (cleared m)"
  by (cases "reconnect_flow_status m") (simp_all add: cleared_def Let_def wf_defs tv_state_default_def)

lemma wf_initialize [wf_steps]: "manager_wf m \<Longrightarrow> manager_wf (initialize_manager_state e m)"
  by (simp add: initialize_manager_state_eq Let_def wf_cleared)

lemma wf_reset [wf_steps]: "manager_wf m \<Longrightarrow> manager_wf (force_manager_reset e reason m)"
  by (simp add: force_manager_reset_def Let_def emit_manager_status_def wf_steps)

lemma wf_to_ws [wf_steps]: "manager_wf m \<Longrightarrow> manager_wf (send_to_ws e msg m)"
  by (cases "to_ws_tx m") (auto simp: send_to_ws_def chan_send_pushes wf_steps, simp add: wf_defs)

lemma wf_command [wf_steps]: "manager_wf m \<Longrightarrow> manager_wf (send_command e c m)"
  by (simp add: send_command_def generate_lgtv_message_id_def wf_steps)

lemma wf_initialize_connection [wf_steps]: "manager_wf m \<Longrightarrow> manager_wf (initialize_connection e m)"
  by (simp add: initialize_connection_def Let_def wf_steps split: option.split)

lemma wf_register_ip [wf_steps]: "manager_wf m \<Longrightarrow> manager_wf (register_tv_ip e url m)"
  by (auto simp: register_tv_ip_def nc_set_tv_ip_def nc_check_now_def intro: wf_checker split: option.split)

lemma wf_connect [wf_steps]: "manager_wf m \<Longrightarrow> manager_wf (snd (initiate_connect_to_tv e connection m))"
proof -
  assume m: "manager_wf m"
  let ?k = "case cs_client_key (settings_of connection) of
    Some k \<Rightarrow> m\<lparr>client_key := Some k\<rparr> | None \<Rightarrow> m"
  from m have k: "manager_wf ?k" by (simp split: option.split)
  have "connection_details (register_tv_ip e url (?k\<lparr>connection_details := Some connection\<rparr>)) = Some connection"
    for url by (simp add: register_tv_ip_def split: option.split)
  with k show ?thesis
    unfolding initiate_connect_to_tv_def Let_def
    by (auto intro!: wf_flow wf_register_ip wf_connection split: option.split sum.split)
qed

lemma wf_connect_reported [wf_steps]:
  "manager_wf m \<Longrightarrow> manager_wf (report_connect_error (initiate_connect_to_tv e connection m))"
  using wf_connect [of m e connection] by (auto simp: report_connect_error_def split: prod.split sum.split)

lemma wf_register [wf_steps]: "manager_wf m \<Longrightarrow> manager_wf (send_register_payload e m)"
  by (auto simp: send_register_payload_def Let_def intro: wf_steps split: prod.split sum.split)

lemma wf_wait_to_reconnect [simp]: "manager_wf (wait_to_reconnect e url m) = manager_wf m"
proof -
  have "manager_wf (fold (wait_feedback d url) clocks m') = manager_wf m'" for d clocks m'
    by (induction clocks arbitrary: m') (simp_all add: wait_feedback_def split: option.split)
  then show ?thesis by (simp add: wait_to_reconnect_def Let_def)
qed

text \<open>A reconnect is only ever begun in a flow, which has its connection.\<close>

lemma wf_reconnect:
  assumes "manager_wf m" "in_reconnect_flow m"
  shows "manager_wf (initiate_reconnect e immediate m)"
proof -
  from assms have "manager_wf (set_reconnect_flow_status Active m)"
    by (intro wf_flow) (auto simp: wf_defs)
  with assms(1) show ?thesis
    unfolding initiate_reconnect_def Let_def by (auto intro!: wf_steps split: option.split)
qed

lemma wf_disconnected [wf_steps]: "manager_wf m \<Longrightarrow> manager_wf (handle_disconnected e m)"
  by (auto simp: handle_disconnected_def Let_def in_reconnect_flow_def intro!: wf_steps wf_reconnect)

lemma wf_disconnect_tv [wf_steps]: "manager_wf m \<Longrightarrow> manager_wf (initiate_disconnect_from_tv e m)"
  by (simp add: initiate_disconnect_from_tv_def wf_steps)

lemma wf_connect_error [wf_steps]: "manager_wf m \<Longrightarrow> manager_wf (handle_connect_error e m)"
  by (auto simp: handle_connect_error_def Let_def in_reconnect_flow_def intro!: wf_steps wf_reconnect
      split: ReconnectFlowStatus.split)

lemma wf_output: "manager_wf m \<Longrightarrow> manager_wf (handle_output e x m)"
  by (cases x) (simp_all add: Let_def wf_steps)

lemma wf_update: "manager_wf m \<Longrightarrow> manager_wf (handle_state_machine_update e msg m)"
  by (cases msg) (simp_all add: wf_output)

lemma wf_cancel [wf_steps]: "manager_wf m \<Longrightarrow> manager_wf (cancel_reconnect e m)"
  by (simp add: cancel_reconnect_def Let_def wf_steps)

lemma wf_message: "manager_wf m \<Longrightarrow> manager_wf (handle_manager_message e msg m)"
  by (cases msg)
     (auto simp: discover_def wake_last_seen_tv_def emit_manager_status_def emit_all_tv_details_eq
       intro: wf_steps split: option.split)

lemma wf_complete [wf_steps]: "manager_wf m \<Longrightarrow> manager_wf (complete_initialization e m)"
proof -
  have "manager_wf (m'\<lparr>is_connection_initialized := True\<rparr>)" if "manager_wf m'" for m'
    using that by (simp_all add: wf_defs)
  then show "manager_wf m \<Longrightarrow> ?thesis" by (simp add: complete_initialization_def Let_def wf_steps)
qed

lemma wf_volume: "manager_wf m \<Longrightarrow> is_connection_initialized m \<Longrightarrow> manager_wf (set_volume_state v mu s m)"
  by (simp add: set_volume_state_def wf_defs)

lemma complete_initialized [simp]: "is_connection_initialized (complete_initialization e m)"
  by (simp add: complete_initialization_def Let_def set_host_ip_from_ws_url_def split: option.split)

lemma wf_payload [wf_steps]: "manager_wf m \<Longrightarrow> manager_wf (handle_payload e p m)"
  by (cases p)
     (auto simp: manager_defs handle_pair_def intro!: wf_volume wf_steps wf_tv_state)

lemma wf_written [wf_steps]: "manager_wf m \<Longrightarrow> manager_wf (manager_write_persisted_state e m)"
  by (simp add: manager_write_persisted_state_def manager_defs split: prod.split sum.split)

lemma wf_response [wf_steps]: "manager_wf m \<Longrightarrow> manager_wf (snd (handle_lgtv_response e r m))"
  by (simp add: handle_lgtv_response_def Let_def wf_steps split: LgTvResponse.split)

lemma wf_ws_message: "manager_wf m \<Longrightarrow> manager_wf (handle_ws_message e msg m)"
proof (cases msg)
  case (Status s)
  then show "manager_wf m \<Longrightarrow> ?thesis" by (cases s) (simp_all add: connection_lost_def wf_steps)
qed (simp_all add: wf_steps Let_def split: option.split)

lemma wf_on_network: "manager_wf m \<Longrightarrow> manager_wf (fst (handle_on_network_notify e was m))"
proof -
  assume m: "manager_wf m"
  define m1 where "m1 = emit_is_wake_tv_available (send_out
    (TvOnNetworkTestStatus (if load_is_tv_on_network m then Passed else Failed)) m)"
  define m2 where "m2 = (if was \<and> \<not> load_is_tv_on_network m then tv_gone_offline m1 else m1)"
  from m have "manager_wf m1" by (simp add: m1_def manager_defs)
  then have "manager_wf m2" by (simp add: m2_def tv_gone_offline_def wf_steps)
  then show ?thesis
    unfolding handle_on_network_notify_def Let_def fst_conv m1_def [symmetric] m2_def [symmetric]
    by (simp add: wf_reconnect in_reconnect_flow_def)
qed

lemma wf_testing: "manager_wf m \<Longrightarrow> manager_wf (handle_testing_notify m)"
  by (simp add: handle_testing_notify_def)

lemma wf_start: "manager_wf (run_start e client (manager_new e d rx))"
proof -
  have "manager_wf (manager_new e d rx)"
    unfolding manager_new_def wf_import by (simp add: wf_defs nc_new_def tv_state_default_def)
  moreover have "manager_wf (start_network_checker client m)"
    if "manager_wf m" for m
    using that by (simp add: start_network_checker_def nc_start_def wf_defs split: sum.split)
  ultimately show ?thesis
    by (simp add: run_start_def Let_def emit_manager_status_def wf_steps)
qed

section \<open>Every reachable situation\<close>

lemma chan_recv_open: "chan_recv c = Some (msg, rx) \<Longrightarrow> rx_open rx = rx_open c"
  by (auto simp: chan_recv_def split: list.splits)

text \<open>
  What the handlers of the manager, and what the tasks and the caller's messages do to the fields
  they share, lead to from a property of the manager: every turn leads to it, but for those in which
  the caller takes a message or stops listening. Where it is the same property, it is kept.
\<close>

locale manager_leads =
  fixes e :: "'u ext" and P :: "Manager \<Rightarrow> bool" and Q :: "Manager \<Rightarrow> bool"
  assumes message: "P m \<Longrightarrow> Q (handle_manager_message e msg m)"
    and update: "P m \<Longrightarrow> Q (handle_state_machine_update e u m)"
    and ws_message: "P m \<Longrightarrow> Q (handle_ws_message e w m)"
    and on_network: "P m \<Longrightarrow> Q (fst (handle_on_network_notify e was m))"
    and testing: "P m \<Longrightarrow> Q (handle_testing_notify m)"
    and stopped: "P m \<Longrightarrow> Q (initiate_disconnect_from_tv e m)"
    and commands: "P m \<Longrightarrow> P (m\<lparr>command_rx := c\<rparr>)"
    and machine: "P m \<Longrightarrow> P (m\<lparr>to_fsm_tx := fsm\<rparr>)"
    and received: "P m \<Longrightarrow> from_ws_rx m = Some old \<Longrightarrow> rx_open ws = rx_open old \<Longrightarrow>
      P (m\<lparr>from_ws_rx := Some ws\<rparr>)"
    and handler: "P m \<Longrightarrow> Q (ws_turn e ev m)"
    and checker: "P m \<Longrightarrow> nc_is_operational n = nc_is_operational (tv_on_network_checker m) \<Longrightarrow>
      P (m\<lparr>tv_on_network_checker := n\<rparr>)"
    and discovery: "P m \<Longrightarrow> Q (discovery_begins m)" "P m \<Longrightarrow> Q (discovery_reports found m)"
      "P m \<Longrightarrow> Q (discovery_ends m)"
    and idle: "P m \<Longrightarrow> Q m"
begin

lemma step [simp]: "run_manager (manager_step f s) = f (run_manager s)"
  by (simp add: manager_step_def Let_def)

lemma task: "P (run_manager s) \<Longrightarrow> P (run_manager (fsm_task_turn f s))"
  by (simp add: fsm_task_turn_def Let_def machine)

lemma notified:
  assumes "P (run_manager s)" "take_notify permit clear s = Some s'"
    "\<And>c. nc_is_operational (clear c) = nc_is_operational c"
  shows "P (run_manager s')"
  using assms by (auto simp: take_notify_def split: if_splits intro!: checker)

lemma ended: "P (run_manager s) \<Longrightarrow> Q (run_manager (end_shut_down e s))"
  by (simp add: end_shut_down_def Let_def stopped)

lemma turn_leads:
  assumes inv: "P (run_manager s)" and t: "run_turn e consume t s = Some s'"
    and out: "t = CallerReceives \<or> t = CallerCloses \<Longrightarrow> Q (run_manager s')"
  shows "Q (run_manager s')"
proof (cases t)
  case FromCaller
  with inv t show ?thesis
    by (auto simp: Let_def begin_shut_down_def split: if_splits option.splits intro!: message commands idle [OF commands])
next
  case FromStateMachine
  with inv t show ?thesis by (auto split: if_splits option.splits intro!: update)
next
  case FromWebSocket
  with inv t show ?thesis by (auto split: if_splits option.splits intro!: ws_message
       intro: idle received [OF _ _ chan_recv_open])
next
  case OnNetworkNotified
  with t obtain s1 where s1: "take_notify (nc_on_network_notify (tv_on_network_checker (run_manager s)))
      (\<lambda>c. c\<lparr>nc_on_network_notify := False\<rparr>) s = Some s1"
    and s': "run_manager s' =
      run_manager (manager_step (\<lambda>m. fst (handle_on_network_notify e (run_was_on_network s1) m)) s1)"
    by (auto simp: Let_def split: option.splits)
  from on_network [OF notified [OF inv s1]] s' show ?thesis by simp
next
  case TestingNotified
  with t obtain s1 where s1: "take_notify (nc_pinging_notify (tv_on_network_checker (run_manager s)))
      (\<lambda>c. c\<lparr>nc_pinging_notify := False\<rparr>) s = Some s1"
    and s': "s' = manager_step handle_testing_notify s1"
    by (auto split: option.splits)
  from testing [OF notified [OF inv s1]] s' show ?thesis by simp
next
  case (CheckerTurn ev)
  have "nc_is_operational (nc_step ev c) = nc_is_operational c" for c
    by (simp add: nc_defs split: option.split nc_event.split)
  with CheckerTurn inv t show ?thesis by (auto intro!: idle [OF checker])
qed (use inv t out in \<open>auto split: if_splits sum.splits option.splits
       intro!: idle [OF task] handler discovery idle [OF commands] ended\<close>)

end

text \<open>A property that every turn leads back to.\<close>

locale manager_kept = manager_leads e P P for e :: "'u ext" and P
begin

lemmas turn_keeps = turn_leads

end

text \<open>If it also holds at the start, whatever the caller takes, it holds in every situation.\<close>

locale manager_invariant = manager_kept +
  assumes start: "P (run_start e client (manager_new e d rx))"
    and told: "P m \<Longrightarrow> P (m\<lparr>output_tx := out\<rparr>)"
begin

lemma reachable_inv: "reachable e consume s \<Longrightarrow> P (run_manager s)"
proof (induction rule: reachable.induct)
  case (turn s t s')
  from turn.IH turn.hyps(2) show ?case
    by (rule turn_keeps) (use turn.IH turn.hyps(2) in \<open>auto split: option.splits intro!: told\<close>)
qed (simp add: run_initial_def Let_def start)

end

lemma wf_handler: "manager_wf m \<Longrightarrow> manager_wf (ws_turn e ev m)"
  by (auto simp: ws_turn_def Let_def wf_defs attached_open split: option.split)

interpretation wellformed: manager_invariant e manager_wf
  by unfold_locales
    (auto simp: discovery_begins_def discovery_reports_def discovery_ends_def Let_def wf_start wf_message wf_update
      wf_ws_message wf_on_network wf_testing wf_disconnect_tv wf_received wf_handler wf_checker
      split: sum.split)

text \<open>C14: Every manager is well formed, in every reachable situation, whatever the caller, the TV, the
  network and the scheduling did. A manager in a reconnect flow has the connection to make again,
  so a reconnect never ends silently for want of one; a handler comes with both its channels; the
  network flags the manager reads are those of its network checker exactly while that works;
  volume, mute and volume control are known together, and only once the connection is
  initialized; and the address of the TV is known exactly when its users have been notified.\<close>

theorem manager_well_formed:
  assumes "reachable e consume s" "m = run_manager s"
  shows "(in_reconnect_flow m \<longrightarrow> connection_details m \<noteq> None) \<and>
    (ws_join_handle m \<noteq> None \<longrightarrow> to_ws_tx m \<noteq> None \<and> from_ws_rx m \<noteq> None) \<and>
    load_is_tv_on_network m = (nc_is_operational (tv_on_network_checker m) \<and>
      nc_is_tv_on_network (tv_on_network_checker m)) \<and>
    load_is_testing_tv_on_network m = (nc_is_operational (tv_on_network_checker m) \<and>
      nc_is_pinging (tv_on_network_checker m)) \<and>
    (ts_volume (tv_state m) \<noteq> None \<longrightarrow> ts_is_muted (tv_state m) \<noteq> None \<and>
      ts_is_volume_settable (tv_state m) \<noteq> None \<and> is_connection_initialized m) \<and>
    (tv_host_ip m \<noteq> None \<longleftrightarrow> tv_host_ip_notifier m)"
  using wellformed.reachable_inv [OF assms(1)]
  by (auto simp: assms(2) wf_defs Option.is_none_def load_is_tv_on_network_def
      load_is_testing_tv_on_network_def)

theorem manager_well_formed_witness:
  "\<exists>s. reachable demo_session consume_doc s \<and> ws_join_handle (run_manager s) \<noteq> None \<and>
     to_ws_tx (run_manager s) \<noteq> None \<and> from_ws_rx (run_manager s) \<noteq> None"
proof -
  obtain s where s: "reachable demo_session consume_doc s"
    and v: "shows_session (demo_connection True True) ''wss://tv:3001/'' s
        (session_communicating ''wss://tv:3001/'')"
    by (rule demo_stages)
  from v have "ws_join_handle (run_manager s) \<noteq> None"
    by (auto simp: shows_session_def session_communicating_def handler_at_def)
  with manager_well_formed [OF s refl] s show ?thesis by blast
qed


end
