(* ===== verification/Manager_Bounds.thy ===== *)
theory Manager_Bounds
  imports Manager_Wellformed
begin

text \<open>
  The capacity of the channels. In \<open>Manager_Run\<close> a channel takes any number of messages; in the
  program every channel between the tasks holds 32, and a task that sends into a full one waits
  for room. Here the two channels between the manager and the state machine, and the one from the
  WebSocket handler while the manager waits for its end, are bounded: where that cannot matter,
  and where it stops the program.

  A message that does not fit is appended all the same, and its sender waits while the channel
  is overfull: the messages beyond the capacity are those still in the hands of the sender, which
  has a room for them as soon as the receiver has read as many.
\<close>

section \<open>Bounded channels\<close>

definition CHANNEL_CAPACITY :: nat where
  "CHANNEL_CAPACITY = 32"

definition overfull :: "'a chan \<Rightarrow> bool" where
  "overfull c \<longleftrightarrow> rx_open c \<and> CHANNEL_CAPACITY < length (queue c)"

text \<open>
  The manager waits for room in the channel to the machine, the machine in the channel back.
\<close>

definition manager_turn :: "turn \<Rightarrow> bool" where
  "manager_turn t \<longleftrightarrow> t \<in> {FromCaller, FromStateMachine, FromWebSocket, OnNetworkNotified,
     TestingNotified, ShutDownEnds}"

definition manager_waits :: "Run \<Rightarrow> bool" where
  "manager_waits s \<longleftrightarrow> overfull (fsm_rx (run_fsm s))"

definition machine_waits :: "Run \<Rightarrow> bool" where
  "machine_waits s \<longleftrightarrow> overfull (fsm_tx (run_fsm s))"

definition bounded_turn :: "'u ext \<Rightarrow> consumer \<Rightarrow> turn \<Rightarrow> Run \<Rightarrow> Run option" where
  "bounded_turn e consume t s =
     (if manager_turn t \<and> manager_waits s \<or> t \<in> {FsmReceives, FsmCancelled} \<and> machine_waits s then None
      else run_turn e consume t s)"

fun bounded_turns :: "'u ext \<Rightarrow> consumer \<Rightarrow> turn list \<Rightarrow> Run \<Rightarrow> Run option" where
  "bounded_turns e consume [] s = Some s"
| "bounded_turns e consume (t # ts) s =
     Option.bind (bounded_turn e consume t s) (bounded_turns e consume ts)"

inductive bounded_reachable :: "'u ext \<Rightarrow> consumer \<Rightarrow> Run \<Rightarrow> bool" for e consume where
  init: "bounded_reachable e consume (run_initial e client (manager_new e d rx))"
| turn: "bounded_reachable e consume s \<Longrightarrow> bounded_turn e consume t s = Some s' \<Longrightarrow>
     bounded_reachable e consume s'"

section \<open>The bounded program is one of the unbounded\<close>

lemma bounded_turn_runs: "bounded_turn e consume t s = Some s' \<Longrightarrow> run_turn e consume t s = Some s'"
  by (auto simp: bounded_turn_def split: if_splits)

lemma bounded_reachable_runs: "bounded_reachable e consume s \<Longrightarrow> reachable e consume s"
  by (induction rule: bounded_reachable.induct) (blast intro: reachable.intros bounded_turn_runs)+

text \<open>Short of a full channel a turn is as in the unbounded program.\<close>

lemma bounded_turn_room:
  assumes "length (queue (fsm_rx (run_fsm s))) \<le> 32" "length (queue (fsm_tx (run_fsm s))) \<le> 32"
  shows "bounded_turn e consume t s = run_turn e consume t s"
  using assms
  by (simp add: bounded_turn_def manager_waits_def machine_waits_def overfull_def CHANNEL_CAPACITY_def)

section \<open>Both sides wait\<close>

text \<open>
  The manager waits for the machine and the machine for the manager: the machine has a report in
  hand that only the manager could make room for, and the manager either an input that only the
  machine could, or \<open>ShutDown\<close>, for which it waits until the machine's task has ended.
\<close>

definition stuck :: "Run \<Rightarrow> bool" where
  "stuck s \<longleftrightarrow> machine_waits s \<and> fsm_running (run_fsm s) \<and>
     (manager_waits s \<or> run_stopping s \<and> \<not> run_looping s) \<and>
     to_fsm_tx (run_manager s) = Some (fsm_rx (run_fsm s))"

text \<open>What of a stuck program never changes; of the caller's messages none is taken.\<close>

definition frozen :: "Run \<Rightarrow> Run \<Rightarrow> bool" where
  "frozen s s' \<longleftrightarrow> run_fsm s' = run_fsm s \<and> run_looping s' = run_looping s \<and>
     run_stopping s' = run_stopping s \<and>
     manager_status (run_manager s') = manager_status (run_manager s) \<and>
     (\<exists>sent. queue (command_rx (run_manager s')) = queue (command_rx (run_manager s)) @ sent)"

lemma frozen_refl [simp]: "frozen s s"
  by (simp add: frozen_def)

lemma frozen_trans: "frozen a b \<Longrightarrow> frozen b c \<Longrightarrow> frozen a c"
  by (auto simp: frozen_def)

text \<open>A step that leaves the machine, the status and the messages of the caller alone.\<close>

definition aside :: "(Manager \<Rightarrow> Manager) \<Rightarrow> Run \<Rightarrow> bool" where
  "aside f s \<longleftrightarrow> to_fsm_tx (f (run_manager s)) = to_fsm_tx (run_manager s) \<and>
     manager_status (f (run_manager s)) = manager_status (run_manager s) \<and>
     (\<exists>sent. queue (command_rx (f (run_manager s))) = queue (command_rx (run_manager s)) @ sent)"

lemma aside_fsm:
  "to_fsm_tx (run_manager s) = Some (fsm_rx (run_fsm s)) \<Longrightarrow> aside f s \<Longrightarrow>
    run_fsm (manager_step f s) = run_fsm s"
  by (simp add: manager_step_def Let_def aside_def)

lemma aside_frozen:
  "to_fsm_tx (run_manager s) = Some (fsm_rx (run_fsm s)) \<Longrightarrow> aside f s \<Longrightarrow> frozen s (manager_step f s)"
  by (simp add: frozen_def aside_fsm) (simp add: manager_step_def Let_def aside_def)

text \<open>The turns that are neither the manager's nor the machine's are such steps.\<close>

lemma outside_turn:
  assumes "run_turn e consume t s = Some s'" "\<not> manager_turn t" "t \<notin> {FsmReceives, FsmCancelled}"
  obtains f where "s' = manager_step f s" "aside f s"
proof (cases t)
  case (WsTurn ev)
  have "command_rx (ws_turn e ev m) = command_rx m" for m
    by (simp add: ws_turn_def Let_def split: option.split)
  with WsTurn assms(1) that [of "ws_turn e ev"] show ?thesis by (simp add: aside_def ws_turn_frame)
next
  case (CheckerTurn ev)
  with assms(1) that [of "\<lambda>m. m\<lparr>tv_on_network_checker := nc_step ev (tv_on_network_checker m)\<rparr>"]
  show ?thesis by (simp add: aside_def)
next
  case DiscoveryBegins
  with assms(1) that [of discovery_begins] show ?thesis
    by (simp add: aside_def discovery_begins_def split: if_splits)
next
  case (DiscoveryReports found)
  with assms(1) that [of "discovery_reports found"] show ?thesis
    by (simp add: aside_def discovery_reports_def split: if_splits)
next
  case DiscoveryEnds
  with assms(1) that [of discovery_ends] show ?thesis
    by (simp add: aside_def discovery_ends_def split: if_splits)
next
  case (CallerSends msg)
  with assms(1) obtain c where c: "chan_send (command_rx (run_manager s)) msg = Inr c"
    "s' = manager_step (\<lambda>m. m\<lparr>command_rx := c\<rparr>) s" by (auto split: sum.splits)
  from c(1) have "queue c = queue (command_rx (run_manager s)) @ [msg]"
    by (auto simp: chan_send_def split: if_splits)
  with c(2) that [of "\<lambda>m. m\<lparr>command_rx := c\<rparr>"] show ?thesis by (simp add: aside_def)
next
  case CallerReceives
  with assms(1) that show ?thesis by (auto simp: aside_def split: option.splits)
next
  case CallerCloses
  with assms(1) that [of "\<lambda>m. m\<lparr>output_tx := chan_close (output_tx m)\<rparr>"] show ?thesis
    by (simp add: aside_def)
qed (use assms(2,3) in \<open>auto simp: manager_turn_def\<close>)

lemma stuck_turn:
  assumes "stuck s" "bounded_turn e consume t s = Some s'"
  shows "stuck s' \<and> frozen s s'"
proof -
  have "\<not> manager_turn t \<and> t \<notin> {FsmReceives, FsmCancelled}"
  proof (cases "manager_waits s")
    case True
    with assms show ?thesis by (auto simp: bounded_turn_def stuck_def split: if_splits)
  next
    case False
    with assms show ?thesis
      by (auto simp: bounded_turn_def stuck_def manager_turn_def take_notify_def split: if_splits)
  qed
  then obtain f where f: "s' = manager_step f s" "aside f s"
    using outside_turn [OF bounded_turn_runs [OF assms(2)]] by blast
  from assms(1) have l: "to_fsm_tx (run_manager s) = Some (fsm_rx (run_fsm s))" by (simp add: stuck_def)
  note fz = aside_frozen [OF l f(2)]
  have "to_fsm_tx (run_manager s') = to_fsm_tx (run_manager s)"
    using f by (simp add: aside_def manager_step_def Let_def)
  with fz l assms(1) f(1) show ?thesis
    by (simp add: stuck_def frozen_def manager_waits_def machine_waits_def)
qed

lemma stuck_turns:
  "stuck s \<Longrightarrow> bounded_turns e consume ts s = Some s' \<Longrightarrow> stuck s' \<and> frozen s s'"
proof (induction ts arbitrary: s)
  case (Cons t ts)
  then obtain s1 where s1: "bounded_turn e consume t s = Some s1" "bounded_turns e consume ts s1 = Some s'"
    by (cases "bounded_turn e consume t s") auto
  from stuck_turn [OF Cons.prems(1) s1(1)] Cons.IH [OF _ s1(2)] show ?case
    by (blast intro: frozen_trans)
qed simp

section \<open>A flood of commands\<close>

text \<open>
  A communicating manager to which \<open>n\<close> commands are on their way, \<open>k\<close> having come back from the
  machine as a state and an output each.
\<close>

definition flooded :: "string \<Rightarrow> TvCommand \<Rightarrow> nat \<Rightarrow> nat \<Rightarrow> Run \<Rightarrow> bool" where
  "flooded url c n k s \<longleftrightarrow> machine_at s (Communicating url) (Communicating url)
       (replicate n (Input.SendCommand c))
       (concat (replicate k [StateMachineUpdateMessage.State (Communicating url),
                             StateMachineUpdateMessage.Output (Output.SendCommand c)])) \<and>
     command_rx (run_manager s) = \<lparr>queue = [], rx_open = True\<rparr>"

definition call_turns :: "TvCommand \<Rightarrow> turn list" where
  "call_turns c = [CallerSends (SendTvCommand c), FromCaller]"

text \<open>Seventeen commands the machine handles, and then 33 that it has no room to answer.\<close>

definition flood_turns :: "TvCommand \<Rightarrow> turn list" where
  "flood_turns c = concat (replicate 17 (call_turns c @ [FsmReceives])) @
     concat (replicate 33 (call_turns c))"

lemma replicate_snoc: "replicate n x @ [x] = x # replicate n x"
  by (induction n) simp_all

lemma bounded_turns_append:
  "bounded_turns e consume (ts @ us) b =
     Option.bind (bounded_turns e consume ts b) (bounded_turns e consume us)"
proof (induction ts arbitrary: b)
  case (Cons t ts)
  then show ?case by (cases "bounded_turn e consume t b") simp_all
qed simp

lemma flooded_lengths:
  assumes "flooded url c n k s"
  shows "length (queue (fsm_rx (run_fsm s))) = n" "length (queue (fsm_tx (run_fsm s))) = 2 * k"
  using assms by (simp_all add: flooded_def machine_at_def length_concat sum_list_replicate)

lemma call_run:
  assumes "flooded url c n k s"
  shows "\<exists>s1 s2. run_turn e consume (CallerSends (SendTvCommand c)) s = Some s1 \<and>
    run_fsm s1 = run_fsm s \<and> run_turn e consume FromCaller s1 = Some s2 \<and>
    flooded url c (Suc n) k s2"
  using assms
  by (auto simp: flooded_def machine_at_def chan_send_def chan_recv_def manager_step_def Let_def
      send_to_fsm_eq chan_pushes_def replicate_snoc)

text \<open>A command goes in while the manager has room; the machine may be waiting already.\<close>

lemma call_bounded:
  assumes "flooded url c n k s" "n \<le> 32"
  shows "\<exists>s2. bounded_turns e consume (call_turns c) s = Some s2 \<and> flooded url c (Suc n) k s2"
proof -
  from call_run [OF assms(1), of e consume] obtain s1 s2 where
    s1: "run_turn e consume (CallerSends (SendTvCommand c)) s = Some s1" "run_fsm s1 = run_fsm s"
    "run_turn e consume FromCaller s1 = Some s2" "flooded url c (Suc n) k s2" by blast
  have "\<not> overfull (fsm_rx (run_fsm s1))"
    using flooded_lengths(1) [OF assms(1)] assms(2) s1(2) by (simp add: overfull_def CHANNEL_CAPACITY_def)
  then have "bounded_turn e consume FromCaller s1 = Some s2"
    by (simp add: bounded_turn_def manager_waits_def s1 del: run_turn.simps)
  moreover have "bounded_turn e consume (CallerSends (SendTvCommand c)) s = Some s1"
    by (simp add: bounded_turn_def manager_turn_def s1 del: run_turn.simps)
  ultimately show ?thesis using s1(4) by (simp add: call_turns_def)
qed

lemma bounded_iterate:
  assumes "Q 0 s" and step: "\<And>i s. Q i s \<Longrightarrow> i < j \<Longrightarrow> \<exists>s2. bounded_turns e consume ts s = Some s2 \<and> Q (Suc i) s2"
  shows "\<exists>s2. bounded_turns e consume (concat (replicate j ts)) s = Some s2 \<and> Q j s2"
  using step
proof (induction j)
  case 0
  with assms(1) show ?case by simp
next
  case (Suc j)
  then obtain s1 where s1: "bounded_turns e consume (concat (replicate j ts)) s = Some s1" "Q j s1"
    by (meson less_SucI)
  have ts: "concat (replicate (Suc j) ts) = concat (replicate j ts) @ ts"
    by (simp flip: replicate_append_same)
  from Suc.prems [OF s1(2)] s1(1) show ?case unfolding ts bounded_turns_append by auto
qed

lemma answered_bounded:
  assumes "rust_fsm transition fsm_output consume" "flooded url c 0 k s" "k \<le> 16"
  shows "\<exists>s2. bounded_turns e consume (call_turns c @ [FsmReceives]) s = Some s2 \<and> flooded url c 0 (Suc k) s2"
proof -
  from call_bounded [OF assms(2), of e consume] obtain s1 where
    s1: "bounded_turns e consume (call_turns c) s = Some s1" "flooded url c 1 k s1" by auto
  have "concat (replicate k [a, b]) @ [a, b] = concat (replicate (Suc k) [a, b])" for a b :: 'x
    by (induction k) simp_all
  with s1(2) have "\<exists>s2. run_turn e consume FsmReceives s1 = Some s2 \<and> flooded url c 0 (Suc k) s2"
    by (auto simp: flooded_def machine_at_def fsm_task_turn_def fsm_recv_def chan_recv_def Let_def
        fsm_handle_open [OF assms(1)] fsm_next_def fsm_report_def)
  then obtain s2 where "run_turn e consume FsmReceives s1 = Some s2" "flooded url c 0 (Suc k) s2" by blast
  moreover have "\<not> overfull (fsm_tx (run_fsm s1))"
    using flooded_lengths(2) [OF s1(2)] assms(3) by (simp add: overfull_def CHANNEL_CAPACITY_def)
  ultimately show ?thesis using s1(1)
    by (simp add: bounded_turns_append bounded_turn_def manager_turn_def machine_waits_def
        del: run_turn.simps)
qed

lemma flooded_waits:
  assumes "flooded url c 33 17 s"
  shows "manager_waits s" "machine_waits s" "run_looping s"
  using assms flooded_lengths [OF assms]
  by (simp_all add: manager_waits_def machine_waits_def overfull_def CHANNEL_CAPACITY_def
      flooded_def machine_at_def)

lemma flooded_stuck: "flooded url c 33 17 s \<Longrightarrow> stuck s"
  using flooded_waits by (auto simp: stuck_def flooded_def machine_at_def)

lemma answers_bounded:
  assumes "rust_fsm transition fsm_output consume" "flooded url c 0 0 s"
  obtains s1 where "bounded_turns e consume (concat (replicate 17 (call_turns c @ [FsmReceives])))
      s = Some s1" "flooded url c 0 17 s1"
proof -
  have "\<exists>s2. bounded_turns e consume (concat (replicate 17 (call_turns c @ [FsmReceives])))
      s = Some s2 \<and> flooded url c 0 17 s2"
    using assms(2) by (rule bounded_iterate) (simp add: answered_bounded [OF assms(1)])
  with that show thesis by blast
qed

lemma flood_sticks:
  assumes "rust_fsm transition fsm_output consume" "flooded url c 0 0 s"
  shows "\<exists>b. bounded_turns e consume (flood_turns c) s = Some b \<and> flooded url c 33 17 b"
proof -
  from assms obtain s1 where s1: "bounded_turns e consume (concat (replicate 17 (call_turns c @ [FsmReceives])))
      s = Some s1" "flooded url c 0 17 s1" by (rule answers_bounded)
  have "\<exists>s2. bounded_turns e consume (concat (replicate 33 (call_turns c))) s1 = Some s2 \<and>
      flooded url c 33 17 s2"
    using s1(2) by (rule bounded_iterate [of "\<lambda>n. flooded url c n 17"]) (simp add: call_bounded)
  then obtain s2 where "bounded_turns e consume (concat (replicate 33 (call_turns c))) s1 = Some s2"
    "flooded url c 33 17 s2" by blast
  with s1(1) show ?thesis unfolding flood_turns_def bounded_turns_append by auto
qed

text \<open>C11: With channels of 32 messages, a flood of commands can stop the program for good. From every
  communicating manager with nothing on its way there is an order of turns in which fifty commands
  of the caller fill both channels: the machine waits for room to report, the manager for room to
  hand the next command over, and only the manager reads reports. From then on, whatever happens,
  the manager takes no turn: it reads no message of the caller, \<open>ShutDown\<close> included, and the
  machine and the status stay as they are.\<close>

theorem command_flood_deadlocks:
  assumes "rust_fsm transition fsm_output consume" "flooded url c 0 0 s"
  shows "\<exists>s1. bounded_turns e consume (flood_turns c) s = Some s1 \<and>
    (\<forall>ts s2. bounded_turns e consume ts s1 = Some s2 \<longrightarrow>
       run_looping s2 \<and> manager_waits s2 \<and> machine_waits s2 \<and> frozen s1 s2)"
proof -
  from flood_sticks [OF assms, of e] obtain s1 where
    s1: "bounded_turns e consume (flood_turns c) s = Some s1" "flooded url c 33 17 s1" by blast
  have "run_looping s2 \<and> manager_waits s2 \<and> machine_waits s2 \<and> frozen s1 s2"
    if "bounded_turns e consume ts s1 = Some s2" for ts s2
  proof -
    from stuck_turns [OF flooded_stuck [OF s1(2)] that] have "machine_waits s2" "frozen s1 s2"
      by (simp_all add: stuck_def)
    with flooded_waits [OF s1(2)] show ?thesis
      by (simp add: frozen_def manager_waits_def)
  qed
  with s1(1) show ?thesis by blast
qed

text \<open>The machine need not be out of room for inputs: it is enough that it waits to report.\<close>

definition shut_down_turns :: "TvCommand \<Rightarrow> turn list" where
  "shut_down_turns c = concat (replicate 17 (call_turns c @ [FsmReceives])) @
     [CallerSends ManagerMessage.ShutDown, FromCaller]"

lemma flooded_shut_down:
  assumes "flooded url c 0 17 s"
  shows "\<exists>s1. bounded_turns e consume [CallerSends ManagerMessage.ShutDown, FromCaller] s = Some s1 \<and>
    stuck s1 \<and> run_stopping s1"
proof -
  let ?s1 = "manager_step (\<lambda>m. m\<lparr>command_rx := \<lparr>queue = [ManagerMessage.ShutDown], rx_open = True\<rparr>\<rparr>) s"
  let ?s2 = "begin_shut_down (manager_step (\<lambda>m. m\<lparr>command_rx := \<lparr>queue = [], rx_open = True\<rparr>\<rparr>) ?s1)"
  from assms have m: "run_looping s" "fsm_running (run_fsm s)"
    "to_fsm_tx (run_manager s) = Some (fsm_rx (run_fsm s))" "rx_open (fsm_tx (run_fsm s))"
    and cmd: "command_rx (run_manager s) = \<lparr>queue = [], rx_open = True\<rparr>"
    by (simp_all add: flooded_def machine_at_def)
  then have fsm: "run_fsm ?s1 = run_fsm s" "run_fsm ?s2 = run_fsm s"
    by (simp_all add: manager_step_def begin_shut_down_def Let_def)
  have full: "overfull (fsm_tx (run_fsm s))" "\<not> overfull (fsm_rx (run_fsm s))"
    using flooded_lengths [OF assms] m by (simp_all add: overfull_def CHANNEL_CAPACITY_def)
  have "run_turn e consume (CallerSends ManagerMessage.ShutDown) s = Some ?s1"
    "run_turn e consume FromCaller ?s1 = Some ?s2"
    using cmd m(1) by (simp_all add: chan_send_def chan_recv_def manager_step_def Let_def)
  then have "bounded_turn e consume (CallerSends ManagerMessage.ShutDown) s = Some ?s1"
    "bounded_turn e consume FromCaller ?s1 = Some ?s2"
    using full fsm(1) by (simp_all add: bounded_turn_def manager_turn_def manager_waits_def del: run_turn.simps)
  moreover have "stuck ?s2 \<and> run_stopping ?s2"
    using fsm full m by (simp add: stuck_def machine_waits_def)
      (simp add: begin_shut_down_def manager_step_def Let_def)
  ultimately show ?thesis by simp
qed

text \<open>C18: A \<open>ShutDown\<close> need not end the program. If the manager takes seventeen commands before it reads a
  report of the machine, the machine waits for room to report; a \<open>ShutDown\<close> taken then makes the
  manager wait for the machine's task to end, and neither ever goes on, whatever happens.\<close>

theorem shut_down_deadlocks:
  assumes "rust_fsm transition fsm_output consume" "flooded url c 0 0 s"
  shows "\<exists>s1. bounded_turns e consume (shut_down_turns c) s = Some s1 \<and>
    (\<forall>ts s2. bounded_turns e consume ts s1 = Some s2 \<longrightarrow>
       run_stopping s2 \<and> fsm_running (run_fsm s2) \<and> machine_waits s2 \<and> frozen s1 s2)"
proof -
  from assms obtain s0 where s0: "bounded_turns e consume (concat (replicate 17 (call_turns c @ [FsmReceives])))
      s = Some s0" "flooded url c 0 17 s0" by (rule answers_bounded)
  from flooded_shut_down [OF s0(2), of e consume] obtain s1 where
    s1: "bounded_turns e consume [CallerSends ManagerMessage.ShutDown, FromCaller] s0 = Some s1"
    "stuck s1" "run_stopping s1" by blast
  have "bounded_turns e consume (shut_down_turns c) s = Some s1"
    unfolding shut_down_turns_def bounded_turns_append s0(1) bind.simps by (rule s1(1))
  moreover have "run_stopping s2 \<and> fsm_running (run_fsm s2) \<and> machine_waits s2 \<and> frozen s1 s2"
    if "bounded_turns e consume ts s1 = Some s2" for ts s2
    using stuck_turns [OF s1(2) that] s1(3) unfolding stuck_def frozen_def by metis
  ultimately show ?thesis by blast
qed

section \<open>Short of that\<close>


section \<open>A session within the bounds\<close>

text \<open>The protocol of a session, while no more than 32 messages wait in either channel.\<close>

definition session_room :: "session \<Rightarrow> bool" where
  "session_room v \<longleftrightarrow> length (se_ins v) \<le> 32 \<and> length (se_outs v) \<le> 32"

text \<open>A turn adds at most one input, and reports, at most two, only where the machine takes one.\<close>

lemma session_next_growth:
  assumes "session_next e url t v = Some v'"
  shows "length (se_ins v') \<le> length (se_ins v) + 1"
    "length (se_outs v') \<le> length (se_outs v) + (if t = FsmReceives then 2 else 0)"
proof -
  have report: "se_ins v' = se_ins v \<and> se_outs v' = se_outs v"
    if "session_report e url msg v = Some v'" for msg v
    using that by (induction e url msg v rule: session_report.induct)
      (auto simp: add_waiting_def split: if_splits)
  have update: "length (se_ins v') \<le> length (se_ins v) + 1 \<and> se_outs v' = se_outs v"
    if "session_update e u v = Some v'" for u v
    using that by (induction e u v rule: session_update.induct)
      (auto split: option.splits LgTvResponse.splits if_splits)
  have ws: "se_ins v' = se_ins v \<and> se_outs v' = se_outs v" if "session_ws e url ev v = Some v'" for ev v
    using that by (induction e url ev v rule: session_ws.induct)
      (auto split: if_splits list.splits WsMessage.splits WsCommand.splits)
  have fsm: "length (fsm_report consume_doc x i) \<le> 2" for x i
    by (simp add: fsm_report_def split: option.split)
  have "length (se_ins v') \<le> length (se_ins v) + 1 \<and>
      length (se_outs v') \<le> length (se_outs v) + (if t = FsmReceives then 2 else 0)"
    using assms
  proof (cases "(e, url, t, v)" rule: session_next.cases)
    case (1 e url v)
    with assms fsm show ?thesis by (auto split: list.splits)
  next
    case (2 e url v)
    with assms report show ?thesis by (fastforce split: list.splits)
  next
    case (3 e url v)
    with assms update show ?thesis by (fastforce split: list.splits option.splits)
  next
    case (4 e url ev v)
    with assms ws show ?thesis by auto
  next
    case (6 e url v)
    with assms show ?thesis by (auto split: list.splits ManagerMessage.splits)
  qed auto
  then show "length (se_ins v') \<le> length (se_ins v) + 1"
    "length (se_outs v') \<le> length (se_outs v) + (if t = FsmReceives then 2 else 0)" by simp_all
qed

lemma session_room_bounded:
  assumes "shows_session connection url s v" "session_room v" "run_turn e consume_doc t s = Some s'"
  shows "bounded_turn e consume_doc t s = Some s'"
  using assms by (subst bounded_turn_room) (simp_all add: session_defs session_room_def)

lemma session_bounded:
  "session_runs e url ts v = Some v' \<Longrightarrow> shows_session connection url s v \<Longrightarrow>
    length (se_ins v) + length ts \<le> 32 \<Longrightarrow>
    length (se_outs v) + 2 * length (filter (\<lambda>t. t = FsmReceives) ts) \<le> 32 \<Longrightarrow>
    bounded_reachable e consume_doc s \<Longrightarrow>
    \<exists>s'. bounded_reachable e consume_doc s' \<and> shows_session connection url s' v'"
proof (induction ts arbitrary: s v)
  case Nil
  then show ?case by auto
next
  case (Cons t ts)
  then obtain w where w: "session_next e url t v = Some w" "session_runs e url ts w = Some v'"
    by (cases "session_next e url t v") auto
  from session_refined [OF w(1) Cons.prems(2)] obtain s1
    where s1: "run_turn e consume_doc t s = Some s1" "shows_session connection url s1 w" by blast
  from session_next_growth [OF w(1)] Cons.prems(3,4)
  have room: "length (se_ins w) + length ts \<le> 32" "session_room v"
    "length (se_outs w) + 2 * length (filter (\<lambda>t. t = FsmReceives) ts) \<le> 32"
    by (auto simp: session_room_def split: if_splits)
  from session_room_bounded [OF Cons.prems(2) room(2) s1(1)] Cons.prems(5)
  have "bounded_reachable e consume_doc s1"
    by (rule bounded_reachable.turn [rotated])
  from Cons.IH [OF w(2) s1(2) room(1,3) this] show ?case .
qed

text \<open>A connecting and the communicating manager are reached with bounded channels, too.\<close>

lemma demo_connecting_bounded:
  "\<exists>s. bounded_reachable demo_session consume_doc s \<and>
    shows_session (demo_connection True True) ''wss://tv:3001/'' s
      (session_start ''wss://tv:3001/'' (initial_flow (demo_connection True True)))"
proof -
  let ?c = "demo_connection True True" and ?e = demo_session
  from start_session [OF initial_idle demo_session_url] obtain s0 where
    0: "run_turns ?e consume_doc [CallerSends (ManagerMessage.Connect ?c), FromCaller] demo_start = Some s0"
    "shows_session ?c ''wss://tv:3001/'' s0 (session_start ''wss://tv:3001/'' (initial_flow ?c))" by blast
  then obtain s1 where s1: "run_turn ?e consume_doc (CallerSends (ManagerMessage.Connect ?c)) demo_start = Some s1"
    "run_turn ?e consume_doc FromCaller s1 = Some s0"
    by (auto simp del: run_turn.simps split: bind_splits)
  have fsm: "run_fsm s1 = run_fsm demo_start"
    using s1(1) initial_idle [of ?e "Inr ()" demo_disk]
    by (auto simp: idle_def machine_at_def manager_step_def Let_def split: sum.splits)
  have room: "length (queue (fsm_rx (run_fsm demo_start))) \<le> 32"
    "length (queue (fsm_tx (run_fsm demo_start))) \<le> 32"
    using initial_idle [of ?e "Inr ()" demo_disk] by (simp_all add: idle_def machine_at_def)
  have "bounded_reachable ?e consume_doc demo_start" by (rule bounded_reachable.init)
  then have "bounded_reachable ?e consume_doc s1"
    by (rule bounded_reachable.turn) (subst bounded_turn_room [OF room], subst s1(1), simp)
  then have "bounded_reachable ?e consume_doc s0"
    by (rule bounded_reachable.turn)
       (subst bounded_turn_room, simp add: fsm room, simp add: fsm room, subst s1(2), simp)
  with 0(2) show ?thesis by blast
qed

lemma demo_session_bounded:
  "\<exists>s. bounded_reachable demo_session consume_doc s \<and> shows_session (demo_connection True True)
    ''wss://tv:3001/'' s (session_communicating ''wss://tv:3001/'')"
proof -
  let ?url = "''wss://tv:3001/''" and ?c = "demo_connection True True" and ?e = demo_session
  obtain r where r: "response_from_text ?e ''vol'' = Some (LgTvResponse.Command r)"
    "volume_of (cr_payload r) \<noteq> None" by (rule demo_session_volume)
  obtain s0 where 0: "bounded_reachable ?e consume_doc s0"
    "shows_session ?c ?url s0 (session_start ?url (initial_flow ?c))"
    using demo_connecting_bounded by blast
  show ?thesis
    by (rule session_bounded [OF handshake_session [OF demo_session_registers demo_session_parse
          demo_session_texts(1) r] 0(2) _ _ 0(1)])
       (simp_all add: session_start_def handshake_turns_def)
qed

lemma demo_communicating_bounded:
  "\<exists>s. bounded_reachable demo_session consume_doc s \<and> flooded ''wss://tv:3001/'' c 0 0 s"
  using demo_session_bounded by (auto simp: session_defs session_communicating_def flooded_def)


theorem command_flood_deadlocks_witness:
  "\<exists>s b. bounded_reachable demo_session consume_doc s \<and>
     bounded_turns demo_session consume_doc (flood_turns TvCommand.VolumeUp) s = Some b \<and>
     (\<forall>ts b'. bounded_turns demo_session consume_doc ts b = Some b' \<longrightarrow>
        run_looping b' \<and> manager_waits b' \<and> machine_waits b' \<and> frozen b b')"
proof -
  obtain s where s: "bounded_reachable demo_session consume_doc s"
    "flooded ''wss://tv:3001/'' TvCommand.VolumeUp 0 0 s"
    using demo_communicating_bounded by blast
  from command_flood_deadlocks [OF lgtv_fsm.rust_fsm_axioms s(2), of demo_session] s(1)
  show ?thesis by blast
qed

theorem shut_down_deadlocks_witness:
  "\<exists>s b. bounded_reachable demo_session consume_doc s \<and>
     bounded_turns demo_session consume_doc (shut_down_turns TvCommand.VolumeUp) s = Some b \<and>
     (\<forall>ts b'. bounded_turns demo_session consume_doc ts b = Some b' \<longrightarrow>
        run_stopping b' \<and> fsm_running (run_fsm b') \<and> machine_waits b')"
proof -
  obtain s where s: "bounded_reachable demo_session consume_doc s"
    "flooded ''wss://tv:3001/'' TvCommand.VolumeUp 0 0 s"
    using demo_communicating_bounded by blast
  from shut_down_deadlocks [OF lgtv_fsm.rust_fsm_axioms s(2), of demo_session] s(1)
  show ?thesis by blast
qed

section \<open>The wait for the handler\<close>

text \<open>
  While the manager waits for its handler nobody reads what the handler sends. A handler with an
  update in hand for which there is no room waits in its turn, and is over only once that is sent.
\<close>

definition ws_bounded_run :: "'u ext \<Rightarrow> WsEvent list \<Rightarrow> WsTask \<Rightarrow> WsTask" where
  "ws_bounded_run e evs t = fold (\<lambda>ev t. if overfull (wt_tx t) then t else ws_step e ev t) evs t"

definition ws_over :: "WsTask \<Rightarrow> bool" where
  "ws_over t \<longleftrightarrow> wt_phase t = WsEnded \<and> \<not> overfull (wt_tx t)"

lemma ws_bounded_run_simps [simp]:
  "ws_bounded_run e [] t = t"
  "ws_bounded_run e (evs @ evs') t = ws_bounded_run e evs' (ws_bounded_run e evs t)"
  by (simp_all add: ws_bounded_run_def)

lemma ws_bounded_run_full: "overfull (wt_tx t) \<Longrightarrow> ws_bounded_run e evs t = t"
  by (induction evs) (simp_all add: ws_bounded_run_def)

lemma ws_bounded_run_Cons:
  "\<not> overfull (wt_tx t) \<Longrightarrow> ws_bounded_run e (ev # evs) t = ws_bounded_run e evs (ws_step e ev t)"
  by (simp add: ws_bounded_run_def)

text \<open>The updates sent and those the handler may still send by ending.\<close>

definition ws_load :: "WsTask \<Rightarrow> nat" where
  "ws_load t = length (queue (wt_tx t)) + (if wt_phase t = WsEnded then 0 else 2)"

definition ws_event_load :: "WsEvent \<Rightarrow> nat" where
  "ws_event_load ev = (case ev of CallerMessage _ _ \<Rightarrow> 0 | CallerClosed _ \<Rightarrow> 0 | _ \<Rightarrow> 1)"

lemma ws_step_load: "ws_load (ws_step e ev t) \<le> ws_load t + ws_event_load ev"
proof -
  have caller: "ws_load (ws_on_caller msg err now t') \<le> ws_load t'" if "wt_phase t' = WsRunning"
    for msg err now t'
    using that by (cases msg)
      (auto simp: ws_load_def ws_defs chan_send_def split: WsCommand.split option.split)
  have socket: "ws_load (ws_on_socket msg t') \<le> ws_load t' + 1" if "wt_phase t' = WsRunning" for msg t'
    using that by (cases "(msg, t')" rule: ws_on_socket.cases)
      (auto simp: ws_load_def ws_defs chan_send_def split: sum.split)
  show ?thesis
  proof (cases "wt_phase t")
    case WsRunning
    have "ws_load (t\<lparr>wt_rx := rx\<rparr>) = ws_load t" for rx by (simp add: ws_load_def)
    with WsRunning caller [of "t\<lparr>wt_rx := _\<rparr>"] socket [of t] show ?thesis
      by (cases ev)
         (auto simp: ws_step_def ws_event_load_def chan_recv_def split: list.split,
          auto simp: ws_load_def ws_defs chan_send_def split: option.split)
  qed (cases ev; auto simp: ws_step_def ws_event_load_def ws_load_def ws_defs chan_send_def
        split: sum.split option.split)+
qed

text \<open>As long as the load is within the capacity, a bounded handler does what an unbounded one does.\<close>

lemma ws_bounded_run_room:
  "ws_load t + sum_list (map ws_event_load evs) \<le> 32 \<Longrightarrow>
    ws_bounded_run e evs t = ws_run e evs t \<and> \<not> overfull (wt_tx (ws_run e evs t))"
proof (induction evs arbitrary: t)
  case Nil
  then show ?case by (simp add: overfull_def CHANNEL_CAPACITY_def ws_load_def split: if_splits)
next
  case (Cons ev evs)
  then have "\<not> overfull (wt_tx t)"
    by (simp add: overfull_def CHANNEL_CAPACITY_def ws_load_def split: if_splits)
  moreover have "ws_load (ws_step e ev t) + sum_list (map ws_event_load evs) \<le> 32"
    using Cons.prems ws_step_load [of e ev t] by simp
  ultimately show ?case using Cons.IH by (simp add: ws_bounded_run_Cons)
qed

text \<open>The wait, as in \<open>ws_run_out\<close>: the events, then what the handler has left to do.\<close>

definition run_out_events :: "'u ext \<Rightarrow> WsEvent list \<Rightarrow> WsTask \<Rightarrow> WsEvent list" where
  "run_out_events e evs t = evs @ [Begin, Resolved TimedOut] @
     map (\<lambda>_. CallerMessage None 0) (queue (wt_rx (ws_run e (evs @ [Begin, Resolved TimedOut]) t)))"

lemma run_out_events: "ws_run e (run_out_events e evs t) t = ws_run_out e evs t"
  by (simp add: run_out_events_def ws_run_out_def ws_drain_def)

lemma bounded_wait_room:
  assumes "WsMessage.Command WsCommand.ShutDown \<in> set (queue (wt_rx t)) \<or> wt_phase t = WsEnded"
    "length (queue (wt_tx t)) + length evs \<le> 28"
  shows "ws_over (ws_bounded_run e (run_out_events e evs t) t)"
proof -
  have "sum_list (map ws_event_load es) \<le> length es" for es
  proof (induction es)
    case (Cons ev es)
    moreover have "ws_event_load ev \<le> 1" by (simp add: ws_event_load_def split: WsEvent.split)
    ultimately show ?case by simp
  qed simp
  from this [of evs] have "ws_load t + sum_list (map ws_event_load (run_out_events e evs t)) \<le> 32"
    using assms(2)
    by (simp add: run_out_events_def ws_load_def ws_event_load_def sum_list_triv o_def)
  from ws_bounded_run_room [OF this, of e] ws_run_out_ends [OF assms(1), of e evs]
  show ?thesis by (simp add: run_out_events ws_over_def)
qed

text \<open>A TV that keeps sending fills the channel.\<close>

lemma texts_fill:
  assumes "wt_phase t = WsRunning" "rx_open (wt_tx t)"
  shows "\<exists>n. overfull (wt_tx (ws_bounded_run e (replicate n (Incoming (Inr (Text p)))) t))"
  using assms
proof (induction "33 - length (queue (wt_tx t))" arbitrary: t rule: less_induct)
  case less
  show ?case
  proof (cases "overfull (wt_tx t)")
    case True
    then show ?thesis by (intro exI [of _ 0]) simp
  next
    case False
    let ?t = "ws_step e (Incoming (Inr (Text p))) t"
    have t: "?t = t\<lparr>wt_tx := (wt_tx t)\<lparr>queue := queue (wt_tx t) @ [WsUpdateMessage.Payload p]\<rparr>\<rparr>"
      using less.prems by (simp add: ws_step_def ws_send_update_def chan_send_def)
    have "length (queue (wt_tx t)) \<le> 32"
      using False less.prems by (simp add: overfull_def CHANNEL_CAPACITY_def)
    then have "\<exists>n. overfull (wt_tx (ws_bounded_run e (replicate n (Incoming (Inr (Text p)))) ?t))"
      using less.prems by (intro less.hyps) (simp_all add: t)
    then obtain n where "overfull (wt_tx (ws_bounded_run e (replicate n (Incoming (Inr (Text p)))) ?t))" ..
    then show ?thesis by (intro exI [of _ "Suc n"]) (simp add: ws_bounded_run_Cons [OF False])
  qed
qed



end
