(* ===== verification/Manager_Links.thy ===== *)
theory Manager_Links
  imports Manager_Bounds
begin

text \<open>
  The capacity of the channels to and from the WebSocket handler. The manager that sends into a
  full channel waits for the handler, and the handler for the manager: the same trap as between
  the manager and the state machine, with the TV on one side of it.
\<close>

section \<open>Waiting for the handler\<close>

definition handler_behind :: "Manager \<Rightarrow> bool" where
  "handler_behind m \<longleftrightarrow> (case to_ws_tx m of Some c \<Rightarrow> overfull c | None \<Rightarrow> False)"

definition manager_behind :: "Manager \<Rightarrow> bool" where
  "manager_behind m \<longleftrightarrow> (case from_ws_rx m of Some c \<Rightarrow> overfull c | None \<Rightarrow> False)"

definition handler_turn :: "turn \<Rightarrow> bool" where
  "handler_turn t \<longleftrightarrow> (case t of WsTurn _ \<Rightarrow> True | _ \<Rightarrow> False)"

text \<open>
  A turn with all four channels bounded: the manager with a message in hand for a handler that is
  behind takes none, and neither does the handler with an update for a manager that is.
\<close>

definition linked_turn :: "'u ext \<Rightarrow> consumer \<Rightarrow> turn \<Rightarrow> Run \<Rightarrow> Run option" where
  "linked_turn e consume t s =
     (if manager_turn t \<and> handler_behind (run_manager s) \<or> handler_turn t \<and> manager_behind (run_manager s)
      then None else bounded_turn e consume t s)"

fun linked_turns :: "'u ext \<Rightarrow> consumer \<Rightarrow> turn list \<Rightarrow> Run \<Rightarrow> Run option" where
  "linked_turns e consume [] s = Some s"
| "linked_turns e consume (t # ts) s =
     Option.bind (linked_turn e consume t s) (linked_turns e consume ts)"

lemma linked_turn_bounded: "linked_turn e consume t s = Some s' \<Longrightarrow> bounded_turn e consume t s = Some s'"
  by (simp add: linked_turn_def split: if_splits)

section \<open>Both wait\<close>

definition entangled :: "Manager \<Rightarrow> bool" where
  "entangled m \<longleftrightarrow> handler_behind m \<and> manager_behind m"

text \<open>What an entangled manager keeps: its handler, their channels, its status; no call is taken.\<close>

definition held :: "Manager \<Rightarrow> Manager \<Rightarrow> bool" where
  "held m m' \<longleftrightarrow> ws_join_handle m' = ws_join_handle m \<and> to_ws_tx m' = to_ws_tx m \<and>
     from_ws_rx m' = from_ws_rx m \<and> manager_status m' = manager_status m \<and>
     (\<exists>sent. queue (command_rx m') = queue (command_rx m) @ sent)"

lemma held_trans: "held a b \<Longrightarrow> held b c \<Longrightarrow> held a c"
  by (auto simp: held_def)

lemma held_entangled: "held m m' \<Longrightarrow> entangled m' = entangled m"
  by (simp add: held_def entangled_def handler_behind_def manager_behind_def)

lemma manager_step_manager: "run_manager (manager_step f s) = f (run_manager s)"
  by (simp add: manager_step_def Let_def)

lemma outside_held:
  assumes "run_turn e consume t s = Some s'" "\<not> manager_turn t" "\<not> handler_turn t"
  shows "held (run_manager s) (run_manager s')"
proof (cases t)
  case (CallerSends msg)
  with assms(1) show ?thesis
    by (auto simp: held_def manager_step_manager chan_send_def split: sum.splits if_splits)
qed (use assms in \<open>auto simp: held_def manager_turn_def handler_turn_def manager_step_manager
       fsm_task_turn_def discovery_begins_def discovery_reports_def discovery_ends_def Let_def
       split: if_splits option.splits\<close>)

lemma entangled_turn:
  assumes "entangled (run_manager s)" "linked_turn e consume t s = Some s'"
  shows "held (run_manager s) (run_manager s')"
proof -
  have "\<not> manager_turn t" "\<not> handler_turn t"
    using assms by (auto simp: linked_turn_def entangled_def split: if_splits)
  with outside_held [OF bounded_turn_runs [OF linked_turn_bounded [OF assms(2)]]] show ?thesis by simp
qed

lemma entangled_turns:
  "entangled (run_manager s) \<Longrightarrow> linked_turns e consume ts s = Some s' \<Longrightarrow>
    entangled (run_manager s') \<and> held (run_manager s) (run_manager s')"
proof (induction ts arbitrary: s)
  case Nil
  then show ?case by (simp add: held_def)
next
  case (Cons t ts)
  then obtain s1 where s1: "linked_turn e consume t s = Some s1" "linked_turns e consume ts s1 = Some s'"
    by (cases "linked_turn e consume t s") auto
  from entangled_turn [OF Cons.prems(1) s1(1)] have h: "held (run_manager s) (run_manager s1)" .
  with held_entangled [OF h] Cons.prems(1) Cons.IH [OF _ s1(2)] show ?case by (blast intro: held_trans)
qed

section \<open>How they come to wait\<close>

text \<open>The protocol of a session with room in the channels the turn sends into.\<close>

definition turn_room :: "turn \<Rightarrow> session \<Rightarrow> bool" where
  "turn_room t v \<longleftrightarrow> length (se_ins v) \<le> 32 \<and> length (se_outs v) \<le> 32 \<and>
     (manager_turn t \<longrightarrow> length (se_waiting v) \<le> 32) \<and>
     (handler_turn t \<longrightarrow> length (se_updates v) \<le> 32)"

fun room_runs :: "'u ext \<Rightarrow> string \<Rightarrow> turn list \<Rightarrow> session \<Rightarrow> session option" where
  "room_runs e url [] v = Some v"
| "room_runs e url (t # ts) v =
     (if turn_room t v then Option.bind (session_next e url t v) (room_runs e url ts) else None)"

lemma room_runs_append:
  "room_runs e url (ts @ us) v = Option.bind (room_runs e url ts v) (room_runs e url us)"
proof (induction ts arbitrary: v)
  case (Cons t ts)
  then show ?case by (cases "session_next e url t v") simp_all
qed simp

lemma room_linked:
  assumes "shows_session connection url s v" "se_phase v = Some phase" "turn_room t v"
  shows "linked_turn e consume t s = run_turn e consume t s"
proof -
  from assms(1,2) obtain ins where ins: "to_ws_tx (run_manager s) = Some \<lparr>queue = ins, rx_open = (phase \<noteq> WsEnded)\<rparr>"
    "map untext ins = se_waiting v"
    "from_ws_rx (run_manager s) = Some \<lparr>queue = se_updates v, rx_open = True\<rparr>"
    by (auto simp: shows_session_def handler_at_def)
  from ins(2) have "length ins = length (se_waiting v)" by (metis length_map)
  with ins assms(3) have "manager_turn t \<Longrightarrow> \<not> handler_behind (run_manager s)"
    "handler_turn t \<Longrightarrow> \<not> manager_behind (run_manager s)"
    by (simp_all add: handler_behind_def manager_behind_def overfull_def CHANNEL_CAPACITY_def turn_room_def)
  moreover have "bounded_turn e consume t s = run_turn e consume t s"
    using assms(1,3) by (intro bounded_turn_room) (simp_all add: session_defs turn_room_def)
  ultimately show ?thesis by (auto simp: linked_turn_def)
qed

text \<open>Turns that leave a handler a handler.\<close>

lemma session_keeps_phase:
  assumes "session_next e url t v = Some v'" "se_phase v \<noteq> None"
  shows "se_phase v' \<noteq> None"
proof -
  have report: "se_phase v' \<noteq> None" if "session_report e url msg v = Some v'" "se_phase v \<noteq> None" for msg v
    using that by (induction e url msg v rule: session_report.induct)
      (auto simp: add_waiting_def split: if_splits)
  have update: "se_phase v' = se_phase v" if "session_update e u v = Some v'" for u v
    using that by (induction e u v rule: session_update.induct)
      (auto split: option.splits LgTvResponse.splits if_splits)
  have ws: "se_phase v' \<noteq> None" if "session_ws e url ev v = Some v'" for ev v
    using that by (induction e url ev v rule: session_ws.induct)
      (auto split: if_splits list.splits WsMessage.splits WsCommand.splits)
  show ?thesis
    using assms
  proof (cases "(e, url, t, v)" rule: session_next.cases)
    case (2 e url v)
    with assms report show ?thesis by (fastforce split: list.splits)
  next
    case (3 e url v)
    with assms update show ?thesis by (fastforce split: list.splits option.splits)
  next
    case (4 e url ev v)
    with assms ws show ?thesis by auto
  qed (use assms in \<open>auto split: list.splits ManagerMessage.splits\<close>)
qed

lemma room_runs_linked:
  "room_runs e url ts v = Some v' \<Longrightarrow> shows_session connection url s v \<Longrightarrow> se_phase v \<noteq> None \<Longrightarrow>
    \<exists>s'. linked_turns e consume_doc ts s = Some s' \<and> shows_session connection url s' v'"
proof (induction ts arbitrary: s v)
  case (Cons t ts)
  then obtain w where w: "turn_room t v" "session_next e url t v = Some w" "room_runs e url ts w = Some v'"
    by (cases "session_next e url t v") (auto split: if_splits)
  from session_refined [OF w(2) Cons.prems(2)] obtain s1
    where s1: "run_turn e consume_doc t s = Some s1" "shows_session connection url s1 w" by blast
  from Cons.prems(3) obtain phase where "se_phase v = Some phase" by blast
  from room_linked [OF Cons.prems(2) this w(1)] s1(1)
  have "linked_turn e consume_doc t s = Some s1" by metis
  with Cons.IH [OF w(3) s1(2) session_keeps_phase [OF w(2) Cons.prems(3)]] show ?case by simp
qed simp

text \<open>A communicating manager with \<open>n\<close> payloads on their way to the handler and \<open>k\<close> texts from it.\<close>

definition both_ways :: "string \<Rightarrow> string \<Rightarrow> nat \<Rightarrow> nat \<Rightarrow> session" where
  "both_ways url p n k = (session_communicating url)\<lparr>se_waiting := replicate n (WsMessage.Payload []),
     se_updates := replicate k (WsUpdateMessage.Payload p)\<rparr>"

definition text_turn :: "string \<Rightarrow> turn" where
  "text_turn p = WsTurn (Incoming (Inr (Text p)))"

definition command_turns :: "TvCommand \<Rightarrow> turn list" where
  "command_turns c = [CallerSends (SendTvCommand c), FromCaller, FsmReceives, FromStateMachine,
     FromStateMachine]"

lemma replicate_snoc_eq: "replicate k x @ [x] = replicate (Suc k) x"
  by (induction k) simp_all

lemma text_round:
  "k \<le> 32 \<Longrightarrow> room_runs e url [text_turn p] (both_ways url p 0 k) = Some (both_ways url p 0 (Suc k))"
  by (simp add: text_turn_def turn_room_def both_ways_def session_communicating_def replicate_snoc_eq
      manager_turn_def del: replicate_Suc)

lemma command_round:
  "n \<le> 32 \<Longrightarrow> room_runs e url (command_turns c) (both_ways url p n k) = Some (both_ways url p (Suc n) k)"
  by (simp add: command_turns_def turn_room_def both_ways_def session_communicating_def
      replicate_snoc_eq manager_turn_def handler_turn_def fsm_next_def fsm_report_def add_waiting_def
      has_handler_def del: replicate_Suc)

lemma rounds:
  assumes "\<And>i. i < j \<Longrightarrow> room_runs e url ts (v i) = Some (v (Suc i))"
  shows "room_runs e url (concat (replicate j ts)) (v 0) = Some (v j)"
  using assms
proof (induction j)
  case (Suc j)
  have "concat (replicate (Suc j) ts) = concat (replicate j ts) @ ts"
    by (simp flip: replicate_append_same)
  with Suc show ?case by (simp add: room_runs_append)
qed simp

definition entangling_turns :: "string \<Rightarrow> TvCommand \<Rightarrow> turn list" where
  "entangling_turns p c = concat (replicate 33 [text_turn p]) @ concat (replicate 33 (command_turns c))"

lemma entangling_session:
  "room_runs e url (entangling_turns p c) (session_communicating url) = Some (both_ways url p 33 33)"
proof -
  have "session_communicating url = both_ways url p 0 0"
    by (simp add: both_ways_def session_communicating_def)
  moreover have "room_runs e url (concat (replicate 33 [text_turn p])) (both_ways url p 0 0) =
      Some (both_ways url p 0 33)"
    by (rule rounds) (rule text_round, simp)
  moreover have "room_runs e url (concat (replicate 33 (command_turns c))) (both_ways url p 0 33) =
      Some (both_ways url p 33 33)"
    by (rule rounds [of _ _ _ _ "\<lambda>n. both_ways url p n 33"]) (rule command_round, simp)
  ultimately show ?thesis by (simp add: entangling_turns_def room_runs_append)
qed

lemma both_ways_entangled:
  "shows_session connection url s (both_ways url p 33 33) \<Longrightarrow> entangled (run_manager s)"
  by (auto simp: shows_session_def both_ways_def session_communicating_def handler_at_def entangled_def
      handler_behind_def manager_behind_def overfull_def CHANNEL_CAPACITY_def dest!: arg_cong [of _ _ length])

text \<open>C12: With channels of 32 messages the manager and its handler can stop each other, too. From every
  communicating manager with nothing on its way there is an order of turns in which the TV sends
  thirty-three texts and the caller as many commands: the handler waits for room to pass a text
  on, the manager for room to pass a command on, and each of them alone could make room for the
  other. From then on, whatever happens, neither takes a turn, no further message of the caller,
  \<open>ShutDown\<close> included, is taken, and the handler, the channels and the status stay as they are.\<close>

theorem commands_and_texts_deadlock:
  assumes "shows_session connection url s (session_communicating url)"
  shows "\<exists>s1. linked_turns e consume_doc (entangling_turns p c) s = Some s1 \<and>
    (\<forall>ts s2. linked_turns e consume_doc ts s1 = Some s2 \<longrightarrow>
       held (run_manager s1) (run_manager s2) \<and>
       (\<forall>t. manager_turn t \<or> handler_turn t \<longrightarrow> linked_turn e consume_doc t s2 = None))"
proof -
  have "se_phase (session_communicating url) \<noteq> None" by (simp add: session_communicating_def)
  from room_runs_linked [OF entangling_session assms this] obtain s1 where
    s1: "linked_turns e consume_doc (entangling_turns p c) s = Some s1" "entangled (run_manager s1)"
    using both_ways_entangled by blast
  have "held (run_manager s1) (run_manager s2) \<and>
      (\<forall>t. manager_turn t \<or> handler_turn t \<longrightarrow> linked_turn e consume_doc t s2 = None)"
    if "linked_turns e consume_doc ts s1 = Some s2" for ts s2
    using entangled_turns [OF s1(2) that] by (auto simp: entangled_def linked_turn_def)
  with s1(1) show ?thesis by blast
qed

theorem commands_and_texts_deadlock_witness:
  "\<exists>s s1. bounded_reachable demo_session consume_doc s \<and>
     linked_turns demo_session consume_doc (entangling_turns ''vol'' TvCommand.VolumeUp) s = Some s1 \<and>
     (\<forall>ts s2. linked_turns demo_session consume_doc ts s1 = Some s2 \<longrightarrow>
        linked_turn demo_session consume_doc FromCaller s2 = None)"
proof -
  obtain s where s: "bounded_reachable demo_session consume_doc s"
    "shows_session (demo_connection True True) ''wss://tv:3001/'' s (session_communicating ''wss://tv:3001/'')"
    using demo_session_bounded by blast
  from commands_and_texts_deadlock [OF s(2), of demo_session "''vol''" TvCommand.VolumeUp] s(1)
  show ?thesis by (auto simp: manager_turn_def)
qed

end
