(* ===== verification/Manager_Mirror.thy ===== *)
theory Manager_Mirror
  imports Manager_Wellformed
begin

text \<open>
  What the caller knows of the manager. The documentation promises the caller a message for every
  change of the manager's status, of the reconnect flow and of the details of the TV: a caller
  that keeps the last value it was told of each has, at any time, what the manager has.
\<close>

section \<open>A caller that keeps what it is told\<close>

record Mirror =
  mi_status :: ManagerStatus
  mi_flow :: ReconnectFlowStatus
  mi_info :: "TvInfo option"
  mi_inputs :: "ExternalInput list option"
  mi_software :: "CurrentSwInfoPayload option"
  mi_state :: TvState

definition mirror_start :: Mirror where
  "mirror_start = \<lparr>mi_status = State.Disconnected, mi_flow = Inactive, mi_info = None,
     mi_inputs = None, mi_software = None, mi_state = tv_state_default\<rparr>"

text \<open>\<open>WaitingToReconnect\<close> is reported as a status, but is none of the manager's.\<close>

fun is_waiting :: "State \<Rightarrow> bool" where
  "is_waiting (WaitingToReconnect _) = True"
| "is_waiting _ = False"

fun tell :: "ManagerOutputMessage \<Rightarrow> Mirror \<Rightarrow> Mirror" where
  "tell (ManagerOutputMessage.Status s) v = (if is_waiting s then v else v\<lparr>mi_status := s\<rparr>)"
| "tell (ReconnectFlowStatus r) v = v\<lparr>mi_flow := r\<rparr>"
| "tell (TvInfo i) v = v\<lparr>mi_info := i\<rparr>"
| "tell (TvInputs i) v = v\<lparr>mi_inputs := i\<rparr>"
| "tell (TvSoftwareInfo i) v = v\<lparr>mi_software := i\<rparr>"
| "tell (TvState t) v = v\<lparr>mi_state := t\<rparr>"
| "tell _ v = v"

definition mirror :: "ManagerOutputMessage list \<Rightarrow> Mirror" where
  "mirror msgs = fold tell msgs mirror_start"

definition manager_view :: "Manager \<Rightarrow> Mirror" where
  "manager_view m = \<lparr>mi_status = manager_status m, mi_flow = reconnect_flow_status m,
     mi_info = tv_info m, mi_inputs = tv_inputs m, mi_software = tv_software_info m,
     mi_state = tv_state m\<rparr>"

section \<open>Managers that have told all\<close>

text \<open>
  \<open>h\<close> is what the caller, who still listens, has received, the queue what is on its way. A status the manager never
  has is left out until it is known never to be one.
\<close>

definition shows_view :: "Mirror \<Rightarrow> Manager \<Rightarrow> bool" where
  "shows_view v m \<longleftrightarrow> mi_flow v = reconnect_flow_status m \<and> mi_info v = tv_info m \<and>
     mi_inputs v = tv_inputs m \<and> mi_software v = tv_software_info m \<and> mi_state v = tv_state m \<and>
     (is_waiting (manager_status m) \<or> mi_status v = manager_status m)"

definition told :: "ManagerOutputMessage list \<Rightarrow> Manager \<Rightarrow> bool" where
  "told h m \<longleftrightarrow> rx_open (output_tx m) \<and> shows_view (mirror (h @ queue (output_tx m))) m"

lemma told_fields [simp]:
  "told h (m\<lparr>is_pairing := b\<rparr>) = told h m" "told h (m\<lparr>is_manual_disconnect_requested := b\<rparr>) = told h m"
  "told h (m\<lparr>session_connection_count := n\<rparr>) = told h m" "told h (m\<lparr>uuid_count := i\<rparr>) = told h m"
  "told h (m\<lparr>wait_count := i\<rparr>) = told h m" "told h (m\<lparr>reconnect_attempts := n\<rparr>) = told h m"
  "told h (m\<lparr>command_rx := rc\<rparr>) = told h m" "told h (m\<lparr>to_fsm_tx := ft\<rparr>) = told h m"
  "told h (m\<lparr>last_good_connection := lg\<rparr>) = told h m" "told h (m\<lparr>client_key := k\<rparr>) = told h m"
  "told h (m\<lparr>disk := d\<rparr>) = told h m" "told h (m\<lparr>ws_url := u\<rparr>) = told h m"
  "told h (m\<lparr>mac_addr := ma\<rparr>) = told h m" "told h (m\<lparr>discovery_tasks := i\<rparr>) = told h m"
  "told h (m\<lparr>discovery_searching := i\<rparr>) = told h m" "told h (m\<lparr>discovery_ending := i\<rparr>) = told h m"
  "told h (m\<lparr>connection_details := cd\<rparr>) = told h m" "told h (m\<lparr>to_ws_tx := wt\<rparr>) = told h m"
  "told h (m\<lparr>from_ws_rx := wr\<rparr>) = told h m" "told h (m\<lparr>ws_join_handle := jh\<rparr>) = told h m"
  "told h (m\<lparr>join_count := i\<rparr>) = told h m" "told h (m\<lparr>tv_on_network_checker := nc\<rparr>) = told h m"
  "told h (m\<lparr>is_connection_initialized := b\<rparr>) = told h m" "told h (m\<lparr>tv_host_ip := ip\<rparr>) = told h m"
  "told h (m\<lparr>tv_host_ip_notifier := b\<rparr>) = told h m"
  "told h (m\<lparr>is_tv_on_network := fl\<rparr>) = told h m" "told h (m\<lparr>is_testing_tv_on_network := fl\<rparr>) = told h m"
  by (simp_all add: told_def shows_view_def)

text \<open>Messages in a row, after which the fields are as they say.\<close>

lemma told_pushes:
  assumes "told h m" "output_tx m' = chan_pushes (output_tx m) xs"
    "\<And>v. shows_view v m \<Longrightarrow> shows_view (fold tell xs v) m'"
  shows "told h m'"
  using assms by (cases "output_tx m") (auto simp: told_def chan_pushes_def mirror_def)

text \<open>Messages of another kind.\<close>

lemma told_out [simp]:
  assumes "c = output_tx m" "list_all (\<lambda>x. \<forall>v. tell x v = v) xs"
  shows "told h (m\<lparr>output_tx := chan_pushes c xs\<rparr>) = told h m"
proof -
  from assms(2) have "fold tell xs v = v" for v by (induction xs) simp_all
  then show ?thesis by (cases "output_tx m") (simp add: assms(1) told_def chan_pushes_def mirror_def shows_view_def)
qed

section \<open>The elementary steps\<close>

named_theorems told_steps

lemma told_fsm [simp, told_steps]:
  assumes "told h m"
  shows "told h (send_to_fsm x m)"
proof -
  have "told h (set_manager_status Zombie m')" if "told h m'" for m'
    unfolding set_manager_status_eq
    using that by (auto intro!: told_pushes [OF that] simp: shows_view_def is_communicating_def)
  with assms show ?thesis
    by (simp add: send_to_fsm_def enter_zombie_state_def split: option.split sum.split)
qed

lemma told_fsm_error [told_steps]: "told h m \<Longrightarrow> told h (attempt_fsm_error x m)"
  by (simp add: attempt_fsm_error_def)

lemma told_status [told_steps]: "told h m \<Longrightarrow> told h (set_manager_status st m)"
  unfolding set_manager_status_eq
  by (cases "st = manager_status m") (simp, simp only: if_False, rule told_pushes, assumption, simp,
      auto simp: shows_view_def split: if_splits)

lemma told_emit_status [told_steps]: "told h m \<Longrightarrow> told h (emit_manager_status m)"
  unfolding emit_manager_status_def send_out_eq
  by (rule told_pushes) (auto simp: shows_view_def split: if_splits)

lemma told_flow [told_steps]: "told h m \<Longrightarrow> told h (set_reconnect_flow_status r m)"
  unfolding set_reconnect_flow_status_eq by (rule told_pushes) (auto simp: shows_view_def)

lemma told_details [told_steps]: "told h m \<Longrightarrow> told h (emit_all_tv_details m)"
  unfolding emit_all_tv_details_eq tv_details_def by (rule told_pushes) (auto simp: shows_view_def)

lemma told_host [told_steps]: "told h m \<Longrightarrow> told h (set_host_ip_from_ws_url e m)"
  by (simp add: set_host_ip_from_ws_url_def split: option.split)

lemma told_shut_down_ws [told_steps]: "told h m \<Longrightarrow> told h (shut_down_ws m)"
  by (simp add: shut_down_ws_eq)

lemma told_wait [told_steps]: "told h m \<Longrightarrow> told h (await_ws_handler e m)"
  by (simp add: await_ws_handler_def Let_def split: option.split)

text \<open>A reset forgets the TV and says so.\<close>

lemma told_initialize [told_steps]:
  assumes "told h m"
  shows "told h (initialize_manager_state e m)"
proof -
  have "\<not> in_reconnect_flow m \<Longrightarrow> reconnect_flow_status m = Cancelled \<or> reconnect_flow_status m = Inactive"
    by (auto simp: in_reconnect_flow_cases)
  moreover have "in_reconnect_flow m \<Longrightarrow> reconnect_flow_status m \<noteq> Cancelled"
    by (auto simp: in_reconnect_flow_def)
  ultimately show ?thesis
    unfolding initialize_manager_state_eq Let_def
    by (intro told_pushes [OF assms])
       (auto simp: reset_messages_def tv_details_def check_network_def import_persisted_state_eq
         cleared_def Let_def shows_view_def)
qed

lemma told_reset [told_steps]: "told h m \<Longrightarrow> told h (force_manager_reset e reason m)"
  by (simp add: force_manager_reset_def Let_def told_steps)

lemma told_to_ws [told_steps]: "told h m \<Longrightarrow> told h (send_to_ws e msg m)"
  by (simp add: send_to_ws_def told_steps split: option.split sum.split)

section \<open>The handlers\<close>

lemma told_prepare [told_steps]: "told h m \<Longrightarrow> told h (optionally_prepare_for_reconnect m)"
  by (simp add: optionally_prepare_for_reconnect_def told_steps)

lemma told_command [told_steps]: "told h m \<Longrightarrow> told h (send_command e c m)"
  by (simp add: send_command_def generate_lgtv_message_id_def told_steps)

lemma told_initialize_connection [told_steps]: "told h m \<Longrightarrow> told h (initialize_connection e m)"
  by (simp add: initialize_connection_def Let_def told_steps split: option.split)

lemma told_register_ip [told_steps]: "told h m \<Longrightarrow> told h (register_tv_ip e url m)"
  by (simp add: register_tv_ip_def split: option.split)

lemma told_connect [told_steps]:
  "told h m \<Longrightarrow> told h (report_connect_error (initiate_connect_to_tv e connection m))"
  by (auto simp: initiate_connect_to_tv_def report_connect_error_def Let_def
      intro!: told_steps split: option.split sum.split)

lemma told_register [told_steps]: "told h m \<Longrightarrow> told h (send_register_payload e m)"
  by (auto simp: send_register_payload_def Let_def intro: told_steps split: prod.split sum.split)

lemma told_wait_to_reconnect [told_steps]: "told h m \<Longrightarrow> told h (wait_to_reconnect e url m)"
proof -
  have "told h m' \<Longrightarrow> told h (fold (wait_feedback d url) clocks m')" for d clocks m'
    by (induction clocks arbitrary: m') (simp_all add: wait_feedback_def split: option.split)
  then show "told h m \<Longrightarrow> ?thesis" by (simp add: wait_to_reconnect_def Let_def)
qed

lemma told_reconnect [told_steps]: "told h m \<Longrightarrow> told h (initiate_reconnect e immediate m)"
  by (auto simp: initiate_reconnect_def Let_def intro!: told_steps split: option.split)

lemma told_disconnected [told_steps]: "told h m \<Longrightarrow> told h (handle_disconnected e m)"
  by (simp add: handle_disconnected_def Let_def told_steps)

lemma told_disconnect_tv [told_steps]: "told h m \<Longrightarrow> told h (initiate_disconnect_from_tv e m)"
  by (simp add: initiate_disconnect_from_tv_def told_steps)

lemma told_connect_error [told_steps]: "told h m \<Longrightarrow> told h (handle_connect_error e m)"
  by (simp add: handle_connect_error_def Let_def told_steps split: ReconnectFlowStatus.split)

lemma told_start_ws [told_steps]: "told h m \<Longrightarrow> told h (start_websocket_handler_and_connect host m)"
  by (simp add: start_websocket_handler_and_connect_def Let_def)

lemma told_update: "told h m \<Longrightarrow> told h (handle_state_machine_update e msg m)"
proof (cases msg)
  case (Output x)
  then show "told h m \<Longrightarrow> ?thesis" by (cases x) (simp_all add: Let_def told_steps)
qed (simp_all add: told_steps)

lemma told_message: "told h m \<Longrightarrow> told h (handle_manager_message e msg m)"
  by (cases msg)
     (auto simp: discover_def wake_last_seen_tv_def cancel_reconnect_def check_network_def Let_def
       intro!: told_steps split: option.split)

text \<open>What the TV answers is told as it is taken.\<close>

lemma told_complete [told_steps]: "told h m \<Longrightarrow> told h (complete_initialization e m)"
  by (simp add: complete_initialization_def Let_def told_steps)

lemma told_news [told_steps]:
  assumes "told h m"
  shows "told h (emit_tv_state (m\<lparr>tv_state := t\<rparr>))" "told h (emit_tv_info (m\<lparr>tv_info := i\<rparr>))"
    "told h (emit_tv_inputs (m\<lparr>tv_inputs := n\<rparr>))"
    "told h (emit_tv_software_info (m\<lparr>tv_software_info := w\<rparr>))"
  unfolding manager_defs send_out_eq
  by (rule told_pushes [OF assms], simp, simp add: shows_view_def)+

lemma told_payload [told_steps]: "told h m \<Longrightarrow> told h (handle_payload e p m)"
  by (cases p) (simp_all add: set_volume_state_def handle_pair_def told_steps)

lemma told_written [told_steps]: "told h m \<Longrightarrow> told h (manager_write_persisted_state e m)"
  by (simp add: manager_write_persisted_state_def manager_defs split: prod.split sum.split)

lemma told_response [told_steps]: "told h m \<Longrightarrow> told h (snd (handle_lgtv_response e r m))"
  by (simp add: handle_lgtv_response_def Let_def told_steps split: LgTvResponse.split)

lemma told_ws_message: "told h m \<Longrightarrow> told h (handle_ws_message e msg m)"
proof (cases msg)
  case (Status s)
  then show "told h m \<Longrightarrow> ?thesis" by (cases s) (simp_all add: connection_lost_def told_steps)
qed (simp_all add: told_steps Let_def split: option.split)

lemma told_on_network: "told h m \<Longrightarrow> told h (fst (handle_on_network_notify e was m))"
  by (simp add: handle_on_network_notify_def Let_def emit_is_wake_tv_available_def tv_gone_offline_def
      told_steps)

lemma told_testing: "told h m \<Longrightarrow> told h (handle_testing_notify m)"
  by (simp add: handle_testing_notify_def)

lemma told_handler: "told h m \<Longrightarrow> told h (ws_turn e ev m)"
  by (simp add: ws_turn_def Let_def split: option.split)

lemma told_discovery:
  assumes "told h m"
  shows "told h (discovery_begins m)" "told h (discovery_reports found m)" "told h (discovery_ends m)"
  using assms by (simp_all add: discovery_begins_def discovery_reports_def discovery_ends_def
      split: sum.split)

interpretation mirrored: manager_kept e "told h"
  by unfold_locales
    (simp_all add: told_message told_update told_ws_message told_on_network told_testing told_handler
      told_disconnect_tv told_discovery)

lemma told_start: "told [] (run_start e client (manager_new e d new_chan))"
proof -
  have "told [] (manager_new e d new_chan)"
    by (simp add: manager_new_def import_persisted_state_eq Let_def)
       (simp add: told_def shows_view_def mirror_def mirror_start_def new_chan_def)
  moreover have "told [] (start_network_checker client m)" if "told [] m" for m
    using that by (simp add: start_network_checker_def split: sum.split)
  ultimately show ?thesis by (simp add: run_start_def Let_def told_steps)
qed

section \<open>The status is never \<open>WaitingToReconnect\<close>\<close>

text \<open>Only the machine's reports change the status, or the loss of the machine.\<close>

definition status_kept :: "Manager \<Rightarrow> Manager \<Rightarrow> bool" where
  "status_kept m m' \<longleftrightarrow> manager_status m' = manager_status m \<or> manager_status m' = Zombie"

lemma status_kept_fsm: "status_kept m (send_to_fsm x m)"
  by (simp add: status_kept_def send_to_fsm_def enter_zombie_state_def set_manager_status_eq
      split: option.split sum.split)

interpretation kept: manager_start_relation e status_kept
  by unfold_locales
    (auto simp: status_kept_fsm, auto simp: status_kept_def core_eq_iff check_network_def
      start_websocket_handler_and_connect_def Let_def)

lemma status_after_loop:
  assumes "run_turn e consume t s = Some s'" "\<not> run_looping s'"
  shows "status_kept (run_manager s) (run_manager s')"
proof -
  have notified: "take_notify permit clear s = Some s1 \<Longrightarrow> run_looping s1" for permit clear s1
    by (auto simp: take_notify_def manager_step_def Let_def split: if_splits)
  show ?thesis
  proof (cases t)
    case ShutDownEnds
    with assms kept.disconnect_tv show ?thesis
      by (auto simp: end_shut_down_def Let_def split: if_splits)
  next
    case OnNetworkNotified
    with assms show ?thesis
      by (auto simp: Let_def manager_step_def split: option.splits dest: notified)
  next
    case TestingNotified
    with assms show ?thesis
      by (auto simp: Let_def manager_step_def split: option.splits dest: notified)
  next
    case FromCaller
    with assms show ?thesis
      by (auto simp: Let_def manager_step_def begin_shut_down_def status_kept_def
          split: option.splits if_splits)
  next
    case FromStateMachine
    with assms show ?thesis by (auto simp: Let_def manager_step_def split: option.splits if_splits)
  next
    case FromWebSocket
    with assms show ?thesis
      by (auto simp: Let_def manager_step_def status_kept_def split: option.splits if_splits)
  qed (use assms in \<open>auto simp: status_kept_def ws_turn_frame discovery_begins_def discovery_reports_def
         discovery_ends_def split: if_splits option.splits sum.splits\<close>)
qed

lemma status_not_waiting:
  assumes "rust_fsm transition fsm_output consume" "reachable e consume s"
  shows "\<not> is_waiting (manager_status (run_manager s))"
  using assms(2)
proof (induction rule: reachable.induct)
  case (init client d rx)
  have "manager_status (run_manager (run_initial e client (manager_new e d rx))) = State.Disconnected"
    using run_start_link [of "manager_new e d rx" e client]
    by (simp add: run_initial_def Let_def fsm_link_def manager_new_def import_persisted_state_eq)
  then show ?case by simp
next
  case (turn s t s')
  show ?case
  proof (cases "run_looping s'")
    case True
    from reachable_run_inv [OF assms(1) reachable.turn [OF turn.hyps]] True
    have "live (manager_status (run_manager s'))" by (simp add: run_inv_def follows_def)
    then show ?thesis by (cases "manager_status (run_manager s')") (simp_all add: live_def)
  next
    case False
    with status_after_loop [OF turn.hyps(2)] turn.IH show ?thesis by (auto simp: status_kept_def)
  qed
qed

section \<open>Everything the caller hears\<close>

text \<open>
  The situations the program can be in while the caller listens, with all the messages it has
  taken on the way.
\<close>

definition taken_by_caller :: "turn \<Rightarrow> Run \<Rightarrow> ManagerOutputMessage list" where
  "taken_by_caller t s =
     (if t = CallerReceives then take 1 (queue (output_tx (run_manager s))) else [])"

inductive hears :: "'u ext \<Rightarrow> consumer \<Rightarrow> ManagerOutputMessage list \<Rightarrow> Run \<Rightarrow> bool" for e consume where
  init: "hears e consume [] (run_initial e client (manager_new e d new_chan))"
| turn: "hears e consume h s \<Longrightarrow> run_turn e consume t s = Some s' \<Longrightarrow> t \<noteq> CallerCloses \<Longrightarrow>
    hears e consume (h @ taken_by_caller t s) s'"

lemma hears_reachable: "hears e consume h s \<Longrightarrow> reachable e consume s"
  by (induction rule: hears.induct) (auto intro: reachable.intros)

lemma hears_told: "hears e consume h s \<Longrightarrow> told h (run_manager s)"
proof (induction rule: hears.induct)
  case (init client d)
  then show ?case by (simp add: run_initial_def Let_def told_start)
next
  case (turn h s t s')
  show ?case
  proof (cases "t = CallerReceives")
    case True
    with turn.hyps(2) turn.IH show ?thesis
      by (auto simp: told_def taken_by_caller_def chan_recv_def shows_view_def
          split: option.splits list.splits)
  next
    case False
    with mirrored.turn_keeps [OF turn.IH turn.hyps(2)] turn.hyps(3) show ?thesis by (simp add: taken_by_caller_def)
  qed
qed

lemma view_mirrored:
  assumes "rust_fsm transition fsm_output consume" "hears e consume h s"
  shows "mirror (h @ queue (output_tx (run_manager s))) = manager_view (run_manager s)"
  using hears_told [OF assms(2)] status_not_waiting [OF assms(1) hears_reachable [OF assms(2)]]
  by (cases "mirror (h @ queue (output_tx (run_manager s)))")
     (auto simp: told_def shows_view_def manager_view_def)

text \<open>Turns in which the caller listens, but takes nothing.\<close>

lemma hears_turns:
  "hears e consume h s \<Longrightarrow> run_turns e consume ts s = Some s' \<Longrightarrow>
    CallerReceives \<notin> set ts \<Longrightarrow> CallerCloses \<notin> set ts \<Longrightarrow> hears e consume h s'"
proof (induction ts arbitrary: s)
  case (Cons t ts)
  then obtain s1 where s1: "run_turn e consume t s = Some s1" "run_turns e consume ts s1 = Some s'"
    by (cases "run_turn e consume t s") auto
  from Cons.prems(3,4) have "taken_by_caller t s = []" "t \<noteq> CallerCloses"
    by (auto simp: taken_by_caller_def)
  with hears.turn [OF Cons.prems(1) s1(1)] have "hears e consume h s1" by simp
  with Cons.IH [OF this s1(2)] Cons.prems(3,4) show ?case by simp
qed simp



text \<open>
  Not so the discoveries: of two that overlap, the first to end says that there is none.
\<close>

lemma overlapping_discoveries:
  assumes "discovery_tasks (run_manager s) = 2" "discovery_searching (run_manager s) = 0"
    "rx_open (output_tx (run_manager s))"
  shows "\<exists>s'. run_turns e consume
      [DiscoveryBegins, DiscoveryBegins, DiscoveryReports found, DiscoveryEnds] s = Some s' \<and>
    discovery_searching (run_manager s') = 1 \<and>
    last (queue (output_tx (run_manager s'))) = IsDiscovering False"
  using assms by (simp add: discovery_begins_def discovery_reports_def discovery_ends_def)

end
