(* ===== verification/Manager_Talk.thy ===== *)
theory Manager_Talk
  imports Manager_Mirror
begin

text \<open>
  What the program is for: while the manager communicates, the commands of the caller reach the
  TV, and what the TV says reaches the caller, through all the tasks in between.
\<close>

section \<open>A manager that communicates\<close>

text \<open>Manager, machine and handler are up, and nothing is on its way between them.\<close>

definition talking :: "string \<Rightarrow> Run \<Rightarrow> bool" where
  "talking url s \<longleftrightarrow> machine_at s (Communicating url) (Communicating url) [] [] \<and>
     command_rx (run_manager s) = new_chan \<and> is_connection_initialized (run_manager s) \<and>
     to_ws_tx (run_manager s) = Some new_chan \<and> from_ws_rx (run_manager s) = Some new_chan \<and>
     (\<exists>t. ws_join_handle (run_manager s) = Some t \<and> wt_phase t = WsRunning)"

text \<open>What has been written to the TV.\<close>

definition written :: "Run \<Rightarrow> SocketMessage list" where
  "written s = (case ws_join_handle (run_manager s) of Some t \<Rightarrow> wt_written t | None \<Rightarrow> [])"

lemma session_talking: "shows_session connection url s (session_communicating url) \<Longrightarrow> talking url s"
  by (auto simp: talking_def session_defs session_communicating_def handler_at_def new_chan_def)

section \<open>From the caller to the TV\<close>

definition pass_command :: "TvCommand \<Rightarrow> turn list" where
  "pass_command c = [CallerSends (SendTvCommand c), FromCaller, FsmReceives, FromStateMachine,
     FromStateMachine, WsTurn (CallerMessage None 0)]"

lemma command_passes:
  assumes "talking url s"
  shows "\<exists>s'. run_turns e consume_doc (pass_command c) s = Some s' \<and> talking url s' \<and>
    written s' = written s @ [Text (command_text e (uuid_count (run_manager s)) c)] \<and>
    uuid_count (run_manager s') = Suc (uuid_count (run_manager s)) \<and>
    output_tx (run_manager s') = output_tx (run_manager s)"
  using assms
  by (auto simp: pass_command_def talking_def machine_at_def written_def new_chan_def chan_send_def
      chan_recv_def manager_step_def Let_def fsm_task_turn_def fsm_recv_def
      fsm_handle_open [OF lgtv_fsm.rust_fsm_axioms] fsm_next_def fsm_report_def set_manager_status_eq
      send_to_fsm_def send_command_open chan_pushes_def ws_turn_at attach_ws_def ws_step_def ws_write_def)

text \<open>Every command of the caller reaches the TV. A communicating manager that is sent any commands,
  one after the other, has at the end written exactly their requests to the TV, in that order and
  each with the next fresh identifier, has told the caller nothing of its own, and is ready for
  the next command.\<close>

theorem commands_reach_tv:
  assumes "talking url s"
  shows "\<exists>s'. run_turns e consume_doc (concat (map pass_command cs)) s = Some s' \<and> talking url s' \<and>
    written s' = written s @
      map (\<lambda>(i, c). Text (command_text e i c)) (List.enumerate (uuid_count (run_manager s)) cs) \<and>
    output_tx (run_manager s') = output_tx (run_manager s)"
  using assms
proof (induction cs arbitrary: s)
  case Nil
  then show ?case by simp
next
  case (Cons c cs)
  from command_passes [OF Cons.prems, of e c] obtain s1 where
    1: "run_turns e consume_doc (pass_command c) s = Some s1" "talking url s1"
    "written s1 = written s @ [Text (command_text e (uuid_count (run_manager s)) c)]"
    "uuid_count (run_manager s1) = Suc (uuid_count (run_manager s))"
    "output_tx (run_manager s1) = output_tx (run_manager s)" by blast
  from Cons.IH [OF 1(2)] 1 show ?case by (auto simp: run_turns_append)
qed

theorem commands_reach_tv_witness:
  "\<exists>s s'. reachable demo_session consume_doc s \<and> run_turns demo_session consume_doc
      (concat (map pass_command [TvCommand.VolumeUp, TvCommand.VolumeDown])) s = Some s' \<and>
    length (written s') = length (written s) + 2"
proof -
  obtain s where s: "reachable demo_session consume_doc s"
    "shows_session (demo_connection True True) ''wss://tv:3001/'' s (session_communicating ''wss://tv:3001/'')"
    by (rule demo_stages)
  from commands_reach_tv [OF session_talking [OF s(2)], of demo_session
      "[TvCommand.VolumeUp, TvCommand.VolumeDown]"] s(1)
  show ?thesis by force
qed

section \<open>From the TV to the caller\<close>

definition pass_text :: "string \<Rightarrow> turn list" where
  "pass_text p = [WsTurn (Incoming (Inr (Text p))), FromWebSocket]"

text \<open>What a response of the TV says about it; the other responses only answer a command.\<close>

fun tv_says :: "LgTvResponsePayload \<Rightarrow> Mirror \<Rightarrow> Mirror" where
  "tv_says (CurrentSwInfo p) v = v\<lparr>mi_software := Some p\<rparr>"
| "tv_says (LgTvResponsePayload.GetExternalInputList p) v = v\<lparr>mi_inputs := Some (gei_devices p)\<rparr>"
| "tv_says (LgTvResponsePayload.GetSystemInfo p) v = v\<lparr>mi_info := Some (tv_info_from p)\<rparr>"
| "tv_says (LgTvResponsePayload.GetPowerState p) v =
     v\<lparr>mi_state := (mi_state v)\<lparr>ts_power_state := Some (power_state_from p)\<rparr>\<rparr>"
| "tv_says (LgTvResponsePayload.SetScreenOn p) v =
     v\<lparr>mi_state := (mi_state v)\<lparr>ts_is_screen_on := Some (sso_state p = ''Active'')\<rparr>\<rparr>"
| "tv_says p v = (case volume_of p of
       None \<Rightarrow> v
     | Some (volume, muted, settable) \<Rightarrow> v\<lparr>mi_state := (mi_state v)
         \<lparr>ts_volume := Some volume, ts_is_muted := Some muted, ts_is_volume_settable := Some settable\<rparr>\<rparr>)"

lemma payload_talks:
  assumes "\<not> is_pair p" "is_connection_initialized m" "m' = handle_payload e p m"
  shows "manager_view m' = tv_says p (manager_view m)"
    "core m' = core m" "command_rx m' = command_rx m" "from_ws_rx m' = from_ws_rx m"
    "is_connection_initialized m'" "rx_open (output_tx m') = rx_open (output_tx m)"
  using assms
  by (cases p; simp add: manager_defs manager_view_def complete_initialization_def set_volume_state_def
      core_eq_iff is_pair_def)+

lemma text_passes:
  assumes "talking url s" "response_from_text e p = Some (LgTvResponse.Command cr)" "\<not> is_pair (cr_payload cr)"
  shows "\<exists>s'. run_turns e consume_doc (pass_text p) s = Some s' \<and> talking url s' \<and>
    manager_view (run_manager s') = tv_says (cr_payload cr) (manager_view (run_manager s)) \<and>
    rx_open (output_tx (run_manager s')) = rx_open (output_tx (run_manager s))"
proof -
  let ?m = "run_manager s"
  from assms(1) obtain t where t: "ws_join_handle ?m = Some t" "wt_phase t = WsRunning"
    "to_ws_tx ?m = Some new_chan" "from_ws_rx ?m = Some new_chan"
    "to_fsm_tx ?m = Some new_chan" "is_connection_initialized ?m"
    by (auto simp: talking_def machine_at_def new_chan_def)
  define w where "w = ws_turn e (Incoming (Inr (Text p))) ?m"
  have w: "from_ws_rx w = Some \<lparr>queue = [WsUpdateMessage.Payload p], rx_open = True\<rparr>"
    "to_ws_tx w = Some new_chan" "\<exists>t. ws_join_handle w = Some t \<and> wt_phase t = WsRunning"
    "to_fsm_tx w = Some new_chan" "is_connection_initialized w" "command_rx w = command_rx ?m"
    "manager_status w = manager_status ?m" "manager_view w = manager_view ?m" "output_tx w = output_tx ?m"
    using t by (simp_all add: w_def ws_turn_at attach_ws_def ws_step_def ws_defs chan_send_def
        new_chan_def Let_def manager_view_def)
  let ?m1 = "w\<lparr>from_ws_rx := Some new_chan\<rparr>"
  define m2 where "m2 = handle_payload e (cr_payload cr) ?m1"
  have "is_connection_initialized ?m1" using w by simp
  note f = payload_talks [OF assms(3) this m2_def]
  have to_fsm: "to_fsm_tx m2 = Some new_chan" using f(2) w(4) by (simp add: core_eq_iff)
  have r: "run_turns e consume_doc (pass_text p) s = Some (manager_step (\<lambda>_. m2) s)"
    using assms(1,2) w to_fsm
    by (simp add: pass_text_def w_def [symmetric] manager_step_def Let_def talking_def machine_at_def
        chan_recv_def handle_lgtv_response_def m2_def new_chan_def)
  have "talking url (manager_step (\<lambda>_. m2) s)"
    using assms(1) f w by (auto simp: talking_def machine_at_def manager_step_def Let_def core_eq_iff)
  moreover have "manager_view ?m1 = manager_view w" by (simp add: manager_view_def)
  ultimately show ?thesis using r f(1,6) w(8,9) by auto
qed

lemma texts_pass:
  "talking url s \<Longrightarrow> list_all2 (\<lambda>p cr. response_from_text e p = Some (LgTvResponse.Command cr) \<and>
      \<not> is_pair (cr_payload cr)) ps crs \<Longrightarrow>
    \<exists>s'. run_turns e consume_doc (concat (map pass_text ps)) s = Some s' \<and> talking url s' \<and>
      manager_view (run_manager s') = fold (tv_says \<circ> cr_payload) crs (manager_view (run_manager s)) \<and>
      rx_open (output_tx (run_manager s')) = rx_open (output_tx (run_manager s))"
proof (induction ps arbitrary: s crs)
  case Nil
  then show ?case by simp
next
  case (Cons p ps)
  from Cons.prems(2) obtain cr crs' where cr: "crs = cr # crs'"
    "response_from_text e p = Some (LgTvResponse.Command cr)" "\<not> is_pair (cr_payload cr)"
    and ps: "list_all2 (\<lambda>p cr. response_from_text e p = Some (LgTvResponse.Command cr) \<and>
      \<not> is_pair (cr_payload cr)) ps crs'" by (auto simp: list_all2_Cons1)
  from text_passes [OF Cons.prems(1) cr(2,3)] obtain s1 where
    1: "run_turns e consume_doc (pass_text p) s = Some s1" "talking url s1"
    "manager_view (run_manager s1) = tv_says (cr_payload cr) (manager_view (run_manager s))"
    "rx_open (output_tx (run_manager s1)) = rx_open (output_tx (run_manager s))" by blast
  from Cons.IH [OF 1(2) ps] 1 show ?case by (auto simp: run_turns_append cr(1))
qed

text \<open>Everything the TV says reaches the caller. A communicating manager whose TV sends any responses,
  one after the other, none of which asks to pair, tells its caller all they say about the TV, in
  that order, and is ready for the next: the details the caller then has are those it had before,
  changed by each of the responses in turn, its volume, power, inputs, software and system.\<close>

theorem responses_reach_caller:
  assumes "hears e consume_doc h s" "talking url s"
    and "list_all2 (\<lambda>p cr. response_from_text e p = Some (LgTvResponse.Command cr) \<and>
      \<not> is_pair (cr_payload cr)) ps crs"
  shows "\<exists>s'. run_turns e consume_doc (concat (map pass_text ps)) s = Some s' \<and> talking url s' \<and>
    mirror (h @ queue (output_tx (run_manager s'))) =
      fold (tv_says \<circ> cr_payload) crs (mirror (h @ queue (output_tx (run_manager s))))"
proof -
  from texts_pass [OF assms(2,3)] obtain s' where
    s': "run_turns e consume_doc (concat (map pass_text ps)) s = Some s'" "talking url s'"
    "manager_view (run_manager s') = fold (tv_says \<circ> cr_payload) crs (manager_view (run_manager s))"
    by blast
  have h: "hears e consume_doc h s'"
    by (rule hears_turns [OF assms(1) s'(1)]) (auto simp: pass_text_def)
  note mirrored = view_mirrored [OF lgtv_fsm.rust_fsm_axioms]
  from mirrored [OF assms(1)] mirrored [OF h] s' show ?thesis by simp
qed

text \<open>A caller that has read nothing yet, and whose manager communicates.\<close>

lemma demo_talking:
  obtains s where "hears demo_session consume_doc [] s" "talking ''wss://tv:3001/'' s"
proof -
  let ?url = "''wss://tv:3001/''" and ?c = "demo_connection True True"
  obtain c where c: "response_from_text demo_session ''vol'' = Some (LgTvResponse.Command c)"
    "volume_of (cr_payload c) \<noteq> None" by (rule demo_session_volume)
  from start_session [OF initial_idle demo_session_url] obtain s0 where
    0: "run_turns demo_session consume_doc [CallerSends (ManagerMessage.Connect ?c), FromCaller] demo_start = Some s0"
    "shows_session ?c ?url s0 (session_start ?url (initial_flow ?c))" by blast
  from session_runs_refined [OF handshake_session [OF demo_session_registers demo_session_parse
      demo_session_texts(1) c] 0(2)] obtain s1 where
    1: "run_turns demo_session consume_doc (handshake_turns ''reg'' ''vol'') s0 = Some s1"
    "shows_session ?c ?url s1 (session_communicating ?url)" by blast
  have "hears demo_session consume_doc [] s0"
    by (rule hears_turns [OF hears.init 0(1)]) simp_all
  from hears_turns [OF this 1(1)] have "hears demo_session consume_doc [] s1"
    by (simp add: handshake_turns_def)
  then show ?thesis using session_talking [OF 1(2)] by (rule that)
qed

text \<open>A caller of a manager whose TV reports its volume again.\<close>

theorem responses_reach_caller_witness:
  "\<exists>s h s'. reachable demo_session consume_doc s \<and>
     run_turns demo_session consume_doc (pass_text ''vol'') s = Some s' \<and>
     ts_volume (mi_state (mirror (h @ queue (output_tx (run_manager s'))))) = Some 7"
proof -
  obtain c where c: "response_from_text demo_session ''vol'' = Some (LgTvResponse.Command c)"
    "volume_of (cr_payload c) \<noteq> None" by (rule demo_session_volume)
  obtain s1 where h: "hears demo_session consume_doc [] s1" and talking: "talking ''wss://tv:3001/'' s1"
    by (rule demo_talking)
  from c(2) have "\<not> is_pair (cr_payload c)" by (auto simp: is_pair_def split: LgTvResponsePayload.splits)
  with c(1) have "list_all2 (\<lambda>p cr. response_from_text demo_session p = Some (LgTvResponse.Command cr) \<and>
      \<not> is_pair (cr_payload cr)) [''vol''] [c]" by simp
  from responses_reach_caller [OF h talking this] obtain s' where
    s': "run_turns demo_session consume_doc (pass_text ''vol'') s1 = Some s'"
    "mirror (queue (output_tx (run_manager s'))) = tv_says (cr_payload c)
       (mirror (queue (output_tx (run_manager s1))))" by auto
  have "volume_of (cr_payload c) = Some (7, False, True)" using demo_session_texts(2) c(1) by simp
  then have "ts_volume (mi_state (tv_says (cr_payload c) v)) = Some 7" for v
    by (cases "cr_payload c") simp_all
  with s' hears_reachable [OF h] show ?thesis by (metis append_Nil)
qed

end
