(* ===== verification/Interleaving.thy ===== *)
theory Interleaving
  imports Lgtv_Prelude
begin

text \<open>
  Steps of several tasks that may be taken in any order: where any two of them commute, every course
  of them has the same length and the same end.
\<close>

section \<open>Steps that commute\<close>

fun steps :: "('l \<Rightarrow> 's \<Rightarrow> 's option) \<Rightarrow> 'l list \<Rightarrow> 's \<Rightarrow> 's option" where
  "steps step [] v = Some v"
| "steps step (a # as) v = Option.bind (step a v) (steps step as)"

lemma steps_Cons: "steps step (a # as) v = Some w \<longleftrightarrow> (\<exists>x. step a v = Some x \<and> steps step as x = Some w)"
  by (cases "step a v") simp_all

lemma steps_append: "steps step (as @ bs) v = Option.bind (steps step as v) (steps step bs)"
proof (induction as arbitrary: v)
  case (Cons a as)
  then show ?case by (cases "step a v") simp_all
qed simp

declare steps.simps(2) [simp del]

definition commute :: "('l \<Rightarrow> 's \<Rightarrow> 's option) \<Rightarrow> 's \<Rightarrow> 'l \<Rightarrow> 'l \<Rightarrow> bool" where
  "commute step v a b \<longleftrightarrow> (\<forall>x y. step a v = Some x \<longrightarrow> step b v = Some y \<longrightarrow>
     x = y \<or> (\<exists>z. step b x = Some z \<and> step a y = Some z))"

lemma commuteI:
  assumes "\<And>x y. \<lbrakk>step a v = Some x; step b v = Some y; x \<noteq> y\<rbrakk> \<Longrightarrow> \<exists>z. step b x = Some z \<and> step a y = Some z"
  shows "commute step v a b"
  using assms by (auto simp: commute_def)

lemma commute_refl: "commute step v a a"
  by (simp add: commute_def)

lemma commute_sym: "commute step v a b \<Longrightarrow> commute step v b a"
  unfolding commute_def by blast

text \<open>
  Steps any two of which, from a state in \<open>keeps\<close>, commute or lead to the same state; \<open>ready\<close> are
  the steps that are due, and one that is due but cannot be taken stays so.
\<close>

locale random_descent =
  fixes step :: "'l \<Rightarrow> 's \<Rightarrow> 's option"
    and keeps :: "'s \<Rightarrow> bool"
    and ready :: "'l \<Rightarrow> 's \<Rightarrow> bool"
  assumes kept: "\<lbrakk>keeps v; step a v = Some x\<rbrakk> \<Longrightarrow> keeps x"
    and diamond: "keeps v \<Longrightarrow> commute step v a b"
    and stuck: "\<lbrakk>keeps v; ready a v; step a v = None; step b v = Some y\<rbrakk> \<Longrightarrow>
      ready a y \<and> step a y = None"
begin

lemma steps_kept: "keeps v \<Longrightarrow> steps step as v = Some w \<Longrightarrow> keeps w"
  by (induction as arbitrary: v) (auto simp: steps_Cons intro: kept)

text \<open>A step taken first shortens the course to a final state by one.\<close>

lemma strip:
  "\<lbrakk>keeps v; step a v = Some x; steps step bs v = Some w; \<And>a. step a w = None\<rbrakk> \<Longrightarrow>
    \<exists>cs. steps step cs x = Some w \<and> length bs = Suc (length cs)"
proof (induction bs arbitrary: v a x)
  case Nil
  then show ?case by simp
next
  case (Cons b bs)
  then obtain y where y: "step b v = Some y" "steps step bs y = Some w"
    by (auto simp: steps_Cons)
  show ?case
  proof (cases "x = y")
    case True
    with y(2) show ?thesis by auto
  next
    case False
    with diamond [OF Cons.prems(1)] Cons.prems(2) y(1) obtain z
      where z: "step b x = Some z" "step a y = Some z" unfolding commute_def by blast
    from Cons.IH [OF kept [OF Cons.prems(1) y(1)] z(2) y(2) Cons.prems(4)] obtain cs
      where "steps step cs z = Some w" "length bs = Suc (length cs)" by blast
    with z(1) show ?thesis by (intro exI [of _ "b # cs"]) (simp add: steps_Cons)
  qed
qed

lemma descent:
  "\<lbrakk>keeps v; steps step as v = Some w; \<And>a. step a w = None; steps step bs v = Some u\<rbrakk> \<Longrightarrow>
    \<exists>cs. steps step cs u = Some w \<and> length as = length bs + length cs"
proof (induction bs arbitrary: v as)
  case Nil
  then show ?case by auto
next
  case (Cons b bs)
  then obtain x where x: "step b v = Some x" "steps step bs x = Some u"
    by (auto simp: steps_Cons)
  from strip [OF Cons.prems(1) x(1) Cons.prems(2,3)] obtain cs
    where cs: "steps step cs x = Some w" "length as = Suc (length cs)" by blast
  from Cons.IH [OF kept [OF Cons.prems(1) x(1)] cs(1) Cons.prems(3) x(2)] cs(2) show ?case by auto
qed

text \<open>On the way to a state where nothing is due, whatever is due can be taken.\<close>

lemma not_stuck:
  "\<lbrakk>keeps v; steps step as v = Some w; \<And>a. \<not> ready a w; ready a v\<rbrakk> \<Longrightarrow> \<exists>x. step a v = Some x"
proof (induction as arbitrary: v)
  case Nil
  then show ?case by simp
next
  case (Cons b as)
  then obtain y where y: "step b v = Some y" "steps step as y = Some w"
    by (auto simp: steps_Cons)
  show ?case
  proof (rule ccontr)
    assume "\<not> ?thesis"
    then have n: "step a v = None" by simp
    from stuck [OF Cons.prems(1,4) n y(1)]
      Cons.IH [OF kept [OF Cons.prems(1) y(1)] y(2) Cons.prems(3)] show False by auto
  qed
qed

end

end
