(* ===== verification/Manager_Traffic.thy ===== *)
theory Manager_Traffic
  imports Manager_Talk Interleaving
begin

text \<open>
  The traffic of a communicating manager in any order: the caller sends its commands and reads what
  it is told, the TV sends its texts, and the tasks in between take their turns as they come.
\<close>

section \<open>Turns of the traffic\<close>

text \<open>
  How far a traffic of the commands \<open>cs\<close> and the texts \<open>ps\<close> has come: the program, how many of
  both are sent, and what the caller has read.
\<close>

record traffic =
  tr_run :: Run
  tr_commands :: nat
  tr_texts :: nat
  tr_heard :: "ManagerOutputMessage list"

definition handler_running :: "Run \<Rightarrow> bool" where
  "handler_running s \<longleftrightarrow> (case ws_join_handle (run_manager s) of
     Some t \<Rightarrow> wt_phase t = WsRunning | None \<Rightarrow> False)"

definition waits :: "'a chan option \<Rightarrow> bool" where
  "waits c \<longleftrightarrow> (case c of Some c \<Rightarrow> queue c \<noteq> [] | None \<Rightarrow> False)"

text \<open>A turn is ready where its channel has a message, or the caller or the TV has one left to send.\<close>

definition traffic_ready :: "TvCommand list \<Rightarrow> string list \<Rightarrow> turn \<Rightarrow> traffic \<Rightarrow> bool" where
  "traffic_ready cs ps t x \<longleftrightarrow> (let s = tr_run x; m = run_manager s in case t of
       CallerSends (SendTvCommand c) \<Rightarrow> tr_commands x < length cs \<and> c = cs ! tr_commands x
     | FromCaller \<Rightarrow> queue (command_rx m) \<noteq> []
     | FsmReceives \<Rightarrow> queue (fsm_rx (run_fsm s)) \<noteq> []
     | FromStateMachine \<Rightarrow> queue (fsm_tx (run_fsm s)) \<noteq> []
     | FromWebSocket \<Rightarrow> waits (from_ws_rx m)
     | WsTurn (CallerMessage None _) \<Rightarrow> handler_running s \<and> waits (to_ws_tx m)
     | WsTurn (Incoming (Inr (Text p))) \<Rightarrow>
         handler_running s \<and> tr_texts x < length ps \<and> p = ps ! tr_texts x
     | CallerReceives \<Rightarrow> queue (output_tx m) \<noteq> []
     | _ \<Rightarrow> False)"

definition traffic_step :: "'u ext \<Rightarrow> TvCommand list \<Rightarrow> string list \<Rightarrow> turn \<Rightarrow> traffic \<Rightarrow> traffic option" where
  "traffic_step e cs ps t x =
     (if traffic_ready cs ps t x
      then map_option (\<lambda>s. x\<lparr>tr_run := s,
             tr_commands := (case t of CallerSends _ \<Rightarrow> Suc (tr_commands x) | _ \<Rightarrow> tr_commands x),
             tr_texts := (case t of WsTurn (Incoming _) \<Rightarrow> Suc (tr_texts x) | _ \<Rightarrow> tr_texts x),
             tr_heard := tr_heard x @ taken_by_caller t (tr_run x)\<rparr>)
           (run_turn e consume_doc t (tr_run x))
      else None)"

section \<open>What is under way\<close>

text \<open>The commands in the reports of the machine that the manager has not read.\<close>

fun reported :: "StateMachineUpdateMessage list \<Rightarrow> TvCommand list" where
  "reported [] = []"
| "reported (StateMachineUpdateMessage.Output (Output.SendCommand c) # outs) = c # reported outs"
| "reported (_ # outs) = reported outs"

lemma reported_append [simp]: "reported (xs @ ys) = reported xs @ reported ys"
  by (induction xs rule: reported.induct) simp_all

definition command_texts :: "'u ext \<Rightarrow> nat \<Rightarrow> TvCommand list \<Rightarrow> SocketMessage list" where
  "command_texts e n cs = map (\<lambda>(i, c). Text (command_text e i c)) (List.enumerate n cs)"

lemma command_texts_simps [simp]:
  "command_texts e n [] = []"
  "command_texts e n (c # cs) = Text (command_text e n c) # command_texts e (Suc n) cs"
  by (simp_all add: command_texts_def)

definition text_says :: "'u ext \<Rightarrow> string \<Rightarrow> Mirror \<Rightarrow> Mirror" where
  "text_says e p v = (case response_from_text e p of
     Some (LgTvResponse.Command cr) \<Rightarrow> tv_says (cr_payload cr) v | _ \<Rightarrow> v)"

text \<open>What waits in the channels, from the caller to the TV and from the TV to the manager.\<close>

record pipes =
  pi_calls :: "TvCommand list"
  pi_ins :: "TvCommand list"
  pi_outs :: "StateMachineUpdateMessage list"
  pi_texts :: "string list"
  pi_updates :: "string list"

definition flows :: "string \<Rightarrow> pipes \<Rightarrow> Run \<Rightarrow> bool" where
  "flows url q s \<longleftrightarrow> machine_at s (Communicating url) (Communicating url) (map Input.SendCommand (pi_ins q)) (pi_outs q) \<and>
     command_rx (run_manager s) = \<lparr>queue = map SendTvCommand (pi_calls q), rx_open = True\<rparr> \<and>
     is_connection_initialized (run_manager s) \<and> handler_running s \<and>
     to_ws_tx (run_manager s) = Some \<lparr>queue = map WsMessage.Payload (pi_texts q), rx_open = True\<rparr> \<and>
     from_ws_rx (run_manager s) = Some \<lparr>queue = map WsUpdateMessage.Payload (pi_updates q), rx_open = True\<rparr> \<and>
     set (pi_outs q) \<subseteq> insert (StateMachineUpdateMessage.State (Communicating url))
       (range (StateMachineUpdateMessage.Output \<circ> Output.SendCommand))"

text \<open>What a turn does to it.\<close>

definition flows_on :: "'u ext \<Rightarrow> string \<Rightarrow> turn \<Rightarrow> pipes \<Rightarrow> pipes \<Rightarrow> Run \<Rightarrow> Run \<Rightarrow> bool" where
  "flows_on e url t q q' s s' \<longleftrightarrow> run_turn e consume_doc t s = Some s' \<and> flows url q' s'"

lemmas flow_defs = flows_on_def flows_def machine_at_def handler_running_def written_def chan_recv_def
  chan_send_def manager_step_def Let_def

lemma flow_sent:
  assumes "flows url q s"
  shows "\<exists>s'. flows_on e url (CallerSends (SendTvCommand c)) q (q\<lparr>pi_calls := pi_calls q @ [c]\<rparr>) s s' \<and>
    written s' = written s \<and> uuid_count (run_manager s') = uuid_count (run_manager s) \<and>
    manager_view (run_manager s') = manager_view (run_manager s)"
  using assms by (auto simp: flow_defs manager_view_def)

lemma flow_called:
  assumes "flows url q s" "pi_calls q = c # calls"
  shows "\<exists>s'. flows_on e url FromCaller q (q\<lparr>pi_calls := calls, pi_ins := pi_ins q @ [c]\<rparr>) s s' \<and>
    written s' = written s \<and> uuid_count (run_manager s') = uuid_count (run_manager s) \<and>
    manager_view (run_manager s') = manager_view (run_manager s)"
  using assms by (auto simp: flow_defs send_to_fsm_def manager_view_def)

lemma flow_input:
  assumes "flows url q s" "pi_ins q = c # ins"
  shows "\<exists>s'. flows_on e url FsmReceives q (q\<lparr>pi_ins := ins, pi_outs := pi_outs q @
      [StateMachineUpdateMessage.State (Communicating url),
       StateMachineUpdateMessage.Output (Output.SendCommand c)]\<rparr>) s s' \<and>
    written s' = written s \<and> uuid_count (run_manager s') = uuid_count (run_manager s) \<and>
    manager_view (run_manager s') = manager_view (run_manager s)"
  using assms
  by (auto simp: flow_defs fsm_task_turn_def fsm_recv_def fsm_handle_open [OF lgtv_fsm.rust_fsm_axioms]
      fsm_next_def fsm_report_def manager_view_def)

lemma flow_state:
  assumes "flows url q s" "pi_outs q = StateMachineUpdateMessage.State x # outs"
  shows "\<exists>s'. flows_on e url FromStateMachine q (q\<lparr>pi_outs := outs\<rparr>) s s' \<and>
    written s' = written s \<and> uuid_count (run_manager s') = uuid_count (run_manager s) \<and>
    manager_view (run_manager s') = manager_view (run_manager s)"
  using assms by (auto simp: flow_defs set_manager_status_eq manager_view_def)

lemma flow_output:
  assumes "flows url q s" "pi_outs q = StateMachineUpdateMessage.Output (Output.SendCommand c) # outs"
  shows "\<exists>s'. flows_on e url FromStateMachine q (q\<lparr>pi_outs := outs,
      pi_texts := pi_texts q @ [command_text e (uuid_count (run_manager s)) c]\<rparr>) s s' \<and>
    written s' = written s \<and> uuid_count (run_manager s') = Suc (uuid_count (run_manager s)) \<and>
    manager_view (run_manager s') = manager_view (run_manager s)"
  using assms by (auto simp: flow_defs send_command_open chan_pushes_def manager_view_def)

lemma flow_written:
  assumes "flows url q s" "pi_texts q = p # rest"
  shows "\<exists>s'. flows_on e url (WsTurn (CallerMessage None now)) q (q\<lparr>pi_texts := rest\<rparr>) s s' \<and>
    written s' = written s @ [Text p] \<and> uuid_count (run_manager s') = uuid_count (run_manager s) \<and>
    manager_view (run_manager s') = manager_view (run_manager s)"
  using assms
  by (auto simp: flow_defs ws_turn_at attach_ws_def ws_step_def ws_write_def manager_view_def
      split: option.splits)

lemma flow_text:
  assumes "flows url q s"
  shows "\<exists>s'. flows_on e url (WsTurn (Incoming (Inr (Text p)))) q (q\<lparr>pi_updates := pi_updates q @ [p]\<rparr>) s s' \<and>
    written s' = written s \<and> uuid_count (run_manager s') = uuid_count (run_manager s) \<and>
    manager_view (run_manager s') = manager_view (run_manager s)"
  using assms
  by (auto simp: flow_defs ws_turn_at attach_ws_def ws_step_def ws_defs manager_view_def
      split: option.splits)

lemma flow_heard:
  assumes "flows url q s" "queue (output_tx (run_manager s)) \<noteq> []"
  shows "\<exists>s'. flows_on e url CallerReceives q q s s' \<and>
    written s' = written s \<and> uuid_count (run_manager s') = uuid_count (run_manager s) \<and>
    manager_view (run_manager s') = manager_view (run_manager s) \<and>
    queue (output_tx (run_manager s')) = tl (queue (output_tx (run_manager s)))"
  using assms by (auto simp: flow_defs manager_view_def neq_Nil_conv)

lemma flow_update:
  assumes "flows url q s" "pi_updates q = p # rest" "is_answer e p"
  shows "\<exists>s'. flows_on e url FromWebSocket q (q\<lparr>pi_updates := rest\<rparr>) s s' \<and>
    written s' = written s \<and> uuid_count (run_manager s') = uuid_count (run_manager s) \<and>
    manager_view (run_manager s') = text_says e p (manager_view (run_manager s))"
proof -
  from assms(3) obtain cr where cr: "response_from_text e p = Some (LgTvResponse.Command cr)"
    "\<not> is_pair (cr_payload cr)" by (auto simp: is_answer_def split: option.splits LgTvResponse.splits)
  let ?m = "(run_manager s)\<lparr>from_ws_rx := Some \<lparr>queue = map WsUpdateMessage.Payload rest, rx_open = True\<rparr>\<rparr>"
  have init: "is_connection_initialized ?m" using assms(1) by (simp add: flows_def)
  from payload_keeps [OF cr(2), of ?m e] init obtain sw inputs info ts out where
    m: "handle_payload e (cr_payload cr) ?m = ?m\<lparr>tv_software_info := sw, tv_inputs := inputs,
      tv_info := info, tv_state := ts, output_tx := out\<rparr>" by blast
  have "manager_view (handle_payload e (cr_payload cr) ?m) = tv_says (cr_payload cr) (manager_view (run_manager s))"
    using payload_talks(1) [OF cr(2) init refl, of e] by (simp add: manager_view_def)
  with assms(1,2) cr(1) m show ?thesis
    by (auto simp: flow_defs handle_lgtv_response_def text_says_def simp del: handle_payload.simps)
qed

section \<open>Nothing is lost\<close>

text \<open>What is left to do of the traffic, in turns.\<close>

definition traffic_left :: "TvCommand list \<Rightarrow> string list \<Rightarrow> pipes \<Rightarrow> traffic \<Rightarrow> nat" where
  "traffic_left cs ps q x = 6 * (length cs - tr_commands x) + 5 * length (pi_calls q) + 4 * length (pi_ins q) +
     length (pi_outs q) + length (reported (pi_outs q)) + length (pi_texts q) +
     2 * (length ps - tr_texts x) + length (pi_updates q)"

text \<open>
  At every moment what is written, what is under way and what the caller has not yet sent make up
  all there is to write; and so with what the TV says.
\<close>

definition conserves :: "'u ext \<Rightarrow> string \<Rightarrow> TvCommand list \<Rightarrow> string list \<Rightarrow> Run \<Rightarrow> pipes \<Rightarrow> traffic \<Rightarrow> bool" where
  "conserves e url cs ps s q x \<longleftrightarrow> flows url q (tr_run x) \<and> hears e consume_doc (tr_heard x) (tr_run x) \<and>
     tr_commands x \<le> length cs \<and> tr_texts x \<le> length ps \<and> (\<forall>p\<in>set (pi_updates q). is_answer e p) \<and>
     written (tr_run x) @ map Text (pi_texts q) @ command_texts e (uuid_count (run_manager (tr_run x)))
       (reported (pi_outs q) @ pi_ins q @ pi_calls q @ drop (tr_commands x) cs) =
     written s @ command_texts e (uuid_count (run_manager s)) cs \<and>
     fold (text_says e) (pi_updates q @ drop (tr_texts x) ps) (manager_view (run_manager (tr_run x))) =
     fold (text_says e) ps (manager_view (run_manager s))"

lemma Cons_drop: "i < length xs \<Longrightarrow> drop i xs = xs ! i # drop (Suc i) xs"
  by (rule Cons_nth_drop_Suc [symmetric])

lemma ready_cases:
  assumes "traffic_ready cs ps t x" "flows url q (tr_run x)"
  obtains c where "t = CallerSends (SendTvCommand c)" "tr_commands x < length cs" "c = cs ! tr_commands x"
  | c calls where "t = FromCaller" "pi_calls q = c # calls"
  | c ins where "t = FsmReceives" "pi_ins q = c # ins"
  | outs where "t = FromStateMachine" "pi_outs q = StateMachineUpdateMessage.State (Communicating url) # outs"
  | c outs where "t = FromStateMachine" "pi_outs q = StateMachineUpdateMessage.Output (Output.SendCommand c) # outs"
  | p rest where "t = FromWebSocket" "pi_updates q = p # rest"
  | now p rest where "t = WsTurn (CallerMessage None now)" "pi_texts q = p # rest"
  | p where "t = WsTurn (Incoming (Inr (Text p)))" "tr_texts x < length ps" "p = ps ! tr_texts x"
  | "t = CallerReceives" "queue (output_tx (run_manager (tr_run x))) \<noteq> []"
proof (cases t)
  case FromStateMachine
  with assms obtain msg outs where "pi_outs q = msg # outs"
    by (cases "pi_outs q") (auto simp: traffic_ready_def flows_def machine_at_def)
  with FromStateMachine assms(2) that(4,5) show ?thesis by (auto simp: flows_def)
next
  case (WsTurn ev)
  with assms show ?thesis
    by (cases ev)
       (auto simp: traffic_ready_def flows_def waits_def neq_Nil_conv split: option.splits sum.splits
         SocketMessage.splits intro: that)
next
  case (CallerSends msg)
  with assms(1) that(1) show ?thesis by (cases msg) (auto simp: traffic_ready_def)
qed (use assms that in \<open>auto simp: traffic_ready_def flows_def machine_at_def waits_def neq_Nil_conv\<close>)

definition out_queue :: "traffic \<Rightarrow> ManagerOutputMessage list" where
  "out_queue x = queue (output_tx (run_manager (tr_run x)))"

text \<open>A turn that is ready can be taken, loses nothing, and is one less to take.\<close>

definition takes_turn :: "'u ext \<Rightarrow> string \<Rightarrow> TvCommand list \<Rightarrow> string list \<Rightarrow> Run \<Rightarrow> turn \<Rightarrow> pipes \<Rightarrow> traffic \<Rightarrow> bool" where
  "takes_turn e url cs ps s t q x \<longleftrightarrow> (\<exists>x' q'. traffic_step e cs ps t x = Some x' \<and> conserves e url cs ps s q' x' \<and>
     traffic_left cs ps q x = (if t = CallerReceives then 0 else 1) + traffic_left cs ps q' x' \<and>
     (t = CallerReceives \<longrightarrow> out_queue x' = tl (out_queue x)))"

lemma takes_turnI:
  assumes "conserves e url cs ps s q x" "traffic_ready cs ps t x" "flows_on e url t q q' (tr_run x) s'"
    "x' = x\<lparr>tr_run := s',
       tr_commands := (case t of CallerSends _ \<Rightarrow> Suc (tr_commands x) | _ \<Rightarrow> tr_commands x),
       tr_texts := (case t of WsTurn (Incoming _) \<Rightarrow> Suc (tr_texts x) | _ \<Rightarrow> tr_texts x),
       tr_heard := tr_heard x @ taken_by_caller t (tr_run x)\<rparr>"
    "hears e consume_doc (tr_heard x') (tr_run x') \<Longrightarrow> conserves e url cs ps s q' x'"
    "traffic_left cs ps q x = (if t = CallerReceives then 0 else 1) + traffic_left cs ps q' x'"
    "t = CallerReceives \<longrightarrow> out_queue x' = tl (out_queue x)"
  shows "takes_turn e url cs ps s t q x"
proof -
  have "t \<noteq> CallerCloses" using assms(2) by (auto simp: traffic_ready_def)
  with assms(1,3) have "hears e consume_doc (tr_heard x') (tr_run x')"
    by (auto simp: assms(4) conserves_def flows_on_def intro: hears.turn)
  with assms show ?thesis
    unfolding takes_turn_def by (intro exI [of _ x'] exI [of _ q']) (simp add: traffic_step_def flows_on_def)
qed

lemma traffic_next:
  assumes "conserves e url cs ps s q x" "traffic_ready cs ps t x" "\<forall>p\<in>set ps. is_answer e p"
  shows "takes_turn e url cs ps s t q x"
proof -
  have flows: "flows url q (tr_run x)" using assms(1) by (simp add: conserves_def)
  note taken = takes_turnI [OF assms(1,2) _ refl]
  note defs = conserves_def traffic_left_def flows_on_def taken_by_caller_def out_queue_def
  from assms(2) flows show ?thesis
  proof (rule ready_cases)
    fix c assume t: "t = CallerSends (SendTvCommand c)" "tr_commands x < length cs" "c = cs ! tr_commands x"
    with flow_sent [OF flows, of e c] assms(1) Cons_drop [OF t(2)] show ?thesis
      by (elim exE conjE) (rule taken, simp, simp_all add: defs)
  next
    fix c calls assume t: "t = FromCaller" "pi_calls q = c # calls"
    with flow_called [OF flows t(2), of e] assms(1) show ?thesis
      by (elim exE conjE) (rule taken, simp, simp_all add: defs)
  next
    fix c ins assume t: "t = FsmReceives" "pi_ins q = c # ins"
    with flow_input [OF flows t(2), of e] assms(1) show ?thesis
      by (elim exE conjE) (rule taken, simp, simp_all add: defs)
  next
    fix outs assume t: "t = FromStateMachine"
      "pi_outs q = StateMachineUpdateMessage.State (Communicating url) # outs"
    with flow_state [OF flows t(2), of e] assms(1) show ?thesis
      by (elim exE conjE) (rule taken, simp, simp_all add: defs)
  next
    fix c outs assume t: "t = FromStateMachine"
      "pi_outs q = StateMachineUpdateMessage.Output (Output.SendCommand c) # outs"
    with flow_output [OF flows t(2), of e] assms(1) show ?thesis
      by (elim exE conjE) (rule taken, simp, simp_all add: defs)
  next
    fix p rest assume t: "t = FromWebSocket" "pi_updates q = p # rest"
    with assms(1) have "is_answer e p" by (simp add: conserves_def)
    with flow_update [OF flows t(2) this] t assms(1) show ?thesis
      by (elim exE conjE) (rule taken, simp, simp_all add: defs)
  next
    fix now p rest assume t: "t = WsTurn (CallerMessage None now)" "pi_texts q = p # rest"
    with flow_written [OF flows t(2), of e now] assms(1) show ?thesis
      by (elim exE conjE) (rule taken, simp, simp_all add: defs)
  next
    fix p assume t: "t = WsTurn (Incoming (Inr (Text p)))" "tr_texts x < length ps" "p = ps ! tr_texts x"
    with flow_text [OF flows, of e p] assms(1,3) Cons_drop [OF t(2)] show ?thesis
      by (elim exE conjE) (rule taken, simp, simp_all add: defs)
  next
    assume t: "t = CallerReceives" "queue (output_tx (run_manager (tr_run x))) \<noteq> []"
    with flow_heard [OF flows t(2), of e] assms(1) show ?thesis
      by (elim exE conjE) (rule taken, simp, simp_all add: defs)
  qed
qed

section \<open>Every course of the traffic\<close>

lemma talking_flows:
  assumes "talking url s"
  shows "flows url \<lparr>pi_calls = [], pi_ins = [], pi_outs = [], pi_texts = [], pi_updates = []\<rparr> s"
  using assms
  by (auto simp: talking_def flows_def machine_at_def handler_running_def new_chan_def)

lemma flows_talking:
  assumes "flows url q s" "q = \<lparr>pi_calls = [], pi_ins = [], pi_outs = [], pi_texts = [], pi_updates = []\<rparr>"
  shows "talking url s"
  using assms
  by (auto simp: talking_def flows_def machine_at_def handler_running_def new_chan_def split: option.splits)

text \<open>As long as something is left, a turn other than the caller's reading is ready.\<close>

lemma traffic_goes_on:
  assumes "flows url q (tr_run x)" "traffic_left cs ps q x \<noteq> 0"
  obtains t where "t \<noteq> CallerReceives" "traffic_ready cs ps t x"
proof -
  note that = that [unfolded traffic_ready_def Let_def]
  consider "tr_commands x < length cs" | "pi_calls q \<noteq> []" | "pi_ins q \<noteq> []" | "pi_outs q \<noteq> []"
    | "pi_texts q \<noteq> []" | "tr_texts x < length ps" | "pi_updates q \<noteq> []"
    using assms(2) by (cases "pi_outs q") (auto simp: traffic_left_def)
  then show ?thesis
  proof cases
    case 1
    then show ?thesis by (intro that [of "CallerSends (SendTvCommand (cs ! tr_commands x))"]) simp_all
  next
    case 2
    with assms(1) show ?thesis by (intro that [of FromCaller]) (simp_all add: flows_def)
  next
    case 3
    with assms(1) show ?thesis by (intro that [of FsmReceives]) (simp_all add: flows_def machine_at_def)
  next
    case 4
    with assms(1) show ?thesis by (intro that [of FromStateMachine]) (simp_all add: flows_def machine_at_def)
  next
    case 5
    with assms(1) show ?thesis
      by (intro that [of "WsTurn (CallerMessage None 0)"]) (simp_all add: flows_def waits_def)
  next
    case 6
    with assms(1) show ?thesis
      by (intro that [of "WsTurn (Incoming (Inr (Text (ps ! tr_texts x))))"]) (simp_all add: flows_def)
  next
    case 7
    with assms(1) show ?thesis by (intro that [of FromWebSocket]) (simp_all add: flows_def waits_def)
  qed
qed

lemma nothing_left:
  assumes "conserves e url cs ps s q x" "traffic_left cs ps q x = 0"
  shows "talking url (tr_run x)" "tr_commands x = length cs" "tr_texts x = length ps"
    "written (tr_run x) = written s @ command_texts e (uuid_count (run_manager s)) cs"
    "manager_view (run_manager (tr_run x)) = fold (text_says e) ps (manager_view (run_manager s))"
proof -
  from assms have q: "q = \<lparr>pi_calls = [], pi_ins = [], pi_outs = [], pi_texts = [], pi_updates = []\<rparr>"
    and n: "tr_commands x = length cs" "tr_texts x = length ps"
    by (cases q; auto simp: traffic_left_def conserves_def)+
  show "talking url (tr_run x)" using assms(1) flows_talking q by (auto simp: conserves_def)
  from n show "tr_commands x = length cs" "tr_texts x = length ps" .
  from assms(1) q n show
    "written (tr_run x) = written s @ command_texts e (uuid_count (run_manager s)) cs"
    "manager_view (run_manager (tr_run x)) = fold (text_says e) ps (manager_view (run_manager s))"
    by (simp_all add: conserves_def)
qed

lemma course_conserves:
  "\<lbrakk>steps (traffic_step e cs ps) ts x = Some x'; conserves e url cs ps s q x; \<forall>p\<in>set ps. is_answer e p\<rbrakk> \<Longrightarrow>
    \<exists>q'. conserves e url cs ps s q' x' \<and>
      traffic_left cs ps q x = length (filter (\<lambda>t. t \<noteq> CallerReceives) ts) + traffic_left cs ps q' x'"
proof (induction ts arbitrary: x q)
  case Nil
  then show ?case by auto
next
  case (Cons t ts)
  then obtain y where y: "traffic_step e cs ps t x = Some y" "steps (traffic_step e cs ps) ts y = Some x'"
    by (auto simp: steps_Cons)
  then have "traffic_ready cs ps t x" by (simp add: traffic_step_def split: if_splits)
  from traffic_next [OF Cons.prems(2) this Cons.prems(3)] y(1) obtain r where
    r: "conserves e url cs ps s r y"
    "traffic_left cs ps q x = (if t = CallerReceives then 0 else 1) + traffic_left cs ps r y"
    by (auto simp: takes_turn_def)
  from Cons.IH [OF y(2) r(1) Cons.prems(3)] r(2) show ?case by auto
qed

text \<open>The caller reads what is left for it.\<close>

lemma caller_reads:
  "\<lbrakk>conserves e url cs ps s q x; traffic_left cs ps q x = 0; \<forall>p\<in>set ps. is_answer e p\<rbrakk> \<Longrightarrow>
    \<exists>us x' q'. steps (traffic_step e cs ps) us x = Some x' \<and> conserves e url cs ps s q' x' \<and>
      traffic_left cs ps q' x' = 0 \<and> out_queue x' = []"
proof (induction "out_queue x" arbitrary: x q)
  case Nil
  then show ?case by (intro exI [of _ "[]"] exI [of _ x] exI [of _ q]) simp
next
  case (Cons m ms)
  then have "traffic_ready cs ps CallerReceives x" by (auto simp: traffic_ready_def out_queue_def)
  from traffic_next [OF Cons.prems(1) this Cons.prems(3)] Cons.prems(2) obtain y r where
    y: "traffic_step e cs ps CallerReceives x = Some y" "conserves e url cs ps s r y"
      "traffic_left cs ps r y = 0" "out_queue y = tl (out_queue x)"
    by (auto simp: takes_turn_def)
  from Cons.hyps(1) [OF _ y(2,3) Cons.prems(3)] Cons.hyps(2) y(4) obtain us x' q' where
    "steps (traffic_step e cs ps) us y = Some x'" "conserves e url cs ps s q' x'"
    "traffic_left cs ps q' x' = 0" "out_queue x' = []"
    by (metis list.sel(3))
  with y(1) show ?case by (intro exI [of _ "CallerReceives # us"]) (auto simp: steps_Cons)
qed

lemma traffic_completes:
  "\<lbrakk>conserves e url cs ps s q x; \<forall>p\<in>set ps. is_answer e p\<rbrakk> \<Longrightarrow>
    \<exists>us x' q'. steps (traffic_step e cs ps) us x = Some x' \<and> conserves e url cs ps s q' x' \<and>
      traffic_left cs ps q' x' = 0 \<and> out_queue x' = []"
proof (induction "traffic_left cs ps q x" arbitrary: x q)
  case 0
  then show ?case by (intro caller_reads) simp_all
next
  case (Suc n)
  then have flows: "flows url q (tr_run x)" by (simp add: conserves_def)
  from traffic_goes_on [OF flows, of cs ps] Suc.hyps(2) obtain t where
    t: "t \<noteq> CallerReceives" "traffic_ready cs ps t x" by auto
  from traffic_next [OF Suc.prems(1) t(2) Suc.prems(2)] t(1) Suc.hyps(2) obtain y r where
    y: "traffic_step e cs ps t x = Some y" "conserves e url cs ps s r y" "n = traffic_left cs ps r y"
    by (auto simp: takes_turn_def)
  from Suc.hyps(1) [OF y(3,2) Suc.prems(2)] y(1) show ?case
    by (elim exE conjE) (rule exI [of _ "t # _"], auto simp: steps_Cons)
qed

text \<open>All is delivered: the commands to the TV, and to the caller what the TV says.\<close>

definition delivered :: "'u ext \<Rightarrow> string \<Rightarrow> TvCommand list \<Rightarrow> string list \<Rightarrow> Run \<Rightarrow> ManagerOutputMessage list \<Rightarrow> traffic \<Rightarrow> bool" where
  "delivered e url cs ps s h x \<longleftrightarrow> talking url (tr_run x) \<and>
     written (tr_run x) = written s @ command_texts e (uuid_count (run_manager s)) cs \<and>
     mirror (tr_heard x) = fold (text_says e) ps (mirror (h @ queue (output_tx (run_manager s))))"

lemma delivered_at_end:
  assumes "conserves e url cs ps s q x" "traffic_left cs ps q x = 0" "out_queue x = []"
    "hears e consume_doc h s"
  shows "delivered e url cs ps s h x"
proof -
  note mirrored = view_mirrored [OF lgtv_fsm.rust_fsm_axioms]
  from assms(1) have "hears e consume_doc (tr_heard x) (tr_run x)" by (simp add: conserves_def)
  from mirrored [OF this] mirrored [OF assms(4)] nothing_left [OF assms(1,2)] assms(3) show ?thesis
    by (simp add: delivered_def out_queue_def)
qed



end
