(* ===== verification/Manager_Orders.thy ===== *)
theory Manager_Orders
  imports Manager_Session Interleaving
begin

text \<open>
  The turns of a handshake commute: each task takes from the front of its channel what others add
  to the back, and the handler is started only once. They are an interpretation of
  \<open>random_descent\<close>.
\<close>

section \<open>The handshake\<close>

text \<open>
  The turns of a handshake on the view of a session, with the number of texts the TV has sent. It
  sends \<open>answers\<close> in their order, each once it has got one text more than it has sent.
\<close>

definition is_handshake :: "turn \<Rightarrow> bool" where
  "is_handshake t \<longleftrightarrow> (case t of
       FsmReceives \<Rightarrow> True | FromStateMachine \<Rightarrow> True | FromWebSocket \<Rightarrow> True
     | WsTurn Begin \<Rightarrow> True | WsTurn (Resolved Established) \<Rightarrow> True
     | WsTurn (CallerMessage None _) \<Rightarrow> True | _ \<Rightarrow> False)"

fun handshake_next :: "'u ext \<Rightarrow> string \<Rightarrow> string list \<Rightarrow> turn \<Rightarrow> session \<times> nat \<Rightarrow> (session \<times> nat) option" where
  "handshake_next e url answers (WsTurn (Incoming (Inr (Text p)))) (v, k) =
     (if k < length (se_written v) \<and> k < length answers \<and> p = answers ! k
      then map_option (\<lambda>v. (v, Suc k)) (session_next e url (WsTurn (Incoming (Inr (Text p)))) v)
      else None)"
| "handshake_next e url answers t (v, k) =
     (if is_handshake t then map_option (\<lambda>v. (v, k)) (session_next e url t v) else None)"

definition is_connect :: "Input \<Rightarrow> bool" where
  "is_connect i = (case i of Input.Connect _ \<Rightarrow> True | _ \<Rightarrow> False)"

definition is_start :: "StateMachineUpdateMessage \<Rightarrow> bool" where
  "is_start msg = (case msg of StateMachineUpdateMessage.Output (ConnectToTv _) \<Rightarrow> True | _ \<Rightarrow> False)"

text \<open>At most one handler is ever started, and it is not told to end.\<close>

definition starts :: "session \<Rightarrow> nat" where
  "starts v = length (filter is_connect (se_ins v)) + length (filter is_start (se_outs v)) +
     (if se_phase v = None then 0 else 1)"

definition handshaking :: "session \<Rightarrow> bool" where
  "handshaking v \<longleftrightarrow> starts v \<le> 1 \<and> \<not> se_manual v \<and> set (se_waiting v) \<subseteq> {WsMessage.Payload []} \<and>
     se_phase v \<noteq> Some WsEnded"

lemmas handshake_defs = handshaking_def starts_def is_start_def is_connect_def

lemma report_starts:
  "length (filter is_start (fsm_report consume_doc s i)) \<le> (if is_connect i then 1 else 0)"
  by (cases s; cases i; simp add: fsm_report_def is_start_def is_connect_def)

text \<open>Pairs of turns that commute.\<close>

text \<open>What a report of the machine, a message and a turn of the handler do depends on few fields.\<close>

lemma has_handler_updates [simp]:
  "has_handler (v\<lparr>se_flow := flow\<rparr>) = has_handler v"
  "has_handler (v\<lparr>se_outs := outs\<rparr>) = has_handler v"
  by (simp_all add: has_handler_def)

lemma report_frame:
  assumes "session_report e url msg v = Some v'" "\<not> is_start msg" "has_handler w = has_handler v"
    "se_manual w = se_manual v" "se_status w = se_status v" "se_flow w = se_flow v"
  shows "session_report e url msg w = Some (w\<lparr>se_status := se_status v', se_flow := se_flow v',
    se_waiting := se_waiting w @ drop (length (se_waiting v)) (se_waiting v')\<rparr>)"
  using assms
  by (cases "(e, url, msg, v)" rule: session_report.cases)
     (auto simp: is_start_def dest!: add_waitingD simp: add_waiting_def split: if_splits)

lemma update_frame:
  assumes "session_update e u v = Some v'" "se_ins w = se_ins v" "se_ready w = se_ready v"
  shows "session_update e u w = Some (w\<lparr>se_ins := se_ins v', se_ready := se_ready v'\<rparr>)"
  using assms
  by (cases "(e, u, v)" rule: session_update.cases)
     (auto split: option.splits LgTvResponse.splits if_splits)

lemma session_wsE:
  assumes "session_ws e url ev v = Some v'"
  obtains "ev = Begin" "se_phase v = Some WsSpawned"
      "v' = v\<lparr>se_phase := Some WsConnecting, se_updates := se_updates v @ [WsUpdateMessage.Status WsStatus.Idle]\<rparr>"
  | "ev = Resolved Established" "se_phase v = Some WsConnecting" "\<exists>u. url_parse e url = Inr u"
      "v' = v\<lparr>se_phase := Some WsRunning, se_updates := se_updates v @ [WsUpdateMessage.Status WsStatus.Connected]\<rparr>"
  | p where "ev = Incoming (Inr (Text p))" "se_phase v = Some WsRunning"
      "v' = v\<lparr>se_phase := Some WsRunning, se_updates := se_updates v @ [WsUpdateMessage.Payload p]\<rparr>"
  | now waiting where "ev = CallerMessage None now" "se_phase v = Some WsRunning"
      "se_waiting v = WsMessage.Payload [] # waiting"
      "v' = v\<lparr>se_phase := Some WsRunning, se_waiting := waiting, se_written := se_written v @ [Text []]\<rparr>"
  | now where "ev = CallerMessage None now" "se_phase v = Some WsRunning"
      "se_waiting v = [WsMessage.Command WsCommand.ShutDown]"
      "v' = v\<lparr>se_phase := Some WsEnded, se_waiting := [],
         se_updates := se_updates v @ [WsUpdateMessage.Status WsStatus.Disconnected],
         se_written := se_written v @ [Close]\<rparr>"
proof (cases "(e, url, ev, v)" rule: session_ws.cases)
  case (1 e' url' w)
  with assms show ?thesis by (intro that(1)) (simp_all split: if_splits)
next
  case (2 e' url' w)
  with assms show ?thesis by (intro that(2)) (simp_all split: if_splits)
next
  case (3 e' url' p w)
  with assms show ?thesis by (intro that(3)) (auto split: if_splits)
next
  case (4 e' url' now w)
  with assms have run: "se_phase v = Some WsRunning" by (simp split: if_splits)
  with assms 4 obtain msg waiting where w: "se_waiting v = msg # waiting" by (simp split: list.splits)
  show ?thesis
  proof (cases msg)
    case (Payload p)
    with assms 4 run w show ?thesis by (intro that(4)) (cases p; simp)+
  next
    case (Command c)
    with assms 4 run w show ?thesis by (intro that(5)) (cases c; cases waiting; simp)+
  qed (use assms 4 run w in simp)
qed (insert assms, (elim Pair_inject, hypsubst, simp (no_asm_use) only: session_ws.simps option.distinct)+)

lemma session_reportE:
  assumes "session_report e url msg v = Some v'"
  obtains x where "msg = StateMachineUpdateMessage.State x" "v' = v\<lparr>se_status := x\<rparr>"
  | "is_start msg" "v' = v\<lparr>se_phase := Some WsSpawned, se_waiting := [], se_updates := [], se_written := []\<rparr>"
  | msgs flow where "\<not> is_start msg" "has_handler v" "set msgs \<subseteq> {WsMessage.Payload []} \<or> se_manual v"
      "v' = v\<lparr>se_flow := flow, se_waiting := se_waiting v @ msgs\<rparr>"
proof (cases "(e, url, msg, v)" rule: session_report.cases)
  case (1 e' url' x w)
  with assms show ?thesis by (intro that(1)) auto
next
  case (2 e' url' host w)
  with assms show ?thesis by (intro that(2)) (simp_all add: is_start_def split: if_splits)
next
  case (3 e' url' w)
  with assms show ?thesis
    by (intro that(3) [of "[WsMessage.Payload []]" Inactive])
       (simp_all add: is_start_def add_waiting_def split: if_splits)
next
  case (4 e' url' w)
  with assms show ?thesis
    by (intro that(3) [of "replicate 6 (WsMessage.Payload [])" "se_flow v"])
       (simp_all add: is_start_def add_waiting_def numeral_eq_Suc split: if_splits)
next
  case (5 e' url' c w)
  with assms show ?thesis
    by (intro that(3) [of "[WsMessage.Payload []]" "se_flow v"])
       (simp_all add: is_start_def add_waiting_def split: if_splits)
next
  case (6 e' url' w)
  with assms show ?thesis
    by (intro that(3) [of "[WsMessage.Command WsCommand.ShutDown]" "se_flow v"])
       (simp_all add: is_start_def add_waiting_def split: if_splits)
qed (use assms in simp_all)

lemma ws_later:
  assumes "session_ws e url ev v = Some v'" "se_phase w = se_phase v" "se_waiting w = se_waiting v @ added"
    "se_written w = se_written v" "set (se_waiting v) \<subseteq> {WsMessage.Payload []} \<or> added = []"
  shows "session_ws e url ev w = Some (w\<lparr>se_phase := se_phase v', se_waiting := se_waiting v' @ added,
    se_updates := se_updates w @ drop (length (se_updates v)) (se_updates v'), se_written := se_written v'\<rparr>)"
  using assms(1) by (rule session_wsE) (use assms(2-5) in auto)

lemmas ws_frame = ws_later [where added = "[]", simplified]

lemma commute_fsm_report: "commute (session_next e url) v FsmReceives FromStateMachine"
proof (rule commuteI)
  fix x y
  assume xy: "session_next e url FsmReceives v = Some x" "session_next e url FromStateMachine v = Some y"
  then obtain i ins msg outs where q: "se_ins v = i # ins" "se_outs v = msg # outs"
    by (auto split: list.splits)
  with xy show "\<exists>z. session_next e url FromStateMachine x = Some z \<and>
      session_next e url FsmReceives y = Some z"
    by (cases "(e, url, msg, v)" rule: session_report.cases)
       (auto simp: add_waiting_def has_handler_def split: if_splits)
qed

lemma commute_fsm_update: "commute (session_next e url) v FsmReceives FromWebSocket"
proof (rule commuteI)
  fix x y
  assume xy: "session_next e url FsmReceives v = Some x" "session_next e url FromWebSocket v = Some y"
  then obtain i ins u updates where q: "se_ins v = i # ins" "se_updates v = u # updates"
    by (auto split: list.splits option.splits)
  with xy show "\<exists>z. session_next e url FromWebSocket x = Some z \<and>
      session_next e url FsmReceives y = Some z"
    by (cases "(e, u, v)" rule: session_update.cases)
       (auto split: if_splits option.splits LgTvResponse.splits)
qed

lemma commute_fsm_ws: "commute (session_next e url) v FsmReceives (WsTurn ev)"
proof (rule commuteI)
  fix x y
  assume xy: "session_next e url FsmReceives v = Some x" "session_next e url (WsTurn ev) v = Some y"
  then obtain i ins where q: "se_ins v = i # ins" by (auto split: list.splits)
  with xy show "\<exists>z. session_next e url (WsTurn ev) x = Some z \<and> session_next e url FsmReceives y = Some z"
    by (auto elim!: session_wsE)
qed

lemma commute_report_update:
  assumes "handshaking v"
  shows "commute (session_next e url) v FromStateMachine FromWebSocket"
proof (rule commuteI)
  fix x y
  assume xy: "session_next e url FromStateMachine v = Some x"
    "session_next e url FromWebSocket v = Some y"
  then obtain msg outs phase u updates where q: "se_outs v = msg # outs" "se_phase v = Some phase"
    "se_updates v = u # updates" "\<not> is_start msg"
    and r: "session_report e url msg (v\<lparr>se_outs := outs\<rparr>) = Some x"
    and u: "session_update e u (v\<lparr>se_updates := updates\<rparr>) = Some y"
    using assms by (auto simp: handshake_defs split: list.splits option.splits if_splits)
  define added where "added = drop (length (se_waiting v)) (se_waiting x)"
  obtain status flow ins ready where f: "se_status x = status" "se_flow x = flow" "se_ins y = ins"
    "se_ready y = ready" by simp
  have x: "x = v\<lparr>se_outs := outs, se_status := status, se_flow := flow, se_waiting := se_waiting v @ added\<rparr>"
    using report_frame [OF r q(4), of "v\<lparr>se_outs := outs\<rparr>"] r f added_def by simp
  have y: "y = v\<lparr>se_updates := updates, se_ins := ins, se_ready := ready\<rparr>"
    using update_frame [OF u, of "v\<lparr>se_updates := updates\<rparr>"] u f by simp
  have "session_report e url msg (y\<lparr>se_outs := outs\<rparr>) = Some (y\<lparr>se_outs := outs, se_status := status,
      se_flow := flow, se_waiting := se_waiting v @ added\<rparr>)"
    using report_frame [OF r q(4), of "y\<lparr>se_outs := outs\<rparr>"] f by (simp add: y has_handler_def added_def)
  then have "session_next e url FromStateMachine y = Some (y\<lparr>se_outs := outs, se_status := status,
      se_flow := flow, se_waiting := se_waiting v @ added\<rparr>)" using q(1) by (simp add: y)
  moreover have "session_update e u (x\<lparr>se_updates := updates\<rparr>) =
      Some (x\<lparr>se_updates := updates, se_ins := ins, se_ready := ready\<rparr>)"
    using update_frame [OF u, of "x\<lparr>se_updates := updates\<rparr>"] f by (simp add: x)
  then have "session_next e url FromWebSocket x = Some (x\<lparr>se_updates := updates, se_ins := ins,
      se_ready := ready\<rparr>)" using q(2,3) by (simp add: x)
  ultimately show "\<exists>z. session_next e url FromWebSocket x = Some z \<and>
      session_next e url FromStateMachine y = Some z" by (simp add: x y)
qed

lemma ws_phase:
  assumes "session_ws e url ev v = Some v'"
  obtains phase phase' where "se_phase v = Some phase" "phase \<noteq> WsEnded" "se_phase v' = Some phase'"
    "set (se_waiting v) \<subseteq> {WsMessage.Payload []} \<Longrightarrow> phase' \<noteq> WsEnded"
  using assms by (rule session_wsE) (use that in auto)

lemma commute_report_ws:
  assumes "handshaking v"
  shows "commute (session_next e url) v FromStateMachine (WsTurn ev)"
proof (rule commuteI)
  fix x y
  assume xy: "session_next e url FromStateMachine v = Some x"
    "session_next e url (WsTurn ev) v = Some y"
  then have w: "session_ws e url ev v = Some y" by simp
  then obtain phase phase' where p: "se_phase v = Some phase" "phase \<noteq> WsEnded" "se_phase y = Some phase'"
    "phase' \<noteq> WsEnded" using assms by (auto simp: handshaking_def elim!: ws_phase)
  with xy(1) obtain msg outs where q: "se_outs v = msg # outs" "\<not> is_start msg"
    and r: "session_report e url msg (v\<lparr>se_outs := outs\<rparr>) = Some x"
    using assms by (auto simp: handshake_defs split: list.splits if_splits)
  obtain added new where n: "drop (length (se_waiting v)) (se_waiting x) = added"
    "drop (length (se_updates v)) (se_updates y) = new" by simp
  obtain status flow waiting written where f: "se_status x = status" "se_flow x = flow"
    "se_waiting y = waiting" "se_written y = written" by simp
  have x: "x = v\<lparr>se_outs := outs, se_status := status, se_flow := flow, se_waiting := se_waiting v @ added\<rparr>"
    using report_frame [OF r q(2), of "v\<lparr>se_outs := outs\<rparr>"] r f n by simp
  have y: "y = v\<lparr>se_phase := Some phase', se_waiting := waiting, se_updates := se_updates v @ new,
      se_written := written\<rparr>"
    using ws_frame [OF w, of v] w f n p(3) by simp
  have "session_report e url msg (y\<lparr>se_outs := outs\<rparr>) = Some (y\<lparr>se_outs := outs, se_status := status,
      se_flow := flow, se_waiting := waiting @ added\<rparr>)"
    using report_frame [OF r q(2), of "y\<lparr>se_outs := outs\<rparr>"] f n p by (simp add: y has_handler_def)
  then have "session_next e url FromStateMachine y = Some (y\<lparr>se_outs := outs, se_status := status,
      se_flow := flow, se_waiting := waiting @ added\<rparr>)" using q(1) by (simp add: y)
  moreover have "session_ws e url ev x = Some (x\<lparr>se_phase := Some phase', se_waiting := waiting @ added,
      se_updates := se_updates v @ new, se_written := written\<rparr>)"
    using ws_later [OF w, of x added] f n p(3) assms by (simp add: x handshaking_def)
  ultimately show "\<exists>z. session_next e url (WsTurn ev) x = Some z \<and>
      session_next e url FromStateMachine y = Some z" by (simp add: x y)
qed

lemma commute_update_ws:
  shows "commute (session_next e url) v FromWebSocket (WsTurn ev)"
proof (rule commuteI)
  fix x y
  assume xy: "session_next e url FromWebSocket v = Some x"
    "session_next e url (WsTurn ev) v = Some y"
  from xy(1) obtain phase u updates where q: "se_phase v = Some phase" "se_updates v = u # updates"
    "session_update e u (v\<lparr>se_updates := updates\<rparr>) = Some x"
    by (auto split: list.splits option.splits)
  from xy(2) have w: "session_ws e url ev v = Some y" by simp
  obtain ins ready where u: "ins = se_ins x" "ready = se_ready x" by simp
  have x: "x = v\<lparr>se_updates := updates, se_ins := ins, se_ready := ready\<rparr>"
    using update_frame [OF q(3), of "v\<lparr>se_updates := updates\<rparr>"] q(3) u by simp
  obtain phase' waiting written added where h: "phase' = se_phase y" "waiting = se_waiting y"
    "written = se_written y" "added = drop (length (se_updates v)) (se_updates y)" by simp
  have y: "y = v\<lparr>se_phase := phase', se_waiting := waiting, se_updates := se_updates v @ added,
      se_written := written\<rparr>"
    using ws_frame [OF w, of v] w h by simp
  have "phase' \<noteq> None"
    using w h(1) by (auto elim!: session_wsE)
  moreover have "session_ws e url ev x = Some (x\<lparr>se_phase := phase', se_waiting := waiting,
      se_updates := updates @ added, se_written := written\<rparr>)"
    using ws_frame [OF w, of x] x h by simp
  moreover have "session_update e u (y\<lparr>se_updates := updates @ added\<rparr>) =
      Some (y\<lparr>se_updates := updates @ added, se_ins := ins, se_ready := ready\<rparr>)"
    using update_frame [OF q(3), of "y\<lparr>se_updates := updates @ added\<rparr>"] y u by simp
  ultimately show "\<exists>z. session_next e url (WsTurn ev) x = Some z \<and>
      session_next e url FromWebSocket y = Some z"
    using x y q(2) by auto
qed

text \<open>What a turn keeps of the handshake.\<close>

lemma update_connects:
  assumes "session_update e u v = Some v'"
  shows "filter is_connect (se_ins v') = filter is_connect (se_ins v)"
  using assms
  by (cases "(e, u, v)" rule: session_update.cases)
     (auto simp: is_connect_def split: if_splits option.splits LgTvResponse.splits)

lemma handshaking_next:
  assumes "handshaking v" "session_next e url t v = Some v'" "is_handshake t \<or> (\<exists>p. t = WsTurn (Incoming (Inr (Text p))))"
  shows "handshaking v'"
proof (cases "(e, url, t, v)" rule: session_next.cases)
  case (1 e url v)
  with assms(2) obtain i ins where "se_ins v = i # ins" by (auto split: list.splits)
  with 1 assms(1,2) report_starts [of "se_fsm v" i] show ?thesis
    by (auto simp: handshaking_def starts_def split: if_splits)
next
  case (2 e' url' w)
  with assms(1,2) obtain msg outs where m: "se_outs v = msg # outs"
    "session_report e url msg (v\<lparr>se_outs := outs\<rparr>) = Some v'" by (auto split: list.splits)
  from m(2) show ?thesis
  proof (rule session_reportE)
    fix msgs flow
    assume "set msgs \<subseteq> {WsMessage.Payload []} \<or> se_manual (v\<lparr>se_outs := outs\<rparr>)"
      "v' = v\<lparr>se_outs := outs\<rparr>\<lparr>se_flow := flow, se_waiting := se_waiting (v\<lparr>se_outs := outs\<rparr>) @ msgs\<rparr>"
    with assms(1) m(1) show ?thesis by (auto simp: handshaking_def starts_def split: if_splits)
  qed (use assms(1) m(1) in \<open>auto simp: handshaking_def starts_def is_start_def split: if_splits\<close>)
next
  case (3 e' url' w)
  with assms(1,2) obtain u updates where u:
    "session_update e u (v\<lparr>se_updates := updates\<rparr>) = Some v'" by (auto split: list.splits option.splits)
  obtain ins ready where "ins = se_ins v'" "ready = se_ready v'" by simp
  with update_frame [OF u, of "v\<lparr>se_updates := updates\<rparr>"] u
  have "v' = v\<lparr>se_updates := updates, se_ins := ins, se_ready := ready\<rparr>" by simp
  with update_connects [OF u] assms(1) show ?thesis by (simp add: handshaking_def starts_def)
next
  case (4 e url ev v)
  with assms(2) have "session_ws e url ev v = Some v'" by simp
  then show ?thesis by (rule session_wsE) (use 4 assms(1) in \<open>auto simp: handshake_defs\<close>)
qed (use assms in \<open>simp_all add: is_handshake_def\<close>)

lemma handshake_nextE:
  assumes "handshake_next e url answers t vk = Some vk'"
  obtains v k v' k' where "vk = (v, k)" "vk' = (v', k')" "session_next e url t v = Some v'"
    "is_handshake t" "k' = k"
  | v k v' p where "vk = (v, k)" "vk' = (v', Suc k)" "session_next e url t v = Some v'"
    "t = WsTurn (Incoming (Inr (Text p)))" "k < length (se_written v)" "k < length answers" "p = answers ! k"
  using assms
  by (cases "(e, url, answers, t, vk)" rule: handshake_next.cases)
     (auto split: if_splits simp del: session_next.simps)

fun handshake_due :: "string list \<Rightarrow> turn \<Rightarrow> session \<times> nat \<Rightarrow> bool" where
  "handshake_due answers FsmReceives (v, k) \<longleftrightarrow> se_ins v \<noteq> []"
| "handshake_due answers FromStateMachine (v, k) \<longleftrightarrow> se_outs v \<noteq> []"
| "handshake_due answers FromWebSocket (v, k) \<longleftrightarrow> se_phase v \<noteq> None \<and> se_updates v \<noteq> []"
| "handshake_due answers (WsTurn Begin) (v, k) \<longleftrightarrow> se_phase v = Some WsSpawned"
| "handshake_due answers (WsTurn (Resolved Established)) (v, k) \<longleftrightarrow> se_phase v = Some WsConnecting"
| "handshake_due answers (WsTurn (CallerMessage None _)) (v, k) \<longleftrightarrow>
     se_phase v = Some WsRunning \<and> se_waiting v \<noteq> []"
| "handshake_due answers (WsTurn (Incoming (Inr (Text p)))) (v, k) \<longleftrightarrow> se_phase v = Some WsRunning \<and>
     k < length (se_written v) \<and> k < length answers \<and> p = answers ! k"
| "handshake_due answers _ _ \<longleftrightarrow> False"

lemma text_first:
  "session_next e url (WsTurn (Incoming (Inr (Text p)))) v = Some x \<longleftrightarrow> se_phase v = Some WsRunning \<and>
    x = v\<lparr>se_phase := Some WsRunning, se_updates := se_updates v @ [WsUpdateMessage.Payload p]\<rparr>"
  by auto

text \<open>The turns of a handshake are those of the machine, of the manager and of the handler.\<close>

lemma ws_kinds:
  assumes "session_ws e url ev v = Some x"
  shows "(ev, se_phase v) \<in> {(Begin, Some WsSpawned), (Resolved Established, Some WsConnecting)} \<or>
    se_phase v = Some WsRunning \<and> ((\<exists>p. ev = Incoming (Inr (Text p))) \<or> (\<exists>now. ev = CallerMessage None now))"
  using assms by (rule session_wsE) simp_all

lemma commute_text_written:
  assumes "handshaking v"
  shows "commute (session_next e url) v (WsTurn (Incoming (Inr (Text p)))) (WsTurn (CallerMessage None now))"
proof (rule commuteI)
  fix x y
  assume "session_next e url (WsTurn (Incoming (Inr (Text p)))) v = Some x"
    "session_next e url (WsTurn (CallerMessage None now)) v = Some y"
  then have "session_ws e url (Incoming (Inr (Text p))) v = Some x"
    "session_ws e url (CallerMessage None now) v = Some y" by simp_all
  then show "\<exists>z. session_next e url (WsTurn (CallerMessage None now)) x = Some z \<and>
      session_next e url (WsTurn (Incoming (Inr (Text p)))) y = Some z"
    by (elim session_wsE) (use assms in \<open>simp_all add: handshaking_def\<close>)
qed

lemma commute_written:
  "commute (session_next e url) v (WsTurn (CallerMessage None now)) (WsTurn (CallerMessage None now'))"
  by (rule commuteI) simp

lemma commute_ws_ws:
  assumes "handshaking v" "\<And>p q. \<lbrakk>ev = Incoming (Inr (Text p)); ev' = Incoming (Inr (Text q))\<rbrakk> \<Longrightarrow> p = q"
  shows "commute (session_next e url) v (WsTurn ev) (WsTurn ev')"
proof (cases "(\<exists>x. session_ws e url ev v = Some x) \<and> (\<exists>y. session_ws e url ev' v = Some y)")
  case True
  with ws_kinds [of e url ev v] ws_kinds [of e url ev' v]
  consider "ev = ev'"
    | p q where "ev = Incoming (Inr (Text p))" "ev' = Incoming (Inr (Text q))"
    | p now where "ev = Incoming (Inr (Text p))" "ev' = CallerMessage None now"
    | p now where "ev' = Incoming (Inr (Text p))" "ev = CallerMessage None now"
    | now now' where "ev = CallerMessage None now" "ev' = CallerMessage None now'"
    by auto
  then show ?thesis
    by cases (use assms in \<open>auto intro: commute_refl commute_sym commute_written commute_text_written\<close>)
qed (auto simp: commute_def)

lemma commute_session:
  assumes "handshaking v" "a \<in> {FsmReceives, FromStateMachine, FromWebSocket} \<or> (\<exists>ev. a = WsTurn ev)"
    "b \<in> {FsmReceives, FromStateMachine, FromWebSocket} \<or> (\<exists>ev. b = WsTurn ev)"
    "\<And>p q. \<lbrakk>a = WsTurn (Incoming (Inr (Text p))); b = WsTurn (Incoming (Inr (Text q)))\<rbrakk> \<Longrightarrow> p = q"
  shows "commute (session_next e url) v a b"
  using assms
  by (auto intro: commute_refl commute_sym commute_fsm_report commute_fsm_update commute_fsm_ws
      commute_report_update commute_report_ws commute_update_ws commute_ws_ws)

lemma handshake_kind:
  assumes "handshake_next e url answers t vk = Some vk'"
  shows "t \<in> {FsmReceives, FromStateMachine, FromWebSocket} \<or> (\<exists>ev. t = WsTurn ev)"
  using assms
  by (rule handshake_nextE) (auto simp: is_handshake_def split: turn.splits)

lemma handshake_nextI:
  "\<lbrakk>session_next e url t v = Some v'; is_handshake t\<rbrakk> \<Longrightarrow> handshake_next e url answers t (v, k) = Some (v', k)"
  "\<lbrakk>session_next e url (WsTurn (Incoming (Inr (Text p)))) v = Some v'; k < length (se_written v);
     k < length answers; p = answers ! k\<rbrakk> \<Longrightarrow>
   handshake_next e url answers (WsTurn (Incoming (Inr (Text p)))) (v, k) = Some (v', Suc k)"
  by (cases "(e, url, answers, t, (v, k))" rule: handshake_next.cases)
     (auto simp: is_handshake_def simp del: session_next.simps)

text \<open>While the TV may send a text, the others only write to it and read what it has sent.\<close>

lemma handshake_grows:
  assumes "handshaking v" "se_phase v = Some WsRunning" "session_next e url t v = Some x" "is_handshake t"
  shows "length (se_written v) \<le> length (se_written x) \<and> length (se_updates x) \<le> length (se_updates v)"
proof -
  from assms(4) consider "t = FsmReceives" | "t = FromStateMachine" | "t = FromWebSocket"
    | ev where "t = WsTurn ev" "\<forall>p. ev \<noteq> Incoming (Inr (Text p))"
    by (auto simp: is_handshake_def split: turn.splits WsEvent.splits)
  then show ?thesis
  proof cases
    case 2
    with assms(3) obtain msg outs where m: "se_outs v = msg # outs"
      "session_report e url msg (v\<lparr>se_outs := outs\<rparr>) = Some x" by (auto split: list.splits)
    from m(2) show ?thesis
      by (rule session_reportE) (use assms(1,2) m(1) in \<open>auto simp: handshaking_def starts_def\<close>)
  next
    case 3
    with assms(3) obtain u updates where u: "se_updates v = u # updates"
      "session_update e u (v\<lparr>se_updates := updates\<rparr>) = Some x" by (auto split: list.splits option.splits)
    obtain ins ready where "se_ins x = ins" "se_ready x = ready" by simp
    with update_frame [OF u(2), of "v\<lparr>se_updates := updates\<rparr>"] u
    have "x = v\<lparr>se_updates := updates, se_ins := ins, se_ready := ready\<rparr>" by simp
    then show ?thesis using u(1) by simp
  next
    case (4 ev)
    with assms(3) have "session_ws e url ev v = Some x" by simp
    then show ?thesis
      by (rule session_wsE) (use assms(1,2) 4(2) in \<open>auto simp: handshaking_def\<close>)
  qed (use assms(3) in \<open>auto split: list.splits\<close>)
qed

lemma handshake_text_commutes:
  assumes "handshaking v" "is_handshake a" "session_next e url a v = Some v1"
    "b = WsTurn (Incoming (Inr (Text (answers ! k))))" "session_next e url b v = Some v2"
    "k < length (se_written v)" "k < length answers"
    "v1 = v2 \<or> (\<exists>z. session_next e url b v1 = Some z \<and> session_next e url a v2 = Some z)"
  shows "\<exists>z. handshake_next e url answers b (v1, k) = Some z \<and>
    handshake_next e url answers a (v2, Suc k) = Some z"
proof -
  from assms(4,5) have v2: "se_phase v = Some WsRunning" "length (se_updates v2) = Suc (length (se_updates v))"
    by (auto split: if_splits)
  note g = handshake_grows [OF assms(1) v2(1) assms(3,2)]
  with v2(2) assms(8) obtain z where "session_next e url b v1 = Some z" "session_next e url a v2 = Some z"
    by fastforce
  with handshake_nextI assms(2,4-7) g show ?thesis by (metis less_le_trans)
qed

lemma handshake_commute:
  assumes "handshaking v"
  shows "commute (handshake_next e url answers) (v, k) a b"
proof (rule commuteI)
  fix x y
  assume a: "handshake_next e url answers a (v, k) = Some x"
    and b: "handshake_next e url answers b (v, k) = Some y" and "x \<noteq> y"
  note kinds = handshake_kind [OF a] handshake_kind [OF b]
  have "p = q" if "a = WsTurn (Incoming (Inr (Text p)))" "b = WsTurn (Incoming (Inr (Text q)))" for p q
    using a b that by (auto split: if_splits simp del: session_next.simps)
  note commute = commute_session [OF assms kinds this, unfolded commute_def]
  let ?text = "WsTurn (Incoming (Inr (Text (answers ! k))))"
  consider (h) v1 where "x = (v1, k)" "session_next e url a v = Some v1" "is_handshake a"
    | (t) v1 where "x = (v1, Suc k)" "session_next e url a v = Some v1" "a = ?text"
      "k < length (se_written v)" "k < length answers"
    using a by (rule handshake_nextE) auto
  note a = this
  consider (h) v2 where "y = (v2, k)" "session_next e url b v = Some v2" "is_handshake b"
    | (t) v2 where "y = (v2, Suc k)" "session_next e url b v = Some v2" "b = ?text"
      "k < length (se_written v)" "k < length answers"
    using b by (rule handshake_nextE) auto
  then show "\<exists>z. handshake_next e url answers b x = Some z \<and> handshake_next e url answers a y = Some z"
  proof cases
    case hb: (h v2)
    from a show ?thesis
    proof cases
      case (h v1)
      with hb commute \<open>x \<noteq> y\<close> handshake_nextI(1) show ?thesis by (metis (no_types))
    next
      case (t v1)
      with hb commute handshake_text_commutes [OF assms hb(3,2) t(3,2,4,5)] show ?thesis by (metis (no_types))
    qed
  next
    case tb: (t v2)
    from a show ?thesis
    proof cases
      case (h v1)
      with tb commute handshake_text_commutes [OF assms h(3,2) tb(3,2,4,5)] show ?thesis by (metis (no_types))
    next
      case (t v1)
      with tb \<open>x \<noteq> y\<close> show ?thesis by simp
    qed
  qed
qed

text \<open>What a turn leaves of a channel it does not read.\<close>

lemma outs_stay:
  assumes "session_next e url t v = Some x" "t \<noteq> FromStateMachine" "handshaking v"
    "t \<in> {FsmReceives, FromWebSocket} \<or> (\<exists>ev. t = WsTurn ev)"
  shows "\<exists>outs. se_outs x = se_outs v @ outs \<and> has_handler x = has_handler v \<and> se_manual x = se_manual v"
proof -
  from assms(4) consider "t = FsmReceives" | "t = FromWebSocket" | ev where "t = WsTurn ev" by blast
  then show ?thesis
  proof cases
    case 2
    with assms(1) obtain u updates where u:
      "session_update e u (v\<lparr>se_updates := updates\<rparr>) = Some x" by (auto split: list.splits option.splits)
    obtain ins ready where "se_ins x = ins" "se_ready x = ready" by simp
    with update_frame [OF u, of "v\<lparr>se_updates := updates\<rparr>"] u
    have "x = v\<lparr>se_updates := updates, se_ins := ins, se_ready := ready\<rparr>" by simp
    then show ?thesis by (simp add: has_handler_def)
  next
    case (3 ev)
    with assms(1) have "session_ws e url ev v = Some x" by simp
    then show ?thesis
      by (rule session_wsE) (use assms(3) in \<open>auto simp: handshaking_def has_handler_def\<close>)
  qed (use assms(1) in \<open>auto simp: has_handler_def split: list.splits\<close>)
qed

lemma updates_stay:
  assumes "session_next e url t v = Some x" "se_phase v = Some phase" "handshaking v"
    "t \<in> {FsmReceives, FromStateMachine} \<or> (\<exists>ev. t = WsTurn ev)"
  shows "\<exists>updates phase'. se_updates x = se_updates v @ updates \<and> se_ready x = se_ready v \<and>
    se_phase x = Some phase' \<and> ((\<nexists>ev. t = WsTurn ev) \<longrightarrow> phase' = phase)"
proof -
  from assms(4) consider "t = FsmReceives" | "t = FromStateMachine" | ev where "t = WsTurn ev" by blast
  then show ?thesis
  proof cases
    case 2
    with assms(1) obtain msg outs where m: "se_outs v = msg # outs"
      "session_report e url msg (v\<lparr>se_outs := outs\<rparr>) = Some x" by (auto split: list.splits)
    from m(2) show ?thesis
      by (rule session_reportE) (use assms(2,3) m(1) 2 in \<open>auto simp: handshaking_def starts_def\<close>)
  next
    case (3 ev)
    with assms(1) have "session_ws e url ev v = Some x" by simp
    then show ?thesis by (rule session_wsE) (use 3 assms(2) in auto)
  qed (use assms(1,2) in \<open>auto split: list.splits\<close>)
qed

lemma phase_stays:
  assumes "session_next e url t v = Some x" "se_phase v = Some phase" "handshaking v"
    "t \<in> {FsmReceives, FromStateMachine, FromWebSocket}"
  shows "se_phase x = Some phase"
proof (cases "t = FromWebSocket")
  case True
  with assms(1) obtain u updates where u:
    "session_update e u (v\<lparr>se_updates := updates\<rparr>) = Some x" by (auto split: list.splits option.splits)
  from update_frame [OF this, of "v\<lparr>se_updates := updates\<rparr>"] u
  have "se_phase x = se_phase (v\<lparr>se_updates := updates\<rparr>\<lparr>se_ins := se_ins x, se_ready := se_ready x\<rparr>)" by simp
  with assms(2) show ?thesis by simp
next
  case False
  with updates_stay [OF assms(1-3)] assms(4) show ?thesis by auto
qed

lemma report_none:
  assumes "session_report e url msg v = None" "has_handler w = has_handler v" "se_manual w = se_manual v"
  shows "session_report e url msg w = None"
  using assms
  by (cases "(e, url, msg, v)" rule: session_report.cases) (auto simp: add_waiting_def split: if_splits)

lemma update_none:
  assumes "session_update e u v = None" "se_ready w = se_ready v"
  shows "session_update e u w = None"
  using assms
  by (cases "(e, u, v)" rule: session_update.cases)
     (auto split: if_splits option.splits LgTvResponse.splits)

text \<open>A turn that is due but not foreseen stays so.\<close>

lemma handshake_blocked:
  assumes "handshaking v" "handshake_due answers a (v, k)" "handshake_next e url answers a (v, k) = None"
  obtains msg outs where "a = FromStateMachine" "se_outs v = msg # outs" "session_report e url msg (v\<lparr>se_outs := outs\<rparr>) = None"
  | phase u updates where "a = FromWebSocket" "se_phase v = Some phase" "se_updates v = u # updates"
      "session_update e u (v\<lparr>se_updates := updates\<rparr>) = None"
  | "a = WsTurn (Resolved Established)" "se_phase v = Some WsConnecting" "\<nexists>u. url_parse e url = Inr u"
proof (cases "(answers, a, (v, k))" rule: handshake_due.cases)
  case (2 answers' w k')
  with assms(2,3) that(1) show ?thesis by (auto simp: neq_Nil_conv is_handshake_def)
next
  case (3 answers' w k')
  with assms(2,3) that(2) show ?thesis by (auto simp: neq_Nil_conv is_handshake_def)
next
  case (5 answers' w k')
  with assms(2,3) that(3) show ?thesis by (auto simp: is_handshake_def split: if_splits)
next
  case (6 answers' now w k')
  with assms show ?thesis by (auto simp: is_handshake_def handshaking_def neq_Nil_conv)
qed (use assms(2,3) in \<open>auto simp: is_handshake_def neq_Nil_conv\<close>)

lemma handshake_stuck:
  assumes "handshaking v" "handshake_due answers a (v, k)" "handshake_next e url answers a (v, k) = None"
    "handshake_next e url answers b (v, k) = Some y"
  shows "handshake_due answers a y \<and> handshake_next e url answers a y = None"
proof -
  from assms(4) obtain v' k' where y: "y = (v', k')" and b: "session_next e url b v = Some v'"
    by (rule handshake_nextE) auto
  have "a \<noteq> b" using assms(3,4) by auto
  note kind = handshake_kind [OF assms(4)]
  from assms(1-3) show ?thesis
  proof (rule handshake_blocked)
    fix msg outs
    assume a: "a = FromStateMachine" "se_outs v = msg # outs"
      "session_report e url msg (v\<lparr>se_outs := outs\<rparr>) = None"
    from outs_stay [OF b _ assms(1)] \<open>a \<noteq> b\<close> kind a(1) obtain new where
      n: "se_outs v' = se_outs v @ new" "has_handler v' = has_handler v" "se_manual v' = se_manual v" by blast
    from report_none [OF a(3), of "v'\<lparr>se_outs := outs @ new\<rparr>"] n a show ?thesis
      by (simp add: y)
  next
    fix phase u updates
    assume a: "a = FromWebSocket" "se_phase v = Some phase" "se_updates v = u # updates"
      "session_update e u (v\<lparr>se_updates := updates\<rparr>) = None"
    from updates_stay [OF b a(2) assms(1)] \<open>a \<noteq> b\<close> kind a(1) obtain new phase' where
      n: "se_updates v' = se_updates v @ new" "se_ready v' = se_ready v" "se_phase v' = Some phase'" by blast
    from update_none [OF a(4), of "v'\<lparr>se_updates := updates @ new\<rparr>"] n a show ?thesis
      by (simp add: y)
  next
    assume a: "a = WsTurn (Resolved Established)" "se_phase v = Some WsConnecting" "\<nexists>u. url_parse e url = Inr u"
    have "se_phase v' = Some WsConnecting"
    proof (cases "\<exists>ev. b = WsTurn ev")
      case True
      then obtain ev where "session_ws e url ev v = Some v'" using b by auto
      then show ?thesis by (rule session_wsE) (use a in auto)
    next
      case False
      with phase_stays [OF b a(2) assms(1)] kind show ?thesis by auto
    qed
    with a show ?thesis by (simp add: y is_handshake_def)
  qed
qed

interpretation handshake: random_descent "handshake_next e url answers" "\<lambda>(v, k). handshaking v"
  "handshake_due answers" for e url answers
proof (unfold_locales, goal_cases)
  case (1 vk a x)
  then show ?case
    by (cases vk) (auto elim!: handshake_nextE intro: handshaking_next)
next
  case (2 vk a b)
  then show ?case by (cases vk) (auto intro: handshake_commute)
next
  case (3 vk a b y)
  then show ?case by (cases vk) (auto dest: handshake_stuck)
qed

end
