(* ===== verification/Manager_Handshake.thy ===== *)
theory Manager_Handshake
  imports Manager_Orders Manager_Talk
begin

text \<open>
  Every course of the handshake, in whatever order the tasks and the TV take their turns, leads to
  a communicating manager.
\<close>

section \<open>One course of the handshake\<close>

text \<open>An answer of the TV that gives its volume.\<close>

definition gives_volume :: "'u ext \<Rightarrow> string \<Rightarrow> bool" where
  "gives_volume e p \<longleftrightarrow> (case response_from_text e p of
       Some (LgTvResponse.Command cr) \<Rightarrow> volume_of (cr_payload cr) \<noteq> None | _ \<Rightarrow> False)"

definition session_initializing :: "string \<Rightarrow> session" where
  "session_initializing url = \<lparr>se_status = Initializing url, se_fsm = Initializing url,
     se_ins = [], se_outs = [], se_calls = [], se_phase = Some WsRunning, se_waiting = [],
     se_updates = [], se_written = replicate 7 (Text []), se_flow = Inactive, se_ready = False,
     se_manual = False\<rparr>"

definition handshake_begins :: "string \<Rightarrow> turn list" where
  "handshake_begins reg =
     [FsmReceives, FromStateMachine, FromStateMachine,
      WsTurn Begin, WsTurn (Resolved Established), FromWebSocket, FromWebSocket,
      FsmReceives, FromStateMachine, FromStateMachine,
      WsTurn (CallerMessage None 0), WsTurn (Incoming (Inr (Text reg))), FromWebSocket,
      FsmReceives, FromStateMachine, FromStateMachine] @
     replicate 6 (WsTurn (CallerMessage None 0))"

lemma begins_course:
  assumes "registers e" "url_parse e url = Inr u" "response_from_text e reg = Some (Registered r)"
  shows "steps (handshake_next e url (reg # ps)) (handshake_begins reg) (session_start url flow, 0) =
    Some (session_initializing url, 1)"
  using assms
  by (simp add: handshake_begins_def steps_Cons session_start_def session_initializing_def numeral_eq_Suc
      fsm_next_def fsm_report_def add_waiting_def has_handler_def is_handshake_def)

definition after_answers :: "'u ext \<Rightarrow> string list \<Rightarrow> session \<Rightarrow> session" where
  "after_answers e ps v = (if \<not> se_ready v \<and> (\<exists>p\<in>set ps. gives_volume e p)
     then v\<lparr>se_ins := se_ins v @ [StartCommunication], se_ready := True\<rparr> else v)"

lemma answer_course:
  assumes "is_answer e p" "se_phase v = Some WsRunning" "se_updates v = []"
    "k < length (se_written v)" "k < length ps" "ps ! k = p"
  shows "steps (handshake_next e url ps) (pass_text p) (v, k) = Some (after_answers e [p] v, Suc k)"
  using assms
  by (cases v)
     (auto simp: pass_text_def steps_Cons is_handshake_def after_answers_def is_answer_def gives_volume_def
       split: option.splits LgTvResponse.splits)

lemma answers_course:
  "\<lbrakk>\<forall>p\<in>set qs. is_answer e p; se_phase v = Some WsRunning; se_updates v = [];
     ps = take k ps @ qs; length ps \<le> length (se_written v); k \<le> length ps\<rbrakk> \<Longrightarrow>
   steps (handshake_next e url ps) (concat (map pass_text qs)) (v, k) =
     Some (after_answers e qs v, length ps)"
proof (induction qs arbitrary: v k)
  case Nil
  then have "length ps \<le> k" by (metis append_Nil2 take_all_iff)
  with Nil show ?case by (simp add: after_answers_def)
next
  case (Cons q qs)
  from Cons.prems(4,6) have k: "k < length ps" "ps ! k = q"
    by (metis append_Nil2 le_neq_implies_less list.distinct(1) self_append_conv take_all_iff le_refl,
        metis length_take min.absorb2 nth_append_length)
  with Cons.prems(4) have "ps = take (Suc k) ps @ qs" by (simp add: take_Suc_conv_app_nth)
  moreover have "after_answers e qs (after_answers e [q] v) = after_answers e (q # qs) v"
    by (simp add: after_answers_def)
  ultimately show ?case
    using Cons.IH [of "after_answers e [q] v" "Suc k"] Cons.prems k
      answer_course [OF _ Cons.prems(2,3), of e q k ps url]
    by (simp add: steps_append after_answers_def)
qed

definition handshake_course :: "string \<Rightarrow> string list \<Rightarrow> turn list" where
  "handshake_course reg ps =
     handshake_begins reg @ concat (map pass_text ps) @ [FsmReceives, FromStateMachine]"

lemma handshake_course_length: "length (handshake_course reg ps) = 24 + 2 * length ps"
  by (induction ps) (simp_all add: handshake_course_def handshake_begins_def pass_text_def)

lemma course_completes:
  assumes "registers e" "url_parse e url = Inr u" "response_from_text e reg = Some (Registered r)"
    "\<forall>p\<in>set ps. is_answer e p" "\<exists>p\<in>set ps. gives_volume e p" "length ps = 6"
  shows "steps (handshake_next e url (reg # ps)) (handshake_course reg ps) (session_start url flow, 0) =
    Some (session_communicating url, 7)"
proof -
  let ?v = "after_answers e ps (session_initializing url)"
  have "steps (handshake_next e url (reg # ps)) (concat (map pass_text ps)) (session_initializing url, 1) =
      Some (?v, 7)"
    using answers_course [OF assms(4), of "session_initializing url" "reg # ps" 1 url] assms(6)
    by (simp add: session_initializing_def)
  moreover have "steps (handshake_next e url (reg # ps)) [FsmReceives, FromStateMachine] (?v, 7) =
      Some (session_communicating url, 7)"
    using assms(5)
    by (simp add: steps_Cons after_answers_def session_initializing_def session_communicating_def
        fsm_next_def fsm_report_def is_handshake_def)
  ultimately show ?thesis
    unfolding handshake_course_def steps_append begins_course [OF assms(1-3)] by simp
qed

section \<open>Every course of the handshake\<close>

text \<open>
  A turn of the program that is part of the handshake: a task takes what waits in its channel, the
  handler goes on, or the TV sends its next text.
\<close>

fun handshake_ready :: "string list \<Rightarrow> nat \<Rightarrow> turn \<Rightarrow> Run \<Rightarrow> bool" where
  "handshake_ready ps k FsmReceives s \<longleftrightarrow> queue (fsm_rx (run_fsm s)) \<noteq> []"
| "handshake_ready ps k FromStateMachine s \<longleftrightarrow> queue (fsm_tx (run_fsm s)) \<noteq> []"
| "handshake_ready ps k FromWebSocket s \<longleftrightarrow> ws_join_handle (run_manager s) \<noteq> None \<and>
     (\<exists>c. from_ws_rx (run_manager s) = Some c \<and> queue c \<noteq> [])"
| "handshake_ready ps k (WsTurn ev) s \<longleftrightarrow> (case ws_join_handle (run_manager s) of
       None \<Rightarrow> False
     | Some t \<Rightarrow> (case ev of
           Begin \<Rightarrow> wt_phase t = WsSpawned
         | Resolved Established \<Rightarrow> wt_phase t = WsConnecting
         | CallerMessage None _ \<Rightarrow> wt_phase t = WsRunning \<and>
             (\<exists>c. to_ws_tx (run_manager s) = Some c \<and> queue c \<noteq> [])
         | Incoming (Inr (Text p)) \<Rightarrow> wt_phase t = WsRunning \<and> k < length (wt_written t) \<and>
             k < length ps \<and> p = ps ! k
         | _ \<Rightarrow> False))"
| "handshake_ready ps k _ s \<longleftrightarrow> False"

definition handshake_step :: "'u ext \<Rightarrow> string list \<Rightarrow> turn \<Rightarrow> Run \<times> nat \<Rightarrow> (Run \<times> nat) option" where
  "handshake_step e ps t sk = (case sk of (s, k) \<Rightarrow>
     if handshake_ready ps k t s
     then map_option (\<lambda>s. (s, if is_handshake t then k else Suc k)) (run_turn e consume_doc t s)
     else None)"

definition shows_handshake :: "Connection \<Rightarrow> string \<Rightarrow> Run \<times> nat \<Rightarrow> session \<times> nat \<Rightarrow> bool" where
  "shows_handshake connection url sk vk \<longleftrightarrow> snd sk = snd vk \<and> shows_session connection url (fst sk) (fst vk) \<and>
     (se_phase (fst vk) = None \<longrightarrow> ws_join_handle (run_manager (fst sk)) = None)"

lemma handler_atD:
  assumes "handler_at m url phase waiting updates sent"
  obtains t c where "ws_join_handle m = Some t" "wt_phase t = phase" "length (wt_written t) = length sent"
    "to_ws_tx m = Some c" "queue c \<noteq> [] \<longleftrightarrow> waiting \<noteq> []"
    "from_ws_rx m = Some \<lparr>queue = updates, rx_open = True\<rparr>"
  using assms by (auto simp: handler_at_def)

lemma ready_due:
  assumes "shows_handshake connection url (s, k) (v, k)"
  shows "handshake_ready ps k t s \<longleftrightarrow> handshake_due ps t (v, k)"
proof -
  have queues: "queue (fsm_rx (run_fsm s)) = se_ins v" "queue (fsm_tx (run_fsm s)) = se_outs v"
    using assms by (auto simp: shows_handshake_def session_defs)
  show ?thesis
  proof (cases "se_phase v")
    case None
    with assms have "ws_join_handle (run_manager s) = None" by (simp add: shows_handshake_def)
    with None queues show ?thesis
      by (cases "(ps, t, (v, k))" rule: handshake_due.cases) simp_all
  next
    case (Some phase)
    with assms have "handler_at (run_manager s) url phase (se_waiting v) (se_updates v) (se_written v)"
      by (simp add: shows_handshake_def shows_session_def)
    then obtain w c where h: "ws_join_handle (run_manager s) = Some w" "wt_phase w = phase"
      "length (wt_written w) = length (se_written v)" "to_ws_tx (run_manager s) = Some c"
      "queue c \<noteq> [] \<longleftrightarrow> se_waiting v \<noteq> []"
      "from_ws_rx (run_manager s) = Some \<lparr>queue = se_updates v, rx_open = True\<rparr>"
      by (rule handler_atD)
    from Some queues h show ?thesis
      by (cases "(ps, t, (v, k))" rule: handshake_due.cases) simp_all
  qed
qed

lemma next_due: "handshake_next e url ps t vk = Some vk' \<Longrightarrow> handshake_due ps t vk"
  by (erule handshake_nextE; cases "(ps, t, vk)" rule: handshake_due.cases)
     (auto simp: is_handshake_def split: if_splits list.splits option.splits)

text \<open>Before the handler is started no turn of the handshake starts one but the machine's output.\<close>

lemma join_none:
  assumes "session_next e url t v = Some v'" "shows_session connection url s v" "se_phase v' = None"
    "run_turn e consume_doc t s = Some s'" "ws_join_handle (run_manager s) = None"
    "t \<in> {FsmReceives, FromStateMachine, FromWebSocket} \<or> (\<exists>ev. t = WsTurn ev)"
  shows "ws_join_handle (run_manager s') = None"
proof -
  from assms(6) consider "t = FsmReceives" | "t = FromStateMachine" | "t = FromWebSocket" | ev where "t = WsTurn ev"
    by blast
  then show ?thesis
  proof cases
    case 1
    with assms(4,5) show ?thesis by (auto simp: fsm_task_turn_def Let_def split: if_splits)
  next
    case 2
    with assms(1) obtain msg outs where m: "se_outs v = msg # outs"
      "session_report e url msg (v\<lparr>se_outs := outs\<rparr>) = Some v'" by (auto split: list.splits)
    from m(2) obtain x where "msg = StateMachineUpdateMessage.State x"
      by (rule session_reportE) (use assms(3) in \<open>auto simp: has_handler_def\<close>)
    with 2 m(1) assms(2,4,5) show ?thesis
      by (auto simp: session_defs chan_recv_def manager_step_def Let_def set_manager_status_eq)
  next
    case 3
    with assms(1) obtain phase u updates where u: "se_phase v = Some phase"
      "session_update e u (v\<lparr>se_updates := updates\<rparr>) = Some v'" by (auto split: list.splits option.splits)
    then have "\<exists>m phase waiting updates. handler_at (run_manager s) url phase waiting updates m"
      using assms(2) by (auto simp: shows_session_def)
    with assms(5) show ?thesis by (auto simp: handler_at_def)
  next
    case (4 ev)
    with assms(1) have "session_ws e url ev v = Some v'" by simp
    then show ?thesis by (rule session_wsE) (use assms(3) in auto)
  qed
qed

lemma handshake_refined:
  assumes "handshake_next e url ps t vk = Some vk'" "shows_handshake connection url sk vk"
    "handshaking (fst vk)"
  shows "\<exists>sk'. handshake_step e ps t sk = Some sk' \<and> shows_handshake connection url sk' vk'"
proof -
  obtain s k where sk: "sk = (s, k)" by fastforce
  obtain v where vk: "vk = (v, k)" using assms(2) sk by (cases vk) (auto simp: shows_handshake_def)
  note kind = handshake_kind [OF assms(1)]
  from assms(1) obtain v' where v': "session_next e url t v = Some v'"
    "vk' = (v', if is_handshake t then k else Suc k)"
    unfolding vk by (rule handshake_nextE) (auto simp: is_handshake_def)
  from session_refined [OF v'(1), of connection s] assms(2) sk vk obtain s' where
    s': "run_turn e consume_doc t s = Some s'" "shows_session connection url s' v'"
    by (auto simp: shows_handshake_def)
  have ready: "handshake_ready ps k t s"
    using ready_due [of connection url s k v] next_due [OF assms(1)] assms(2) by (simp add: sk vk)
  have "se_phase v = None" if "se_phase v' = None"
  proof (cases "\<exists>ev. t = WsTurn ev")
    case True
    then obtain ev where "session_ws e url ev v = Some v'" using v'(1) by auto
    then show ?thesis by (rule session_wsE) (use that in auto)
  next
    case False
    then show ?thesis
      using kind that phase_stays [OF v'(1)] assms(3) by (cases "se_phase v") (auto simp: vk)
  qed
  with join_none [OF v'(1) _ _ s'(1)] kind assms(2) s'(2) show ?thesis
    by (auto simp: sk vk v'(2) handshake_step_def shows_handshake_def ready s'(1))
qed

lemma course_refined:
  "\<lbrakk>steps (handshake_next e url ps) ts vk = Some vk'; shows_handshake connection url sk vk;
     handshaking (fst vk)\<rbrakk> \<Longrightarrow>
    \<exists>sk'. steps (handshake_step e ps) ts sk = Some sk' \<and> shows_handshake connection url sk' vk'"
proof (induction ts arbitrary: vk sk)
  case Nil
  then show ?case by auto
next
  case (Cons t ts)
  then obtain w where w: "handshake_next e url ps t vk = Some w" "steps (handshake_next e url ps) ts w = Some vk'"
    by (auto simp: steps_Cons)
  from handshake_refined [OF w(1) Cons.prems(2,3)] obtain sk1 where
    1: "handshake_step e ps t sk = Some sk1" "shows_handshake connection url sk1 w" by blast
  have "handshaking (fst w)"
    using handshake.kept [of vk e url ps t w] w(1) Cons.prems(3) by (auto simp: case_prod_beta)
  from Cons.IH [OF w(2) 1(2) this] 1(1) show ?case by (auto simp: steps_Cons)
qed

text \<open>On the way to an end where nothing is due, the program takes no turn but those foreseen.\<close>

lemma course_followed:
  assumes "steps (handshake_next e url ps) us vk = Some w" "\<And>t. \<not> handshake_due ps t w"
  shows "\<lbrakk>steps (handshake_step e ps) ts sk = Some sk'; shows_handshake connection url sk vk;
      handshaking (fst vk)\<rbrakk> \<Longrightarrow>
    \<exists>vk'. steps (handshake_next e url ps) ts vk = Some vk' \<and> shows_handshake connection url sk' vk'"
  using assms(1)
proof (induction ts arbitrary: vk sk us)
  case Nil
  then show ?case by auto
next
  case (Cons t ts)
  have keeps: "(\<lambda>(v, k). handshaking v) vk" using Cons.prems(3) by (simp add: case_prod_beta)
  have final: "handshake_next e url ps t w = None" for t
    using assms(2) next_due [of e url ps t w] by (cases "handshake_next e url ps t w") auto
  from Cons.prems(1) obtain sk1 where s: "handshake_step e ps t sk = Some sk1"
    "steps (handshake_step e ps) ts sk1 = Some sk'" by (auto simp: steps_Cons)
  obtain s v k where k: "sk = (s, k)" "vk = (v, k)"
    using Cons.prems(2) by (cases sk; cases vk) (simp add: shows_handshake_def)
  then have "handshake_due ps t vk"
    using s(1) ready_due [of connection url s k v ps t] Cons.prems(2)
    by (simp add: handshake_step_def split: if_splits)
  from handshake.not_stuck [OF keeps Cons.prems(4) assms(2) this] obtain v1 where
    v: "handshake_next e url ps t vk = Some v1" by blast
  from handshake_refined [OF v Cons.prems(2,3)] s(1) have "shows_handshake connection url sk1 v1" by auto
  moreover from handshake.strip [OF keeps v Cons.prems(4) final] obtain us'
    where "steps (handshake_next e url ps) us' v1 = Some w" by blast
  moreover have "handshaking (fst v1)"
    using handshake.kept [OF keeps v] by (simp add: case_prod_beta)
  ultimately show ?case using Cons.IH [OF s(2)] v by (auto simp: steps_Cons)
qed

lemma communicating_idle: "\<not> handshake_due ps t (session_communicating url, length ps)"
  by (cases "(ps, t, (session_communicating url, length ps))" rule: handshake_due.cases)
     (simp_all add: session_communicating_def)

text \<open>C4: The handshake in any order. From every idle manager that is told to connect, with a TV that
  registers the client and answers the six initial requests, its volume among the answers, the
  tasks and the TV may take their turns in any order: whatever they have done, they can go on to a
  communicating manager, and after 36 turns, neither more nor less, they are there. So the
  handshake cannot get stuck, loop, or end anywhere else.\<close>

theorem handshake_in_any_order:
  assumes "idle s" "websocket_url_for_connection e connection = Inr url"
    and "registers e" "url_parse e url = Inr u"
    and "response_from_text e reg = Some (Registered r)"
    and "length ps = 6" "\<forall>p\<in>set ps. is_answer e p" "\<exists>p\<in>set ps. gives_volume e p"
  shows "\<exists>s0. run_turns e consume_doc [CallerSends (ManagerMessage.Connect connection), FromCaller] s = Some s0 \<and>
    (\<forall>ts s1 k. steps (handshake_step e (reg # ps)) ts (s0, 0) = Some (s1, k) \<longrightarrow>
      length ts \<le> 36 \<and>
      (\<exists>us s2. steps (handshake_step e (reg # ps)) us (s1, k) = Some (s2, 7) \<and>
         length ts + length us = 36 \<and> shows_session connection url s2 (session_communicating url)) \<and>
      ((\<forall>t. \<not> handshake_ready (reg # ps) k t s1) \<longleftrightarrow> length ts = 36))"
proof -
  from start_session [OF assms(1,2)] obtain s0 where
    0: "run_turns e consume_doc [CallerSends (ManagerMessage.Connect connection), FromCaller] s = Some s0"
    "shows_session connection url s0 (session_start url (initial_flow connection))"
    "ws_join_handle (run_manager s0) = None" by blast
  let ?v = "(session_start url (initial_flow connection), 0)" and ?w = "(session_communicating url, 7)"
  let ?next = "handshake_next e url (reg # ps)" and ?step = "handshake_step e (reg # ps)"
  have keeps: "handshaking (session_start url (initial_flow connection))"
    by (simp add: handshake_defs session_start_def)
  have start: "shows_handshake connection url (s0, 0) ?v" using 0 by (simp add: shows_handshake_def)
  note course = course_completes [OF assms(3-5,7,8,6), of "initial_flow connection"]
  have quiet: "\<not> handshake_due (reg # ps) t ?w" for t
    using communicating_idle [of "reg # ps" t url] assms(6) by simp
  then have final: "?next t ?w = None" for t
    using next_due [of e url "reg # ps" t ?w] by (cases "?next t ?w") auto
  have "length ts \<le> 36 \<and> (\<exists>us s2. steps ?step us (s1, k) = Some (s2, 7) \<and> length ts + length us = 36 \<and>
      shows_session connection url s2 (session_communicating url)) \<and>
      ((\<forall>t. \<not> handshake_ready (reg # ps) k t s1) \<longleftrightarrow> length ts = 36)"
    if ts: "steps ?step ts (s0, 0) = Some (s1, k)" for ts s1 k
  proof -
    from course_followed [OF course quiet ts start] keeps obtain v1 where
      v1: "steps ?next ts ?v = Some (v1, k)" "shows_handshake connection url (s1, k) (v1, k)"
      by (auto simp: shows_handshake_def)
    from handshake.descent [OF _ course final v1(1)] keeps handshake_course_length [of reg ps] assms(6)
    obtain us where us: "steps ?next us (v1, k) = Some ?w" "length ts + length us = 36" by auto
    have keeps1: "handshaking v1" using handshake.steps_kept [OF _ v1(1)] keeps by simp
    from course_refined [OF us(1) v1(2)] keeps1 obtain s2 where
      s2: "steps ?step us (s1, k) = Some (s2, 7)" "shows_session connection url s2 (session_communicating url)"
      by (auto simp: shows_handshake_def)
    have "(\<forall>t. \<not> handshake_ready (reg # ps) k t s1) \<longleftrightarrow> us = []"
      using us(1) quiet ready_due [OF v1(2)] by (cases us) (auto simp: steps_Cons dest!: next_due)
    with s2 us(2) show ?thesis by auto
  qed
  with 0(1) show ?thesis by blast
qed

text \<open>The manager just created, and a TV that says its volume six times.\<close>

theorem handshake_in_any_order_witness:
  "\<exists>s0 us s2. run_turns demo_session consume_doc
      [CallerSends (ManagerMessage.Connect (demo_connection True True)), FromCaller] demo_start = Some s0 \<and>
    steps (handshake_step demo_session (''reg'' # replicate 6 ''vol'')) us (s0, 0) = Some (s2, 7) \<and>
    length us = 36 \<and> manager_status (run_manager s2) = Communicating ''wss://tv:3001/''"
proof -
  obtain c where c: "response_from_text demo_session ''vol'' = Some (LgTvResponse.Command c)"
    "volume_of (cr_payload c) \<noteq> None" by (rule demo_session_volume)
  then have "is_answer demo_session ''vol''" "gives_volume demo_session ''vol''"
    by (auto simp: is_answer_def gives_volume_def is_pair_def split: LgTvResponsePayload.splits)
  then have "\<forall>p\<in>set (replicate 6 ''vol''). is_answer demo_session p"
    "\<exists>p\<in>set (replicate 6 ''vol''). gives_volume demo_session p" by simp_all
  from handshake_in_any_order [OF initial_idle [of demo_session "Inr ()" demo_disk] demo_session_url
      demo_session_registers demo_session_parse demo_session_texts(1) length_replicate this]
  show ?thesis
    by (elim exE conjE allE [of _ "[]"]) (fastforce simp: session_defs session_communicating_def)
qed

end
