(* ===== verification/Manager_Counters.thy ===== *)
theory Manager_Counters
  imports Manager_Wellformed
begin

text \<open>
  The counters of the manager, which are 64 bits wide: no turn adds more than one to either, so a
  run has to take some \<open>2\<^sup>64\<close> turns before one of them could overflow.
\<close>

definition counted :: "nat \<Rightarrow> Manager \<Rightarrow> bool" where
  "counted n m \<longleftrightarrow> unat (reconnect_attempts m) \<le> n \<and> unat (session_connection_count m) \<le> n"

named_theorems counted_steps

lemma counted_frame:
  assumes "counted n m" "reconnect_attempts m' = reconnect_attempts m \<or> reconnect_attempts m' = 0"
    "session_connection_count m' = session_connection_count m \<or> session_connection_count m' = 0"
  shows "counted n m'"
  using assms by (auto simp: counted_def)

lemma counted_Suc: "counted n m \<Longrightarrow> counted (Suc n) m"
  by (simp add: counted_def)

lemma unat_Suc_le: "unat (x + 1 :: u64) \<le> Suc (unat x)"
  by (simp add: unat_word_ariths)

section \<open>What leaves the counters or clears them\<close>

lemma counted_updates [simp]:
  "counted n (m\<lparr>connection_details := cd\<rparr>) = counted n m" "counted n (m\<lparr>command_rx := rc\<rparr>) = counted n m"
  "counted n (m\<lparr>output_tx := ot\<rparr>) = counted n m" "counted n (m\<lparr>to_fsm_tx := ft\<rparr>) = counted n m"
  "counted n (m\<lparr>to_ws_tx := wt\<rparr>) = counted n m" "counted n (m\<lparr>from_ws_rx := wr\<rparr>) = counted n m"
  "counted n (m\<lparr>ws_join_handle := wj\<rparr>) = counted n m" "counted n (m\<lparr>ws_url := u\<rparr>) = counted n m"
  "counted n (m\<lparr>client_key := k\<rparr>) = counted n m" "counted n (m\<lparr>mac_addr := ma\<rparr>) = counted n m"
  "counted n (m\<lparr>disk := d\<rparr>) = counted n m" "counted n (m\<lparr>uuid_count := i\<rparr>) = counted n m"
  "counted n (m\<lparr>wait_count := i\<rparr>) = counted n m" "counted n (m\<lparr>is_pairing := b\<rparr>) = counted n m"
  "counted n (m\<lparr>is_manual_disconnect_requested := b\<rparr>) = counted n m"
  "counted n (m\<lparr>is_connection_initialized := b\<rparr>) = counted n m"
  "counted n (m\<lparr>last_good_connection := lg\<rparr>) = counted n m"
  "counted n (m\<lparr>tv_info := ti\<rparr>) = counted n m" "counted n (m\<lparr>tv_inputs := tn\<rparr>) = counted n m"
  "counted n (m\<lparr>tv_software_info := tsi\<rparr>) = counted n m" "counted n (m\<lparr>tv_state := ts\<rparr>) = counted n m"
  "counted n (m\<lparr>tv_host_ip := ip\<rparr>) = counted n m" "counted n (m\<lparr>tv_host_ip_notifier := b\<rparr>) = counted n m"
  "counted n (m\<lparr>tv_on_network_checker := nc\<rparr>) = counted n m"
  "counted n (m\<lparr>is_tv_on_network := fl\<rparr>) = counted n m"
  "counted n (m\<lparr>is_testing_tv_on_network := fl\<rparr>) = counted n m"
  "counted n (m\<lparr>discovery_tasks := i\<rparr>) = counted n m" "counted n (m\<lparr>discovery_searching := i\<rparr>) = counted n m"
  "counted n (m\<lparr>discovery_ending := i\<rparr>) = counted n m"
  by (simp_all add: counted_def)

lemma counted_fields [simp]:
  "counted n (send_out x m) = counted n m" "counted n (send_to_fsm i m) = counted n m"
  "counted n (set_manager_status st m) = counted n m" "counted n (attempt_fsm_error err m) = counted n m"
  "counted n (check_network m) = counted n m" "counted n (shut_down_ws m) = counted n m"
  "counted n (await_ws_handler e m) = counted n m"
  "counted n (import_persisted_state e m) = counted n m"
  "counted n (start_websocket_handler_and_connect host m) = counted n m"
  by (simp_all add: counted_def send_to_fsm_def enter_zombie_state_def set_manager_status_eq attempt_fsm_error_def
      check_network_def shut_down_ws_eq import_persisted_state_eq start_websocket_handler_and_connect_def Let_def
      split: option.split sum.split)

lemma counted_flow [counted_steps]: "counted n m \<Longrightarrow> counted n (set_reconnect_flow_status r m)"
  by (erule counted_frame) (simp_all add: set_reconnect_flow_status_eq)

lemma counted_prepare [counted_steps]: "counted n m \<Longrightarrow> counted n (optionally_prepare_for_reconnect m)"
  by (simp add: optionally_prepare_for_reconnect_def counted_steps)

lemma counted_cleared: "counted n m \<Longrightarrow> counted n (cleared m)"
  by (erule counted_frame) (simp_all add: cleared_def Let_def)

lemma counted_initialize [counted_steps]: "counted n m \<Longrightarrow> counted n (initialize_manager_state e m)"
  by (simp add: initialize_manager_state_eq Let_def counted_cleared)

lemma counted_reset [counted_steps]: "counted n m \<Longrightarrow> counted n (force_manager_reset e reason m)"
  by (simp add: force_manager_reset_def Let_def emit_manager_status_def counted_steps)

lemma counted_to_ws [counted_steps]: "counted n m \<Longrightarrow> counted n (send_to_ws e msg m)"
  by (auto simp: send_to_ws_def counted_steps split: option.split sum.split)

lemma counted_command [counted_steps]: "counted n m \<Longrightarrow> counted n (send_command e c m)"
  by (simp add: send_command_def generate_lgtv_message_id_def counted_steps)

lemma counted_initialize_connection [counted_steps]: "counted n m \<Longrightarrow> counted n (initialize_connection e m)"
  by (simp add: initialize_connection_def Let_def counted_steps split: option.split)

lemma counted_register_ip [counted_steps]: "counted n m \<Longrightarrow> counted n (register_tv_ip e url m)"
  by (simp add: register_tv_ip_def split: option.split)

lemma counted_connect [counted_steps]: "counted n m \<Longrightarrow> counted n (snd (initiate_connect_to_tv e connection m))"
  by (auto simp: initiate_connect_to_tv_def Let_def intro!: counted_steps split: option.split sum.split)

lemma counted_connect_reported [counted_steps]:
  "counted n m \<Longrightarrow> counted n (report_connect_error (initiate_connect_to_tv e connection m))"
  using counted_connect [of n m e connection]
  by (auto simp: report_connect_error_def split: prod.split sum.split)

lemma counted_register [counted_steps]: "counted n m \<Longrightarrow> counted n (send_register_payload e m)"
  by (auto simp: send_register_payload_def Let_def intro: counted_steps split: prod.split sum.split)

lemma counted_wait [simp]: "counted n (wait_to_reconnect e url m) = counted n m"
proof -
  have "counted n (fold (wait_feedback d url) clocks m') = counted n m'" for d clocks m'
    by (induction clocks arbitrary: m') (simp_all add: wait_feedback_def split: option.split)
  then show ?thesis by (simp add: wait_to_reconnect_def Let_def)
qed

lemma counted_disconnect_tv [counted_steps]: "counted n m \<Longrightarrow> counted n (initiate_disconnect_from_tv e m)"
  by (simp add: initiate_disconnect_from_tv_def counted_steps)

lemma counted_complete [counted_steps]: "counted n m \<Longrightarrow> counted n (complete_initialization e m)"
  by (simp add: complete_initialization_def Let_def set_host_ip_from_ws_url_def split: option.split)

lemma counted_payload [counted_steps]: "counted n m \<Longrightarrow> counted n (handle_payload e p m)"
  by (cases p) (simp_all add: manager_defs handle_pair_def set_volume_state_def counted_steps)

lemma counted_persist [counted_steps]: "counted n m \<Longrightarrow> counted n (manager_write_persisted_state e m)"
  by (simp add: manager_write_persisted_state_def manager_defs split: prod.split sum.split)

lemma counted_response [counted_steps]: "counted n m \<Longrightarrow> counted n (snd (handle_lgtv_response e r m))"
  by (simp add: handle_lgtv_response_def Let_def counted_steps split: LgTvResponse.split)

section \<open>What adds to them\<close>

lemma counted_reconnect: "counted n m \<Longrightarrow> counted (Suc n) (initiate_reconnect e immediate m)"
proof -
  assume m: "counted n m"
  have add: "counted (Suc n) (m'\<lparr>reconnect_attempts := reconnect_attempts m' + 1\<rparr>)" if "counted n m'" for m'
    using that unat_Suc_le [of "reconnect_attempts m'"] by (auto simp: counted_def)
  from m show ?thesis
    unfolding initiate_reconnect_def Let_def
    by (auto intro!: counted_connect_reported add counted_steps intro: counted_Suc split: option.split)
qed

lemma counted_session: "counted n m \<Longrightarrow>
    counted (Suc n) (m\<lparr>session_connection_count := session_connection_count m + 1\<rparr>)"
  using unat_Suc_le [of "session_connection_count m"] by (auto simp: counted_def)

lemma counted_disconnected: "counted n m \<Longrightarrow> counted (Suc n) (handle_disconnected e m)"
  by (auto simp: handle_disconnected_def Let_def intro!: counted_steps counted_reconnect intro: counted_Suc)

lemma counted_connect_error: "counted n m \<Longrightarrow> counted (Suc n) (handle_connect_error e m)"
  by (auto simp: handle_connect_error_def Let_def intro!: counted_steps counted_reconnect intro: counted_Suc
      split: ReconnectFlowStatus.split)

lemma counted_output: "counted n m \<Longrightarrow> counted (Suc n) (handle_output e x m)"
  by (cases x) (simp_all add: Let_def counted_steps counted_Suc counted_session counted_disconnected
      counted_connect_error)

lemma counted_update: "counted n m \<Longrightarrow> counted (Suc n) (handle_state_machine_update e msg m)"
  by (cases msg) (simp_all add: counted_output counted_Suc)

lemma counted_cancel [counted_steps]: "counted n m \<Longrightarrow> counted n (cancel_reconnect e m)"
  by (simp add: cancel_reconnect_def Let_def counted_steps)

lemma counted_message: "counted n m \<Longrightarrow> counted n (handle_manager_message e msg m)"
  by (cases msg)
     (auto simp: discover_def wake_last_seen_tv_def emit_manager_status_def emit_all_tv_details_eq
       intro: counted_steps split: option.split)

lemma counted_ws_message: "counted n m \<Longrightarrow> counted n (handle_ws_message e msg m)"
proof (cases msg)
  case (Status s)
  then show "counted n m \<Longrightarrow> ?thesis" by (cases s) (simp_all add: connection_lost_def counted_steps)
qed (simp_all add: counted_steps Let_def split: option.split)

lemma counted_on_network: "counted n m \<Longrightarrow> counted (Suc n) (fst (handle_on_network_notify e was m))"
proof -
  assume m: "counted n m"
  define m1 where "m1 = emit_is_wake_tv_available (send_out
    (TvOnNetworkTestStatus (if load_is_tv_on_network m then Passed else Failed)) m)"
  define m2 where "m2 = (if was \<and> \<not> load_is_tv_on_network m then tv_gone_offline m1 else m1)"
  from m have "counted n m1" by (simp add: m1_def manager_defs)
  then have "counted n m2" by (simp add: m2_def tv_gone_offline_def counted_steps)
  then show ?thesis
    unfolding handle_on_network_notify_def Let_def fst_conv m1_def [symmetric] m2_def [symmetric]
    by (simp add: counted_reconnect counted_Suc)
qed

section \<open>Every run\<close>

interpretation counters: manager_leads e "counted n" "counted (Suc n)" for e n
  by unfold_locales
    (auto simp: discovery_begins_def discovery_reports_def discovery_ends_def Let_def handle_testing_notify_def
      ws_turn_def counted_update counted_on_network
      intro!: counted_Suc counted_message counted_ws_message counted_disconnect_tv
      split: sum.split option.split)

lemma counted_turn:
  assumes "counted n (run_manager s)" "run_turn e consume t s = Some s'"
  shows "counted (Suc n) (run_manager s')"
proof (rule counters.turn_leads [OF assms])
  assume "t = CallerReceives \<or> t = CallerCloses"
  with assms show "counted (Suc n) (run_manager s')"
    by (auto simp: counted_Suc manager_step_def Let_def split: option.splits)
qed

lemma counted_start: "counted 0 (run_manager (run_initial e client (manager_new e d rx)))"
proof -
  have "counted 0 (manager_new e d rx)"
    unfolding manager_new_def counted_fields by (simp add: counted_def)
  then show ?thesis
    by (simp add: run_initial_def run_start_def Let_def emit_manager_status_def start_network_checker_def
        set_host_ip_from_ws_url_def counted_steps split: sum.split option.split)
qed

lemma counted_run:
  "run_turns e consume ts s = Some s' \<Longrightarrow> counted n (run_manager s) \<Longrightarrow>
    counted (n + length ts) (run_manager s')"
proof (induction ts arbitrary: s n)
  case (Cons t ts)
  then obtain s1 where s1: "run_turn e consume t s = Some s1" "run_turns e consume ts s1 = Some s'"
    by (cases "run_turn e consume t s") auto
  from Cons.IH [OF s1(2) counted_turn [OF Cons.prems(2) s1(1)]] show ?case by simp
qed simp

text \<open>C16: The counters do not overflow. After any run from the start, whatever happened in it, the
  reconnect attempts and the connections of the session are at most as many as the turns taken; so
  for less than \<open>2 ^ 64 - 7\<close> turns both can be counted up again without overflow, and the delay
  before the next reconnect is computed from the true number of attempts, without overflow either:
  none of the checked additions of a debug build panics.\<close>

theorem counters_do_not_overflow:
  assumes "run_turns e consume ts (run_initial e client (manager_new e d rx)) = Some s"
    and "length ts + 7 < 2 ^ 64"
  shows "let m = run_manager s; n = length ts in
    unat (reconnect_attempts m) \<le> n \<and> unat (session_connection_count m) \<le> n \<and>
    unat (reconnect_attempts m + 1) = unat (reconnect_attempts m) + 1 \<and>
    unat (session_connection_count m + 1) = unat (session_connection_count m) + 1 \<and>
    reconnect_falloff (reconnect_attempts m) 250 10000 = max (min (2 ^ (unat (reconnect_attempts m) + 6)) 10000) 250"
proof -
  have le: "unat (reconnect_attempts (run_manager s)) \<le> length ts"
    "unat (session_connection_count (run_manager s)) \<le> length ts"
    using counted_run [OF assms(1) counted_start] by (simp_all add: counted_def)
  have add: "unat (x + k) = unat x + unat k" if "unat x \<le> length ts" "unat k \<le> 7" for x k :: u64
  proof -
    have "unat x + unat k < 2 ^ LENGTH(64)" using that assms(2) by simp
    then show ?thesis by (simp add: unat_word_ariths)
  qed
  have "reconnect_falloff (reconnect_attempts (run_manager s)) 250 10000 =
      max (min (2 ^ (unat (reconnect_attempts (run_manager s)) + 6)) 10000) 250"
    using reconnect_falloff_eq [of 10000 250 "reconnect_attempts (run_manager s)"] add [OF le(1), of 6] by simp
  with le add [OF le(1), of 1] add [OF le(2), of 1] show ?thesis by simp
qed

theorem counters_do_not_overflow_witness:
  "let m = run_manager (run_initial demo_ext (Inr ()) (manager_new demo_ext demo_disk new_chan)) in
    unat (reconnect_attempts m + 1) = unat (reconnect_attempts m) + 1 \<and> unat (session_connection_count m) \<le> 0"
  using counters_do_not_overflow [of demo_ext consume_doc "[]" "Inr ()" demo_disk new_chan]
  by (simp add: Let_def)

end
