(* ===== verification/Register_Payload.thy ===== *)
theory Register_Payload
  imports Manager_Properties
begin

text \<open>
  \<open>src/resources/register_payload.json\<close>, which \<open>src/src/helpers.rs\<close> includes as
  \<open>REGISTER_PAYLOAD\<close>, and the registration that goes out to the TV. The value is the one the text
  of the file denotes: the members of every object by their keys, as \<open>serde_json::Value\<close> keeps
  them, and the strings by their UTF-8 bytes.
\<close>

section \<open>The bundled payload\<close>

definition REGISTER_SIGNATURE :: string where
  "REGISTER_SIGNATURE =
     ''eyJhbGdvcml0aG0iOiJSU0EtU0hBMjU2Iiwia2V5SWQiOiJ0ZXN0LXNpZ25pbmctY2VydCIsInNpZ25hdHVyZVZl'' @
     ''cnNpb24iOjF9.hrVRgjCwXVvE2OOSpDZ58hR+59aFNwYDyjQgKk3auukd7pcegmE2CzPCa0bJ0ZsRAcKkCTJrWo5'' @
     ''iDzNhMBWRyaMOv5zWSrthlf7G128qvIlpMT0YNY+n/FaOHE73uLrS/g7swl3/qH/BGFG2Hu4RlL48eb3lLKqTt2x'' @
     ''KHdCs6Cd4RMfJPYnzgvI4BNrFUKsjkcu+WD4OO2A27Pq1n50cMchmcaXadJhGrOqH5YmHdOCj5NSHzJYrsW0HPlp'' @
     ''uAx/ECMeIZYDh6RMqaFM2DXzdKX9NmmyqzJ3o/0lkk/N97gfVRLW5hA29yeAwaCViZNCP8iC9aO0q9fQojoa7NQn'' @
     ''Atw==''"

definition REGISTER_MANIFEST :: json where
  "REGISTER_MANIFEST =
     JObj [
       (''appVersion'', JStr ''1.1''),
       (''manifestVersion'', JInt 1),
       (''permissions'', JArr [
         JStr ''LAUNCH'',
         JStr ''CONTROL_AUDIO'',
         JStr ''CONTROL_DISPLAY'',
         JStr ''CONTROL_INPUT_MEDIA_PLAYBACK'',
         JStr ''CONTROL_INPUT_TV'',
         JStr ''CONTROL_POWER'',
         JStr ''READ_APP_STATUS'',
         JStr ''READ_INPUT_DEVICE_LIST'',
         JStr ''READ_NETWORK_STATE'',
         JStr ''READ_POWER_STATE'',
         JStr ''READ_SETTINGS'',
         JStr ''CONTROL_TV_SCREEN'',
         JStr ''CONTROL_TV_STANBY'',
         JStr ''CONTROL_TV_POWER'',
         JStr ''CONTROL_WOL'']),
       (''signatures'', JArr [
         JObj [
           (''signature'', JStr REGISTER_SIGNATURE),
           (''signatureVersion'', JInt 1)]]),
       (''signed'', JObj [
         (''appId'', JStr ''com.lge.test''),
         (''created'', JStr ''20140509''),
         (''localizedAppNames'', JObj [
           ('''', JStr ''LG Remote App''),
           (''ko-KR'', JStr [CHR 0xEB, CHR 0xA6, CHR 0xAC, CHR 0xEB, CHR 0xAA, CHR 0xA8, CHR 0xEC,
               CHR 0xBB, CHR 0xA8, CHR 0x20, CHR 0xEC, CHR 0x95, CHR 0xB1]),
           (''zxx-XX'', JStr [CHR 0xD0, CHR 0x9B, CHR 0xD0, CHR 0x93, CHR 0x20, CHR 0x52, CHR 0xD1,
               CHR 0x8D, CHR 0xD0, CHR 0xBC, CHR 0x6F, CHR 0x74, CHR 0xD1, CHR 0x8D, CHR 0x20, CHR
               0x41, CHR 0xD0, CHR 0x9F, CHR 0xD0, CHR 0x9F])]),
         (''localizedVendorNames'', JObj [
           ('''', JStr ''LG Electronics'')]),
         (''permissions'', JArr [
           JStr ''TEST_SECURE'',
           JStr ''CONTROL_INPUT_TEXT'',
           JStr ''CONTROL_MOUSE_AND_KEYBOARD'',
           JStr ''READ_INSTALLED_APPS'',
           JStr ''READ_LGE_SDX'',
           JStr ''READ_NOTIFICATIONS'',
           JStr ''SEARCH'',
           JStr ''WRITE_SETTINGS'',
           JStr ''WRITE_NOTIFICATION_ALERT'',
           JStr ''CONTROL_POWER'',
           JStr ''READ_CURRENT_CHANNEL'',
           JStr ''READ_RUNNING_APPS'',
           JStr ''READ_UPDATE_INFO'',
           JStr ''UPDATE_FROM_REMOTE_APP'',
           JStr ''READ_LGE_TV_INPUT_EVENTS'',
           JStr ''READ_TV_CURRENT_TIME'']),
         (''serial'', JStr ''2f930e2d2cfe083771f68e4fe7bb07''),
         (''vendorId'', JStr ''com.lge'')])]"

definition REGISTER_PAYLOAD :: json where
  "REGISTER_PAYLOAD = JObj [
     (''forcePairing'', JBool False),
     (''manifest'', REGISTER_MANIFEST),
     (''pairingType'', JStr ''PROMPT'')]"

section \<open>The registration\<close>

text \<open>
  What the manager asks of the TV: the client key it has, whether to pair anew, and the rest as
  bundled.
\<close>

definition registration :: "'u ext \<Rightarrow> Manager \<Rightarrow> LgTvRequest" where
  "registration e m =
     \<lparr>rq_type = Register, rq_id = fresh_uuid e (uuid_count m), rq_uri = None,
      rq_payload = Some (JObj [
        (''client-key'', json_opt JStr (client_key m)),
        (''forcePairing'', JBool (case connection_details m of
           Some connection \<Rightarrow> cs_force_pairing (settings_of connection) | None \<Rightarrow> False)),
        (''manifest'', REGISTER_MANIFEST),
        (''pairingType'', JStr ''PROMPT'')])\<rparr>"

lemma register_request_bundled:
  assumes "json_from_text e (register_payload e) = Some REGISTER_PAYLOAD"
  shows "generate_register_request e key force n =
    (Inr \<lparr>rq_type = Register, rq_id = fresh_uuid e n, rq_uri = None,
       rq_payload = Some (JObj [(''client-key'', json_opt JStr key), (''forcePairing'', JBool force),
         (''manifest'', REGISTER_MANIFEST), (''pairingType'', JStr ''PROMPT'')])\<rparr>, Suc n)"
  using assms
  by (cases key) (simp_all add: generate_register_request_def generate_lgtv_message_id_def Let_def
      REGISTER_PAYLOAD_def json_opt_def)

text \<open>C29: The registration that goes out. Where the bundled payload reads as the file has it and JSON
  texts can be written, a manager whose handler listens queues for it exactly one text: that of a
  \<open>register\<close> request with a fresh identifier and no address, which holds the client key of the
  manager (null without one), forces a pairing exactly if the settings of the connection ask for
  it, whatever the bundled \<open>forcePairing\<close> says, and has the bundled manifest with its permissions
  and signature untouched. A TV that reads JSON as it was written reads that request.\<close>

theorem registration_goes_out:
  assumes "json_from_text e (register_payload e) = Some REGISTER_PAYLOAD"
    and "json_to_text e (json_of_LgTvRequest (registration e m)) = Inr t"
    and "json_from_text e t = Some (json_of_LgTvRequest (registration e m))"
    and "to_ws_tx m = Some c" "rx_open c"
  shows "send_register_payload e m = m\<lparr>uuid_count := Suc (uuid_count m),
      to_ws_tx := Some (c\<lparr>queue := queue c @ [WsMessage.Payload t]\<rparr>)\<rparr> \<and>
    Option.bind (json_from_text e t) de_LgTvRequest = Some (registration e m)"
proof
  show "send_register_payload e m = m\<lparr>uuid_count := Suc (uuid_count m),
      to_ws_tx := Some (c\<lparr>queue := queue c @ [WsMessage.Payload t]\<rparr>)\<rparr>"
    using assms(2,4,5)
    by (simp add: send_register_payload_def register_request_bundled [OF assms(1)] registration_def
        send_to_ws_def chan_send_def)
  show "Option.bind (json_from_text e t) de_LgTvRequest = Some (registration e m)"
    using assms(3) by (simp add: de_json_of_LgTvRequest registration_def)
qed

text \<open>A manager that has paired before and is asked to pair anew, and its two JSON texts.\<close>

definition demo_registering :: Manager where
  "demo_registering = demo_manager\<lparr>to_ws_tx := Some new_chan,
     client_key := Some ''key'', connection_details := Some (Host ''tv''
       (csb_build (with_forced_pairing csb_new)))\<rparr>"

definition demo_registration :: "demo_url ext" where
  "demo_registration = demo_ext\<lparr>register_payload := ''bundled'', json_to_text := \<lambda>j. Inr ''registration'',
     json_from_text := \<lambda>t. if t = ''bundled'' then Some REGISTER_PAYLOAD
       else if t = ''registration'' then Some (json_of_LgTvRequest (registration demo_ext demo_registering))
       else None\<rparr>"

theorem registration_goes_out_witness:
  "\<exists>i p. Option.bind (json_from_text demo_registration ''registration'') de_LgTvRequest =
      Some \<lparr>rq_type = Register, rq_id = i, rq_uri = None, rq_payload = Some (JObj p)\<rparr> \<and>
    map_of p ''client-key'' = Some (JStr ''key'') \<and> map_of p ''forcePairing'' = Some (JBool True) \<and>
    map_of p ''manifest'' = Some REGISTER_MANIFEST \<and>
    to_ws_tx (send_register_payload demo_registration demo_registering) =
      Some (new_chan\<lparr>queue := [WsMessage.Payload ''registration'']\<rparr>)"
proof -
  have same: "registration demo_registration m = registration demo_ext m" for m
    by (simp add: registration_def demo_registration_def)
  have "send_register_payload demo_registration demo_registering = demo_registering
      \<lparr>uuid_count := Suc (uuid_count demo_registering),
       to_ws_tx := Some (new_chan\<lparr>queue := queue new_chan @ [WsMessage.Payload ''registration'']\<rparr>)\<rparr> \<and>
    Option.bind (json_from_text demo_registration ''registration'') de_LgTvRequest =
      Some (registration demo_registration demo_registering)"
    by (rule registration_goes_out)
       (simp_all add: same, simp_all add: demo_registration_def demo_registering_def new_chan_def)
  then show ?thesis
    by (simp add: registration_def demo_registering_def new_chan_def json_opt_def csb_build_def
        with_forced_pairing_def)
qed

end
