(* ===== verification/Manager_Shutdown.thy ===== *)
theory Manager_Shutdown
  imports Manager_Wellformed
begin

text \<open>
  The end of a run. A manager that has taken \<open>ShutDown\<close> takes no further message; it waits for the
  state machine's task, which may go on with its inputs first, then tells the handler, and its
  loop is left.
\<close>

section \<open>While the manager stops\<close>

definition stopping_inv :: "Run \<Rightarrow> bool" where
  "stopping_inv s \<longleftrightarrow> (run_stopping s \<longrightarrow> run_cancelled s \<and> \<not> run_looping s \<and>
     to_fsm_tx (run_manager s) = Some (fsm_rx (run_fsm s)) \<and>
     (fsm_running (run_fsm s) \<or> \<not> rx_open (fsm_rx (run_fsm s))))"

lemma not_stopping [simp]: "\<not> run_stopping s \<Longrightarrow> stopping_inv s"
  by (simp add: stopping_inv_def)

lemma stopping_kept [simp]:
  "run_stopping (manager_step f s) = run_stopping s" "run_stopping (fsm_task_turn g s) = run_stopping s"
  by (simp_all add: manager_step_def fsm_task_turn_def Let_def)

lemma stopping_inv_step:
  "stopping_inv s \<Longrightarrow> (\<And>m. to_fsm_tx (f m) = to_fsm_tx m) \<Longrightarrow> stopping_inv (manager_step f s)"
  by (auto simp: stopping_inv_def manager_step_def Let_def)

lemma task_stops: "fsm_running (fsm_recv consume t) \<or> \<not> rx_open (fsm_rx (fsm_recv consume t))"
  if "fsm_running t"
  using that by (auto simp: fsm_recv_def fsm_handle_def fsm_stop_def send_update_def Let_def
      chan_close_def split: option.split sum.split)

text \<open>A manager that takes turns does not stop; one that stops is left alone by the others.\<close>

lemma stopping_inv_turn:
  assumes "rust_fsm transition fsm_output consume" "run_inv s" "stopping_inv s"
    "run_turn e consume t s = Some s'"
  shows "stopping_inv s'"
proof -
  note inv = assms(3)
  have looping: "\<not> run_stopping s" if "run_looping s"
    using that inv by (auto simp: stopping_inv_def)
  note step = stopping_inv_step [OF inv]
  have quiet: ?thesis if "quiet_turn t"
    using assms(4) that by (rule quiet_turnE) (auto simp: core_eq_iff intro: step)
  show ?thesis
  proof (cases t)
    case FromCaller
    have "stopping_inv (begin_shut_down (manager_step (\<lambda>m. m\<lparr>command_rx := rx\<rparr>) s))"
      if "run_looping s" for rx
      using that assms(2)
      by (simp add: stopping_inv_def begin_shut_down_def manager_step_def run_inv_def Let_def)
    with FromCaller assms(4) looping show ?thesis by (auto simp: Let_def split: if_splits option.splits)
  next
    case FromStateMachine
    with assms(4) looping show ?thesis by (auto split: if_splits option.splits)
  next
    case FromWebSocket
    with assms(4) looping show ?thesis by (auto split: if_splits option.splits)
  next
    case OnNetworkNotified
    with assms(4) looping show ?thesis by (auto simp: take_notify_def Let_def split: if_splits option.splits)
  next
    case TestingNotified
    with assms(4) looping show ?thesis by (auto simp: take_notify_def split: if_splits option.splits)
  next
    case ShutDownEnds
    with assms(4) show ?thesis by (auto simp: end_shut_down_def Let_def split: if_splits)
  next
    case FsmReceives
    with assms(4) inv task_stops [of "run_fsm s" consume] show ?thesis
      by (auto simp: stopping_inv_def fsm_task_turn_def Let_def split: if_splits)
  next
    case FsmCancelled
    with assms(4) inv show ?thesis
      by (auto simp: stopping_inv_def fsm_task_turn_def fsm_stop_def chan_close_def Let_def split: if_splits)
  next
    case (WsTurn ev)
    with assms(4) step [of "ws_turn e ev"] show ?thesis by (simp add: ws_turn_frame)
  next
    case (CheckerTurn ev)
    with assms(4) show ?thesis by (auto intro: step)
  qed (use quiet in \<open>simp_all add: quiet_turn_def\<close>)
qed

lemma reachable_stopping_inv:
  assumes "rust_fsm transition fsm_output consume" "reachable e consume s"
  shows "stopping_inv s"
  using assms(2)
proof (induction rule: reachable.induct)
  case (init client d rx)
  show ?case by (simp add: run_initial_def Let_def)
next
  case (turn s t s')
  from stopping_inv_turn [OF assms(1) reachable_run_inv [OF assms(1) turn.hyps(1)] turn.IH turn.hyps(2)]
  show ?case .
qed

section \<open>The end\<close>

definition run_ended :: "Run \<Rightarrow> bool" where
  "run_ended s \<longleftrightarrow> \<not> run_looping s \<and> \<not> run_stopping s"

text \<open>The turns that are left once the manager stops.\<close>

definition last_turns :: "Run \<Rightarrow> turn list" where
  "last_turns s = (if fsm_running (run_fsm s) then [FsmCancelled, ShutDownEnds] else [ShutDownEnds])"

text \<open>The handler, if there is still one, has been told.\<close>

definition handler_told :: "Manager \<Rightarrow> bool" where
  "handler_told m \<longleftrightarrow> (ws_join_handle m \<noteq> None \<longrightarrow> (\<exists>c. to_ws_tx m = Some c \<and>
     WsMessage.Command WsCommand.ShutDown \<in> set (queue c)))"

lemma handler_told_disconnect:
  assumes "manager_wf m"
  shows "handler_told (initiate_disconnect_from_tv e m)"
proof (cases "ws_join_handle m")
  case None
  then show ?thesis by (simp add: initiate_disconnect_from_tv_def handler_told_def)
next
  case (Some t)
  with assms obtain c where c: "to_ws_tx m = Some c"
    by (auto simp: wf_defs Option.is_none_def)
  have "ws_join_handle (send_to_fsm x m') = ws_join_handle m'" for x m'
    by (simp add: send_to_fsm_def enter_zombie_state_def set_manager_status_eq split: option.split sum.split)
  then have "ws_join_handle (force_manager_reset e reason m) = None" for reason
    by (simp add: force_manager_reset_def Let_def emit_manager_status_def initialize_frame)
  with Some c show ?thesis
    by (auto simp: initiate_disconnect_from_tv_def send_to_ws_def handler_told_def chan_send_pushes
        split: sum.split)
qed

lemma last_turns_end:
  assumes "run_stopping s" "\<not> run_looping s" "run_cancelled s" "manager_wf (run_manager s)"
  shows "\<exists>s'. run_turns e consume (last_turns s) s = Some s' \<and> run_ended s' \<and>
    \<not> fsm_running (run_fsm s') \<and> handler_told (run_manager s')"
proof -
  have ended: "\<exists>s'. run_turn e consume ShutDownEnds s1 = Some s' \<and> run_ended s' \<and>
      \<not> fsm_running (run_fsm s') \<and> handler_told (run_manager s')"
    if "run_stopping s1" "\<not> run_looping s1" "\<not> fsm_running (run_fsm s1)" "manager_wf (run_manager s1)" for s1
    using that by (simp add: end_shut_down_def manager_step_def Let_def run_ended_def handler_told_disconnect)
  show ?thesis
  proof (cases "fsm_running (run_fsm s)")
    case True
    let ?s = "fsm_task_turn fsm_stop s"
    have "run_stopping ?s" "\<not> run_looping ?s" "\<not> fsm_running (run_fsm ?s)" "manager_wf (run_manager ?s)"
      using assms by (simp_all add: fsm_task_turn_def Let_def fsm_stop_def)
    from ended [OF this] True assms(3) show ?thesis by (auto simp: last_turns_def split: if_splits)
  next
    case False
    with ended [OF assms(1,2) False assms(4)] show ?thesis by (auto simp: last_turns_def split: if_splits)
  qed
qed


text \<open>
  The machine's channel is closed by then. A handler that has ended on its own cannot be told, so
  the manager resets, and the reset cannot be told to the machine either.
\<close>

lemma zombie_status: "manager_status (enter_zombie_state reason m) = Zombie"
  by (simp add: enter_zombie_state_def set_manager_status_eq)

lemma closed_disconnect:
  assumes "to_fsm_tx m = Some c" "\<not> rx_open c" "ws_join_handle m \<noteq> None" "to_ws_tx m = Some tx"
    "\<not> rx_open tx"
  shows "manager_status (initiate_disconnect_from_tv e m) = Zombie"
proof -
  let ?m = "initialize_manager_state e (await_ws_handler e (shut_down_ws
    (send_out (Resetting ''Cannot send message to WebSocket handler: channel unexpectedly closed'') m)))"
  have "to_fsm_tx ?m = Some c" using assms(1) by (simp add: initialize_frame)
  with assms show ?thesis
    by (simp add: initiate_disconnect_from_tv_def send_to_ws_def chan_send_pushes
        force_manager_reset_def Let_def send_to_fsm_def emit_manager_status_def zombie_status)
qed

text \<open>C27: A shut down can end as a zombie. If the handler of the manager has ended, as after a connection
  the TV closed, before the manager tells it to shut down, the last thing the manager reports is
  the status \<open>Zombie\<close>, which stands for a fatal error, although it was asked to end.\<close>

theorem shut_down_as_zombie:
  assumes "rust_fsm transition fsm_output consume" "reachable e consume s" "run_stopping s"
    and "\<not> fsm_running (run_fsm s)"
    and "ws_join_handle (run_manager s) \<noteq> None" "to_ws_tx (run_manager s) = Some tx" "\<not> rx_open tx"
  shows "\<exists>s'. run_turn e consume ShutDownEnds s = Some s' \<and> run_ended s' \<and>
    manager_status (run_manager s') = Zombie"
proof -
  from reachable_stopping_inv [OF assms(1,2)] assms(3,4) have
    "\<not> run_looping s" "to_fsm_tx (run_manager s) = Some (fsm_rx (run_fsm s))"
    "\<not> rx_open (fsm_rx (run_fsm s))" by (auto simp: stopping_inv_def)
  with closed_disconnect [OF this(2,3) assms(5-7), of e] assms(3,4) show ?thesis
    by (simp add: end_shut_down_def manager_step_def Let_def run_ended_def)
qed

text \<open>From a running manager that reads it, at once.\<close>

lemma shut_down_taken:
  assumes "run_looping s" "queue (command_rx (run_manager s)) = ManagerMessage.ShutDown # rest"
    "fsm_running (run_fsm s)"
  shows "\<exists>s'. run_turns e consume [FromCaller, FsmCancelled, ShutDownEnds] s = Some s' \<and> run_ended s'"
  using assms
  by (simp add: chan_recv_def manager_step_def begin_shut_down_def fsm_task_turn_def fsm_stop_def
      end_shut_down_def run_ended_def Let_def)

section \<open>Examples\<close>

text \<open>From a running manager that reads it.\<close>

lemma shut_down_read:
  assumes "run_looping s" "queue (command_rx (run_manager s)) = ManagerMessage.ShutDown # rest"
  shows "\<exists>s'. run_turn e consume FromCaller s = Some s' \<and> run_stopping s' \<and>
    run_fsm s' = (run_fsm s)\<lparr>fsm_rx := fsm_rx (run_fsm s')\<rparr> \<and>
    ws_join_handle (run_manager s') = ws_join_handle (run_manager s) \<and>
    to_ws_tx (run_manager s') = to_ws_tx (run_manager s)"
  using assms by (simp add: chan_recv_def manager_step_def begin_shut_down_def Let_def)

lemma demo_stopping:
  assumes "reachable e consume s" "run_looping s" "command_rx (run_manager s) = \<lparr>queue = [], rx_open = True\<rparr>"
  shows "\<exists>s'. reachable e consume s' \<and> run_stopping s' \<and>
    fsm_running (run_fsm s') = fsm_running (run_fsm s) \<and>
    ws_join_handle (run_manager s') = ws_join_handle (run_manager s) \<and>
    to_ws_tx (run_manager s') = to_ws_tx (run_manager s)"
proof -
  let ?s = "manager_step (\<lambda>m. m\<lparr>command_rx := \<lparr>queue = [ManagerMessage.ShutDown], rx_open = True\<rparr>\<rparr>) s"
  have "run_turn e consume (CallerSends ManagerMessage.ShutDown) s = Some ?s"
    using assms(3) by (simp add: chan_send_def)
  with assms(1) have r: "reachable e consume ?s" by (rule reachable.turn)
  have "run_looping ?s" "queue (command_rx (run_manager ?s)) = [ManagerMessage.ShutDown]"
    using assms(2) by (simp_all add: manager_step_def Let_def)
  from shut_down_read [OF this, of e consume] obtain s' where
    s': "run_turn e consume FromCaller ?s = Some s'" "run_stopping s'"
    "run_fsm s' = (run_fsm ?s)\<lparr>fsm_rx := fsm_rx (run_fsm s')\<rparr>"
    "ws_join_handle (run_manager s') = ws_join_handle (run_manager ?s)"
    "to_ws_tx (run_manager s') = to_ws_tx (run_manager ?s)" by blast
  from s'(3) have "fsm_running (run_fsm s') = fsm_running (run_fsm ?s)"
    by (cases "run_fsm s'") (simp add: FsmTask.defs)
  with reachable.turn [OF r s'(1)] s'(2,4,5) show ?thesis
    by (intro exI [of _ s']) (simp add: manager_step_def Let_def)
qed


theorem shut_down_as_zombie_witness:
  "\<exists>s s'. reachable demo_session consume_doc s \<and>
     run_turn demo_session consume_doc ShutDownEnds s = Some s' \<and> run_ended s' \<and>
     manager_status (run_manager s') = Zombie"
proof -
  let ?v = "session_communicating ''wss://tv:3001/''" and ?c = "demo_connection True True"
  obtain s0 where s0: "reachable demo_session consume_doc s0"
    "shows_session ?c ''wss://tv:3001/'' s0 ?v" by (rule demo_stages)
  have "se_phase ?v = Some WsRunning" by (simp add: session_communicating_def)
  from turn_closed [OF this, of demo_session ?c "''wss://tv:3001/''"] s0(2) obtain s1 where
    s1: "run_turn demo_session consume_doc (WsTurn (Incoming (Inr Close))) s0 = Some s1"
    "shows_session ?c ''wss://tv:3001/'' s1 (?v\<lparr>se_phase := Some WsEnded, se_waiting := [],
       se_updates := se_updates ?v @ [WsUpdateMessage.Status ServerClosedConnection,
         WsUpdateMessage.Status WsStatus.Disconnected], se_written := se_written ?v\<rparr>)"
    by (auto simp: session_turn_def)
  from s1(2) obtain tx where "run_looping s1" "command_rx (run_manager s1) = \<lparr>queue = [], rx_open = True\<rparr>"
    "ws_join_handle (run_manager s1) \<noteq> None" "to_ws_tx (run_manager s1) = Some tx" "\<not> rx_open tx"
    "fsm_running (run_fsm s1)"
    by (auto simp: session_defs session_communicating_def handler_at_def)
  with demo_stopping [OF reachable.turn [OF s0(1) s1(1)]] obtain s2 where
    s2: "reachable demo_session consume_doc s2" "run_stopping s2" "ws_join_handle (run_manager s2) \<noteq> None"
    "to_ws_tx (run_manager s2) = Some tx" "fsm_running (run_fsm s2)" by auto
  have "run_cancelled s2"
    using reachable_stopping_inv [OF lgtv_fsm.rust_fsm_axioms s2(1)] s2(2) by (simp add: stopping_inv_def)
  let ?s = "fsm_task_turn fsm_stop s2"
  have "run_turn demo_session consume_doc FsmCancelled s2 = Some ?s"
    using s2(5) \<open>run_cancelled s2\<close> by simp
  with s2(1) have r: "reachable demo_session consume_doc ?s" by (rule reachable.turn)
  have "run_stopping ?s" "\<not> fsm_running (run_fsm ?s)" "ws_join_handle (run_manager ?s) \<noteq> None"
    "to_ws_tx (run_manager ?s) = Some tx"
    using s2 by (simp_all add: fsm_task_turn_def fsm_stop_def Let_def)
  from shut_down_as_zombie [OF lgtv_fsm.rust_fsm_axioms r this \<open>\<not> rx_open tx\<close>] r show ?thesis by blast
qed

end
