(* ===== verification/Examples.thy ===== *)
theory Examples
  imports Manager_Shutdown Discovery
begin

text \<open>
  The two programs of \<open>src/examples\<close>, which use the library the way its callers do. \<open>control.rs\<close>
  passes what is typed on to the manager; \<open>discover.rs\<close> has the manager search for TVs once and
  then shuts it down. Each is modelled as a client of the run of \<open>Manager_Run\<close>: what it sends
  are turns of the caller, what it prints a list.
\<close>

section \<open>control.rs\<close>

text \<open>\<open>str::trim\<close>.\<close>

definition trim :: "string \<Rightarrow> string" where
  "trim s = rev (dropWhile is_whitespace (rev (dropWhile is_whitespace s)))"

text \<open>What the printing task does with a message: \<open>Prompt\<close> is the list of commands.\<close>

datatype printed = Received ManagerOutputMessage | Prompt

definition control_print :: "ManagerOutputMessage \<Rightarrow> printed list" where
  "control_print manager_output_msg = Received manager_output_msg #
     (if Status State.Disconnected = manager_output_msg then [Prompt] else [])"

text \<open>The message a line asks for, if it asks for one.\<close>

definition control_command :: "string \<Rightarrow> ManagerMessage option" where
  "control_command buf =
     (let line = trim buf in
      if line = ''c'' then Some (ManagerMessage.Connect (Host ''10.0.0.101'' default_settings))
      else if line = ''u'' then Some (SendTvCommand VolumeUp)
      else if line = ''d'' then Some (SendTvCommand VolumeDown)
      else if line = ''t'' then Some ManagerMessage.TestConnection
      else if line = ''i'' then Some ManagerMessage.Disconnect
      else if line = ''s'' then Some ManagerMessage.ShutDown
      else None)"

text \<open>
  The task that reads the console: an empty line is the end of the input; a message that cannot
  be sent ends it with an error. What is left of the input is returned with the channel.
\<close>

fun control_stdin :: "string list \<Rightarrow> ManagerMessage chan \<Rightarrow> (unit + unit) \<times> ManagerMessage chan" where
  "control_stdin [] to_manager = (Inr (), to_manager)"
| "control_stdin (buf # lines) to_manager =
     (if buf = [] then (Inr (), to_manager)
      else case control_command buf of
          None \<Rightarrow> control_stdin lines to_manager
        | Some msg \<Rightarrow>
            (case chan_send to_manager msg of
               Inl _ \<Rightarrow> (Inl (), to_manager)
             | Inr to_manager \<Rightarrow>
                 if msg = ManagerMessage.ShutDown then (Inr (), to_manager)
                 else control_stdin lines to_manager))"

text \<open>The messages that are sent, one after the other.\<close>

fun control_messages :: "string list \<Rightarrow> ManagerMessage list" where
  "control_messages [] = []"
| "control_messages (buf # lines) =
     (if buf = [] then []
      else case control_command buf of
          None \<Rightarrow> control_messages lines
        | Some msg \<Rightarrow> msg # (if msg = ManagerMessage.ShutDown then [] else control_messages lines))"

lemma control_stdin_open:
  "rx_open c \<Longrightarrow> control_stdin lines c = (Inr (), c\<lparr>queue := queue c @ control_messages lines\<rparr>)"
  by (induction lines arbitrary: c) (auto simp: chan_send_def split: option.split)

lemma control_messages_shut_down:
  "ManagerMessage.ShutDown \<in> set (control_messages lines) \<Longrightarrow>
    \<exists>msgs. control_messages lines = msgs @ [ManagerMessage.ShutDown] \<and> ManagerMessage.ShutDown \<notin> set msgs"
proof (induction lines)
  case (Cons buf lines)
  show ?case
  proof (cases "control_command buf = None \<or> control_command buf = Some ManagerMessage.ShutDown \<or> buf = []")
    case True
    with Cons show ?thesis by (auto intro: exI [of _ "[]"])
  next
    case False
    then obtain msg where msg: "control_command buf = Some msg" "msg \<noteq> ManagerMessage.ShutDown" "buf \<noteq> []"
      by auto
    with Cons obtain msgs where "control_messages lines = msgs @ [ManagerMessage.ShutDown]"
      "ManagerMessage.ShutDown \<notin> set msgs" by auto
    with msg show ?thesis by (intro exI [of _ "msg # msgs"]) simp
  qed
qed simp

text \<open>The manager takes the messages that wait for it.\<close>

lemma step_runs [simp]:
  "run_looping (manager_step f s) = run_looping s"
  "fsm_running (run_fsm (manager_step f s)) = fsm_running (run_fsm s)"
  by (simp_all add: manager_step_def Let_def)

lemma send_calls:
  "run_looping s \<Longrightarrow> rx_open (command_rx (run_manager s)) \<Longrightarrow>
    \<exists>s'. run_turns e consume (map CallerSends msgs) s = Some s' \<and> run_looping s' \<and>
      fsm_running (run_fsm s') = fsm_running (run_fsm s) \<and>
      queue (command_rx (run_manager s')) = queue (command_rx (run_manager s)) @ msgs"
proof (induction msgs arbitrary: s)
  case (Cons msg msgs)
  let ?c = "command_rx (run_manager s)"
  let ?s = "manager_step (\<lambda>m. m\<lparr>command_rx := ?c\<lparr>queue := queue ?c @ [msg]\<rparr>\<rparr>) s"
  have "run_looping ?s" "rx_open (command_rx (run_manager ?s))"
    "queue (command_rx (run_manager ?s)) = queue ?c @ [msg]"
    using Cons.prems by simp_all
  with Cons.IH [of ?s] Cons.prems(2) show ?case by (simp add: chan_send_def)
qed simp

text \<open>What the manager does with a message leaves those behind it in the channel.\<close>

lemma calls_kept_connect [simp]:
  "command_rx (report_connect_error (initiate_connect_to_tv e connection m)) = command_rx m"
  by (simp add: initiate_connect_to_tv_def report_connect_error_def Let_def
      split: option.split sum.split)

lemma calls_kept_message: "command_rx (handle_manager_message e msg m) = command_rx m"
  by (cases msg)
     (auto simp: cancel_reconnect_def Let_def discover_def emit_manager_status_def
       emit_all_tv_details_eq send_to_ws_def split: option.split sum.split)

lemma take_calls:
  "run_looping s \<Longrightarrow> fsm_running (run_fsm s) \<Longrightarrow>
    queue (command_rx (run_manager s)) = msgs @ [ManagerMessage.ShutDown] \<Longrightarrow>
    ManagerMessage.ShutDown \<notin> set msgs \<Longrightarrow>
    \<exists>s'. run_turns e consume (replicate (length msgs) FromCaller @ [FromCaller, FsmCancelled, ShutDownEnds]) s =
      Some s' \<and> run_ended s'"
proof (induction msgs arbitrary: s)
  case Nil
  then show ?case using shut_down_taken [of s "[]" e consume] by simp
next
  case (Cons msg msgs)
  let ?c = "command_rx (run_manager s)"
  let ?s = "manager_step (handle_manager_message e msg)
    (manager_step (\<lambda>m. m\<lparr>command_rx := ?c\<lparr>queue := msgs @ [ManagerMessage.ShutDown]\<rparr>\<rparr>) s)"
  have "run_turn e consume FromCaller s = Some ?s" using Cons.prems by (auto simp: chan_recv_def)
  moreover have "run_looping ?s" "fsm_running (run_fsm ?s)"
    "queue (command_rx (run_manager ?s)) = msgs @ [ManagerMessage.ShutDown]"
    using Cons.prems by (simp_all add: calls_kept_message)
  ultimately show ?case using Cons.IH [of ?s] Cons.prems(4)
    by (simp del: run_turn.simps)
qed

text \<open>The control example ends when it is told to. Whatever is typed, up to the first line \<open>s\<close> each
  line that is a command is sent, in order, and nothing after it; and once the manager has taken
  what was sent and its machine has seen the token, the run is over, so the example ends.\<close>

theorem control_example_ends:
  assumes "run_looping s" "fsm_running (run_fsm s)" "command_rx (run_manager s) = new_chan"
    "control_messages lines = msgs @ [ManagerMessage.ShutDown]"
  shows "control_stdin lines new_chan = (Inr (), \<lparr>queue = control_messages lines, rx_open = True\<rparr>) \<and>
    (\<exists>s'. run_turns e consume (map CallerSends (control_messages lines) @
        replicate (length msgs) FromCaller @ [FromCaller, FsmCancelled, ShutDownEnds]) s = Some s' \<and>
      run_ended s')"
proof -
  from control_messages_shut_down [of lines] assms(4) have
    m: "ManagerMessage.ShutDown \<notin> set msgs" by auto
  from send_calls [of s e consume "control_messages lines"] assms(1,3) obtain s1 where
    s1: "run_turns e consume (map CallerSends (control_messages lines)) s = Some s1" "run_looping s1"
    "fsm_running (run_fsm s1) = fsm_running (run_fsm s)"
    "queue (command_rx (run_manager s1)) = msgs @ [ManagerMessage.ShutDown]"
    by (auto simp: assms(4))
  from take_calls [OF s1(2) _ s1(4) m, of e consume] assms(2) s1(3)
  have "\<exists>s'. run_turns e consume (map CallerSends (control_messages lines) @
      replicate (length msgs) FromCaller @ [FromCaller, FsmCancelled, ShutDownEnds]) s = Some s' \<and> run_ended s'"
    unfolding run_turns_append [of _ _ "map CallerSends _"] s1(1) bind.simps by blast
  then show ?thesis by (simp add: control_stdin_open new_chan_def)
qed

theorem control_example_ends_witness:
  "\<exists>s'. run_turns demo_session consume_doc
      (map CallerSends [ManagerMessage.Connect (Host ''10.0.0.101'' default_settings),
        SendTvCommand VolumeUp, ManagerMessage.ShutDown] @
       [FromCaller, FromCaller, FromCaller, FsmCancelled, ShutDownEnds]) demo_start = Some s' \<and>
    run_ended s'"
proof -
  let ?msgs = "[ManagerMessage.Connect (Host ''10.0.0.101'' default_settings), SendTvCommand VolumeUp]"
  have lines: "control_messages [''c '', '' u'', ''x'', ''s'', ''d''] = ?msgs @ [ManagerMessage.ShutDown]"
    by code_simp
  have "run_looping demo_start" "fsm_running (run_fsm demo_start)"
    "command_rx (run_manager demo_start) = new_chan"
    using initial_idle [of demo_session "Inr ()" demo_disk]
    by (simp_all add: idle_def machine_at_def new_chan_def)
  from control_example_ends [OF this lines, of demo_session consume_doc] lines show ?thesis
    by (simp del: run_turns.simps run_turn.simps)
qed

section \<open>discover.rs\<close>

text \<open>
  The task that reads the manager's messages: at the first list of devices it prints it, asks the
  manager to shut down and ends, which drops the receiver. \<open>dx_printed\<close> is None until then.
\<close>

record DiscoverExample =
  dx_run :: Run
  dx_printed :: "LgTvDevice list option"

definition discover_start :: "'u ext \<Rightarrow> unit result \<Rightarrow> Disk \<Rightarrow> DiscoverExample" where
  "discover_start e client d =
     \<lparr>dx_run = run_initial e client (manager_new e d \<lparr>queue = [ManagerMessage.Discover], rx_open = True\<rparr>),
      dx_printed = None\<rparr>"

definition discover_finish :: "LgTvDevice list \<Rightarrow> Manager \<Rightarrow> Manager" where
  "discover_finish devices m =
     m\<lparr>command_rx := (case chan_send (command_rx m) ManagerMessage.ShutDown of
                       Inl _ \<Rightarrow> command_rx m | Inr c \<Rightarrow> c),
       output_tx := chan_close (output_tx m)\<rparr>"

definition discover_reads :: "DiscoverExample \<Rightarrow> DiscoverExample option" where
  "discover_reads x =
     (if dx_printed x \<noteq> None then None
      else case chan_recv (output_tx (run_manager (dx_run x))) of
          None \<Rightarrow> None
        | Some (manager_output_msg, c) \<Rightarrow>
            let s = manager_step (\<lambda>m. m\<lparr>output_tx := c\<rparr>) (dx_run x)
            in Some (case manager_output_msg of
                 DiscoveredDevices devices \<Rightarrow>
                   \<lparr>dx_run = manager_step (discover_finish devices) s, dx_printed = Some devices\<rparr>
               | _ \<Rightarrow> x\<lparr>dx_run := s\<rparr>))"

fun discover_reads_n :: "nat \<Rightarrow> DiscoverExample \<Rightarrow> DiscoverExample option" where
  "discover_reads_n 0 x = Some x"
| "discover_reads_n (Suc n) x = Option.bind (discover_reads x) (discover_reads_n n)"

lemma reads_one_more:
  "discover_reads_n (n + 1) x = Option.bind (discover_reads_n n x) discover_reads"
proof (induction n arbitrary: x)
  case 0
  then show ?case by (cases "discover_reads x") simp_all
next
  case (Suc n)
  then show ?case by (cases "discover_reads x") simp_all
qed

definition discovery_turns :: "LgTvDevice list result \<Rightarrow> turn list" where
  "discovery_turns found = [FromCaller, DiscoveryBegins, DiscoveryReports found, DiscoveryEnds]"

text \<open>The client reads on as long as no list of devices comes.\<close>

definition no_devices :: "ManagerOutputMessage \<Rightarrow> bool" where
  "no_devices msg \<longleftrightarrow> (case msg of DiscoveredDevices _ \<Rightarrow> False | _ \<Rightarrow> True)"

lemma reads_no_devices:
  "dx_printed x = None \<Longrightarrow> queue (output_tx (run_manager (dx_run x))) = msgs @ rest \<Longrightarrow>
    list_all no_devices msgs \<Longrightarrow>
    \<exists>x'. discover_reads_n (length msgs) x = Some x' \<and> dx_printed x' = None \<and>
      queue (output_tx (run_manager (dx_run x'))) = rest \<and>
      run_looping (dx_run x') = run_looping (dx_run x) \<and>
      fsm_running (run_fsm (dx_run x')) = fsm_running (run_fsm (dx_run x)) \<and>
      command_rx (run_manager (dx_run x')) = command_rx (run_manager (dx_run x))"
proof (induction msgs arbitrary: x)
  case (Cons msg msgs)
  let ?s = "manager_step (\<lambda>m. m\<lparr>output_tx := (output_tx m)\<lparr>queue := msgs @ rest\<rparr>\<rparr>) (dx_run x)"
  from Cons.prems have r: "discover_reads x = Some (x\<lparr>dx_run := ?s\<rparr>)"
    by (cases msg) (simp_all add: discover_reads_def chan_recv_def no_devices_def manager_step_def)
  have "\<exists>x'. discover_reads_n (length msgs) (x\<lparr>dx_run := ?s\<rparr>) = Some x' \<and> dx_printed x' = None \<and>
      queue (output_tx (run_manager (dx_run x'))) = rest \<and>
      run_looping (dx_run x') = run_looping (dx_run (x\<lparr>dx_run := ?s\<rparr>)) \<and>
      fsm_running (run_fsm (dx_run x')) = fsm_running (run_fsm (dx_run (x\<lparr>dx_run := ?s\<rparr>))) \<and>
      command_rx (run_manager (dx_run x')) = command_rx (run_manager (dx_run (x\<lparr>dx_run := ?s\<rparr>)))"
    using Cons.prems by (intro Cons.IH) (simp_all add: manager_step_def Let_def)
  then show ?case by (simp add: r)
qed simp

text \<open>How a run starts.\<close>

definition before_start :: "'u ext \<Rightarrow> Disk \<Rightarrow> ManagerMessage chan \<Rightarrow> Manager" where
  "before_start e d rx = (manager_new e d rx)\<lparr>to_fsm_tx := Some new_chan\<rparr>"

lemma before_start_simps [simp]:
  "output_tx (before_start e d rx) = new_chan" "command_rx (before_start e d rx) = rx"
  "reconnect_flow_status (before_start e d rx) = Inactive"
  "discovery_tasks (before_start e d rx) = 0" "discovery_searching (before_start e d rx) = 0"
  "discovery_ending (before_start e d rx) = 0"
  by (simp_all add: before_start_def manager_new_def import_persisted_state_eq Let_def)

lemma started:
  fixes e :: "'u ext" and rx client d
  defines "s \<equiv> run_initial e client (manager_new e d rx)"
  shows "run_looping s" "fsm_running (run_fsm s)" "rx_open (output_tx (run_manager s))"
    "list_all no_devices (queue (output_tx (run_manager s)))" "command_rx (run_manager s) = rx"
    "discovery_tasks (run_manager s) = 0" "discovery_searching (run_manager s) = 0"
    "discovery_ending (run_manager s) = 0"
proof -
  let ?m = "initialize_manager_state e (before_start e d rx)"
  obtain ip b where h: "set_host_ip_from_ws_url e ?m = ?m\<lparr>tv_host_ip := ip, tv_host_ip_notifier := b\<rparr>"
    by (rule host_frame)
  obtain m' where m': "output_tx ?m = chan_pushes new_chan (reset_messages False m')"
    "command_rx ?m = rx" "discovery_tasks ?m = 0" "discovery_searching ?m = 0" "discovery_ending ?m = 0"
    by (simp add: initialize_manager_state_eq Let_def check_network_def import_persisted_state_eq
        cleared_def in_reconnect_flow_def)
  have "list_all no_devices (reset_messages False m')"
    by (simp add: reset_messages_def tv_details_def no_devices_def)
  with m' show "run_looping s" "fsm_running (run_fsm s)" "rx_open (output_tx (run_manager s))"
    "list_all no_devices (queue (output_tx (run_manager s)))" "command_rx (run_manager s) = rx"
    "discovery_tasks (run_manager s) = 0" "discovery_searching (run_manager s) = 0"
    "discovery_ending (run_manager s) = 0"
    by (simp_all add: s_def run_initial_def run_start_def Let_def before_start_def [symmetric] h
        emit_manager_status_def set_reconnect_flow_status_eq start_network_checker_def
        no_devices_def split: sum.split)
qed

text \<open>The search: what the manager has sent once the task has reported.\<close>

lemma discovery_runs:
  obtains s msgs where
    "run_turns e consume (discovery_turns found) (dx_run (discover_start e client d)) = Some s"
    "run_looping s" "fsm_running (run_fsm s)"
    "command_rx (run_manager s) = \<lparr>queue = [], rx_open = True\<rparr>" "list_all no_devices msgs"
    "output_tx (run_manager s) = \<lparr>queue = msgs @ IsDiscovering True #
       (case found of Inr devices \<Rightarrow> [DiscoveredDevices devices]
        | Inl err \<Rightarrow> [Error (Discovery (''Discovery failed: '' @ err))]) @ [IsDiscovering False],
       rx_open = True\<rparr>"
proof -
  define s0 where "s0 = dx_run (discover_start e client d)"
  have s0: "run_looping s0" "fsm_running (run_fsm s0)" "rx_open (output_tx (run_manager s0))"
    "list_all no_devices (queue (output_tx (run_manager s0)))"
    "command_rx (run_manager s0) = \<lparr>queue = [ManagerMessage.Discover], rx_open = True\<rparr>"
    "discovery_tasks (run_manager s0) = 0" "discovery_searching (run_manager s0) = 0"
    "discovery_ending (run_manager s0) = 0"
    by (simp_all add: s0_def discover_start_def started)
  define s1 where "s1 = manager_step discover
    (manager_step (\<lambda>m. m\<lparr>command_rx := \<lparr>queue = [], rx_open = True\<rparr>\<rparr>) s0)"
  define s2 where "s2 = manager_step discovery_begins s1"
  define s3 where "s3 = manager_step (discovery_reports found) s2"
  define s4 where "s4 = manager_step discovery_ends s3"
  have t: "run_turn e consume FromCaller s0 = Some s1" "run_turn e consume DiscoveryBegins s1 = Some s2"
    "run_turn e consume (DiscoveryReports found) s2 = Some s3" "run_turn e consume DiscoveryEnds s3 = Some s4"
    using s0 by (simp_all add: s1_def s2_def s3_def s4_def chan_recv_def manager_step_def Let_def
        discover_def discovery_begins_def discovery_reports_def)
  have "run_looping s4" "fsm_running (run_fsm s4)"
    "command_rx (run_manager s4) = \<lparr>queue = [], rx_open = True\<rparr>"
    "output_tx (run_manager s4) = chan_pushes (output_tx (run_manager s0)) (IsDiscovering True #
       (case found of Inr devices \<Rightarrow> [DiscoveredDevices devices]
        | Inl err \<Rightarrow> [Error (Discovery (''Discovery failed: '' @ err))]) @ [IsDiscovering False])"
    using s0 by (simp_all add: s1_def s2_def s3_def s4_def discover_def discovery_begins_def
        discovery_reports_def discovery_ends_def split: sum.split)
  moreover have "run_turns e consume (discovery_turns found) s0 = Some s4"
    unfolding discovery_turns_def run_turns.simps t bind.simps ..
  ultimately show thesis using s0
    by (intro that [of s4 "queue (output_tx (run_manager s0))"])
       (simp_all add: s0_def chan_pushes_def split: sum.split)
qed

text \<open>After a search that failed, the reader takes all there is and waits for more.\<close>

lemma discover_waits:
  assumes "run_looping s" "command_rx (run_manager s) = \<lparr>queue = [], rx_open = True\<rparr>"
    and "output_tx (run_manager s) = \<lparr>queue = msgs, rx_open = True\<rparr>" "list_all no_devices msgs"
  shows "\<exists>x. discover_reads_n (length msgs) \<lparr>dx_run = s, dx_printed = None\<rparr> = Some x \<and>
    dx_printed x = None \<and> discover_reads x = None \<and>
    run_turn e consume FromCaller (dx_run x) = None \<and> run_looping (dx_run x)"
proof -
  from reads_no_devices [of "\<lparr>dx_run = s, dx_printed = None\<rparr>" msgs "[]"] assms obtain x where
    x: "discover_reads_n (length msgs) \<lparr>dx_run = s, dx_printed = None\<rparr> = Some x" "dx_printed x = None"
    "queue (output_tx (run_manager (dx_run x))) = []" "run_looping (dx_run x)"
    "command_rx (run_manager (dx_run x)) = \<lparr>queue = [], rx_open = True\<rparr>" by auto
  then have "discover_reads x = None" "run_turn e consume FromCaller (dx_run x) = None"
    by (simp_all add: discover_reads_def chan_recv_def)
  with x show ?thesis by blast
qed

text \<open>After one that succeeded, it prints the devices and has the manager shut down.\<close>

lemma discover_ends:
  assumes "run_looping s" "fsm_running (run_fsm s)"
    and "command_rx (run_manager s) = \<lparr>queue = [], rx_open = True\<rparr>"
    and "output_tx (run_manager s) =
      \<lparr>queue = msgs @ [DiscoveredDevices devices, IsDiscovering False], rx_open = True\<rparr>"
    and "list_all no_devices msgs"
  shows "\<exists>x. discover_reads_n (length msgs + 1) \<lparr>dx_run = s, dx_printed = None\<rparr> = Some x \<and>
    dx_printed x = Some devices \<and>
    (\<exists>s'. run_turns e consume [FromCaller, FsmCancelled, ShutDownEnds] (dx_run x) = Some s' \<and> run_ended s')"
proof -
  let ?x = "\<lparr>dx_run = s, dx_printed = None\<rparr>"
  from reads_no_devices [of ?x msgs "[DiscoveredDevices devices, IsDiscovering False]"] assms obtain x where
    x: "discover_reads_n (length msgs) ?x = Some x" "dx_printed x = None"
    "queue (output_tx (run_manager (dx_run x))) = [DiscoveredDevices devices, IsDiscovering False]"
    "run_looping (dx_run x)" "fsm_running (run_fsm (dx_run x))"
    "command_rx (run_manager (dx_run x)) = \<lparr>queue = [], rx_open = True\<rparr>" by auto
  let ?s = "manager_step (discover_finish devices) (manager_step (\<lambda>m. m\<lparr>output_tx :=
    (output_tx m)\<lparr>queue := [IsDiscovering False]\<rparr>\<rparr>) (dx_run x))"
  have "discover_reads x = Some \<lparr>dx_run = ?s, dx_printed = Some devices\<rparr>"
    using x(2,3) by (simp add: discover_reads_def chan_recv_def manager_step_def Let_def)
  with x(1) have r: "discover_reads_n (length msgs + 1) ?x = Some \<lparr>dx_run = ?s, dx_printed = Some devices\<rparr>"
    unfolding reads_one_more by simp
  have "queue (command_rx (run_manager ?s)) = [ManagerMessage.ShutDown]"
    using x(6) by (simp add: manager_step_def Let_def discover_finish_def chan_send_def)
  with shut_down_taken [of ?s "[]" e consume] x(4,5)
  have "\<exists>s'. run_turns e consume [FromCaller, FsmCancelled, ShutDownEnds] ?s = Some s' \<and> run_ended s'"
    by simp
  with r show ?thesis
    by (intro exI [of _ "\<lparr>dx_run = ?s, dx_printed = Some devices\<rparr>"]) (simp del: run_turn.simps run_turns.simps)
qed

text \<open>C39: The discover example ends exactly when the search succeeds. After the manager has taken the
  request and the search is over, the client reads what it is sent. If the search found devices,
  none included, the client comes to the list, prints it and asks the manager to shut down, which
  ends the run; if the search failed, the client has read everything and is told nothing more,
  has asked for nothing, and the manager's loop goes on.\<close>

theorem discover_example_outcome:
  "\<exists>s n x. run_turns e consume (discovery_turns found) (dx_run (discover_start e client d)) = Some s \<and>
     discover_reads_n n \<lparr>dx_run = s, dx_printed = None\<rparr> = Some x \<and>
     (case found of
        Inr devices \<Rightarrow> dx_printed x = Some devices \<and>
          (\<exists>s'. run_turns e consume [FromCaller, FsmCancelled, ShutDownEnds] (dx_run x) = Some s' \<and>
             run_ended s')
      | Inl _ \<Rightarrow> dx_printed x = None \<and> discover_reads x = None \<and>
          run_turn e consume FromCaller (dx_run x) = None \<and> run_looping (dx_run x))"
proof -
  obtain s msgs where s: "run_turns e consume (discovery_turns found) (dx_run (discover_start e client d)) = Some s"
    "run_looping s" "fsm_running (run_fsm s)"
    "command_rx (run_manager s) = \<lparr>queue = [], rx_open = True\<rparr>" "list_all no_devices msgs"
    and out: "output_tx (run_manager s) = \<lparr>queue = msgs @ IsDiscovering True #
       (case found of Inr devices \<Rightarrow> [DiscoveredDevices devices]
        | Inl err \<Rightarrow> [Error (Discovery (''Discovery failed: '' @ err))]) @ [IsDiscovering False],
       rx_open = True\<rparr>"
    by (rule discovery_runs)
  show ?thesis
  proof (cases found)
    case (Inl err)
    let ?msgs = "msgs @ [IsDiscovering True, Error (Discovery (''Discovery failed: '' @ err)), IsDiscovering False]"
    have "list_all no_devices ?msgs" using s(5) by (simp add: no_devices_def)
    with discover_waits [OF s(2,4), of ?msgs e consume] out Inl obtain x where
      "discover_reads_n (length ?msgs) \<lparr>dx_run = s, dx_printed = None\<rparr> = Some x" "dx_printed x = None"
      "discover_reads x = None" "run_turn e consume FromCaller (dx_run x) = None" "run_looping (dx_run x)"
      by auto
    with Inl s(1) show ?thesis
      by (intro exI [of _ s] exI [of _ "length ?msgs"] exI [of _ x]) (simp del: run_turn.simps)
  next
    case (Inr devices)
    let ?msgs = "msgs @ [IsDiscovering True]"
    have "list_all no_devices ?msgs" using s(5) by (simp add: no_devices_def)
    with discover_ends [OF s(2-4), of ?msgs devices e consume] out Inr obtain x where
      "discover_reads_n (length ?msgs + 1) \<lparr>dx_run = s, dx_printed = None\<rparr> = Some x"
      "dx_printed x = Some devices"
      "\<exists>s'. run_turns e consume [FromCaller, FsmCancelled, ShutDownEnds] (dx_run x) = Some s' \<and> run_ended s'"
      by auto
    with Inr s(1) show ?thesis
      by (intro exI [of _ s] exI [of _ "length ?msgs + 1"] exI [of _ x])
         (simp del: run_turn.simps run_turns.simps)
  qed
qed

end
