(* ===== verification/Unit_Tests.thy ===== *)
theory Unit_Tests
  imports Discovery Tv_State State_Machine
begin

text \<open>
  The unit tests of the repository, from the \<open>tests\<close> modules of \<open>tv_commands.rs\<close>, \<open>helpers.rs\<close>,
  \<open>connection_settings.rs\<close>, \<open>state.rs\<close>, \<open>state_machine.rs\<close> and \<open>discovery.rs\<close>: what each asserts
  of the program, stated of the model. The expected texts are those of the sources. The model
  passes all of them; where a test goes through \<open>serde_json\<close> or the \<open>url\<close> crate, what they are
  documented to do on the texts of the test is a hypothesis.
\<close>

section \<open>What the tests need of the crates\<close>

text \<open>\<open>serde_json::to_string\<close>: the compact text of a value, keys in the order they have.\<close>

definition json_escape :: "char \<Rightarrow> string" where
  "json_escape c =
     (let n = (of_char c :: nat) in
      if n = 34 \<or> n = 92 then [CHR 0x5C, c]
      else if n = 8 then [CHR 0x5C, CHR ''b'']
      else if n = 9 then [CHR 0x5C, CHR ''t'']
      else if n = 10 then [CHR 0x5C, CHR ''n'']
      else if n = 12 then [CHR 0x5C, CHR ''f'']
      else if n = 13 then [CHR 0x5C, CHR ''r'']
      else if n < 32 then [CHR 0x5C] @ ''u00'' @ [hex_digit (n div 16), hex_digit (n mod 16)]
      else [c])"

definition json_quote :: "string \<Rightarrow> string" where
  "json_quote s = [CHR 0x22] @ concat (map json_escape s) @ [CHR 0x22]"

fun commas :: "string list \<Rightarrow> string" where
  "commas [] = []"
| "commas [t] = t"
| "commas (t # ts) = t @ '','' @ commas ts"

fun compact_json :: "json \<Rightarrow> string" where
  "compact_json JNull = ''null''"
| "compact_json (JBool b) = show_bool b"
| "compact_json (JInt i) = (if i < 0 then ''-'' else []) @ show_nat (nat \<bar>i\<bar>)"
| "compact_json (JFloat t) = t"
| "compact_json (JStr s) = json_quote s"
| "compact_json (JArr js) = ''['' @ commas (map compact_json js) @ '']''"
| "compact_json (JObj m) = ''{'' @ commas (map (\<lambda>(k, j). json_quote k @ '':'' @ compact_json j) m) @ ''}''"

text \<open>
  The \<open>url\<close> crate on a URL written as scheme, host, perhaps a port, and path: it is parsed, the
  parts are read off and the port may be replaced; the serialization is the same text, with the
  path \<open>/\<close> where there was none.
\<close>

definition url_text :: "string \<Rightarrow> string \<Rightarrow> u16 option \<Rightarrow> string \<Rightarrow> string" where
  "url_text scheme host port path = scheme @ ''://'' @ host @
     (case port of None \<Rightarrow> [] | Some p \<Rightarrow> '':'' @ show_nat (unat p)) @ path"

definition root_path :: "string \<Rightarrow> string" where
  "root_path path = (if path = [] then ''/'' else path)"

definition url_written :: "'u ext \<Rightarrow> string \<Rightarrow> string \<Rightarrow> u16 option \<Rightarrow> string \<Rightarrow> bool" where
  "url_written e scheme host port path \<longleftrightarrow> (case url_parse e (url_text scheme host port path) of
       Inl _ \<Rightarrow> False
     | Inr u \<Rightarrow> url_scheme e u = scheme \<and> url_port e u = port \<and>
         url_to_string e u = url_text scheme host port (root_path path) \<and>
         (\<forall>p \<in> {3000, 3001}. case url_set_port e u (Some p) of
            Inl _ \<Rightarrow> False
          | Inr u' \<Rightarrow> url_to_string e u' = url_text scheme host (Some p) (root_path path)))"

definition tests_urls_parsed :: "'u ext \<Rightarrow> bool" where
  "tests_urls_parsed e \<longleftrightarrow>
     (\<forall>scheme \<in> {''ws'', ''wss'', ''http''}.
      \<forall>host \<in> {''127.0.0.1'', ''something'', ''[fd12:3456:789a:1::1]''}.
      \<forall>port \<in> {None, Some 8080}. \<forall>path \<in> {[], ''/foo''}. url_written e scheme host port path)"

section \<open>Commands\<close>

text \<open>\<open>generate_lgtv_message_id\<close> in a test build.\<close>

definition generate_lgtv_message_id_test :: string where
  "generate_lgtv_message_id_test = ''test-id''"

text \<open>The tests of requests without arguments.\<close>

definition payload_tests :: "(TvCommand \<times> string) list" where \<open>
  payload_tests = [
     (TvCommand.GetCurrentSWInfo, ''{"type":"request","id":"test-id",'' @
       ''"uri":"ssap://com.webos.service.update/getCurrentSWInformation","payload":null}''),
     (TvCommand.GetExternalInputList, ''{"type":"request","id":"test-id",'' @
       ''"uri":"ssap://tv/getExternalInputList","payload":null}''),
     (TvCommand.GetPowerState, ''{"type":"request","id":"test-id",'' @
       ''"uri":"ssap://com.webos.service.tvpower/power/getPowerState","payload":null}''),
     (TvCommand.GetSystemInfo, ''{"type":"request","id":"test-id",'' @
       ''"uri":"ssap://system/getSystemInfo","payload":null}''),
     (TvCommand.GetVolume, ''{"type":"request","id":"test-id",'' @
       ''"uri":"ssap://audio/getVolume","payload":null}''),
     (TvCommand.MediaFastForward, ''{"type":"request","id":"test-id",'' @
       ''"uri":"ssap://media.controls/fastForward","payload":null}''),
     (TvCommand.MediaPause, ''{"type":"request","id":"test-id",'' @
       ''"uri":"ssap://media.controls/pause","payload":null}''),
     (TvCommand.MediaPlay, ''{"type":"request","id":"test-id",'' @
       ''"uri":"ssap://media.controls/play","payload":null}''),
     (TvCommand.MediaRewind, ''{"type":"request","id":"test-id",'' @
       ''"uri":"ssap://media.controls/rewind","payload":null}''),
     (TvCommand.MediaStop, ''{"type":"request","id":"test-id",'' @
       ''"uri":"ssap://media.controls/stop","payload":null}'')]\<close>

text \<open>The tests of requests with arguments, of subscriptions and of the last commands.\<close>

definition payload_tests_more :: "(TvCommand \<times> string) list" where \<open>
  payload_tests_more = [
     (TvCommand.SetMute True, ''{"type":"request","id":"test-id",'' @
       ''"uri":"ssap://audio/setMute","payload":{"mute":true}}''),
     (TvCommand.SetMute False, ''{"type":"request","id":"test-id",'' @
       ''"uri":"ssap://audio/setMute","payload":{"mute":false}}''),
     (TvCommand.SetScreenOn True, ''{"type":"request","id":"test-id",'' @
       ''"uri":"ssap://com.webos.service.tvpower/power/turnOnScreen","payload":{"standbyMode":"active"}}''),
     (TvCommand.SetScreenOn False, ''{"type":"request","id":"test-id",'' @
       ''"uri":"ssap://com.webos.service.tvpower/power/turnOffScreen","payload":{"standbyMode":"active"}}''),
     (TvCommand.SetVolume 10, ''{"type":"request","id":"test-id",'' @
       ''"uri":"ssap://audio/setVolume","payload":{"volume":10}}''),
     (TvCommand.SubscribeGetVolume, ''{"type":"subscribe","id":"get_volume_subscription",'' @
       ''"uri":"ssap://audio/getVolume","payload":null}''),
     (TvCommand.SubscribeGetPowerState, ''{"type":"subscribe","id":"get_power_state_subscription",'' @
       ''"uri":"ssap://com.webos.service.tvpower/power/getPowerState","payload":null}''),
     (TvCommand.SwitchInput ''test_input'', ''{"type":"request","id":"test-id",'' @
       ''"uri":"ssap://tv/switchInput","payload":{"inputId":"test_input"}}''),
     (TvCommand.TurnOff, ''{"type":"request","id":"test-id",'' @
       ''"uri":"ssap://system/turnOff","payload":null}''),
     (TvCommand.VolumeDown, ''{"type":"request","id":"test-id",'' @
       ''"uri":"ssap://audio/volumeDown","payload":null}''),
     (TvCommand.VolumeUp, ''{"type":"request","id":"test-id",'' @
       ''"uri":"ssap://audio/volumeUp","payload":null}'')]\<close>

definition tvcommand_display :: "(TvCommand \<times> string) list" where \<open>
  tvcommand_display = [
     (TvCommand.GetCurrentSWInfo, ''GetCurrentSWInfo''),
     (TvCommand.GetExternalInputList, ''GetExternalInputList''),
     (TvCommand.GetPowerState, ''GetPowerState''),
     (TvCommand.GetSystemInfo, ''GetSystemInfo''),
     (TvCommand.GetVolume, ''GetVolume''),
     (TvCommand.MediaFastForward, ''MediaFastForward''),
     (TvCommand.MediaPause, ''MediaPause''),
     (TvCommand.MediaPlay, ''MediaPlay''),
     (TvCommand.MediaRewind, ''MediaRewind''),
     (TvCommand.MediaStop, ''MediaStop''),
     (TvCommand.SetMute True, ''SetMute(true)''),
     (TvCommand.SetMute False, ''SetMute(false)''),
     (TvCommand.SetScreenOn True, ''SetScreenOn(true)''),
     (TvCommand.SetScreenOn False, ''SetScreenOn(false)''),
     (TvCommand.SetVolume 10, ''SetVolume(10)''),
     (TvCommand.SubscribeGetVolume, ''SubscribeGetVolume''),
     (TvCommand.SwitchInput ''test_input'', ''SwitchInput(test_input)''),
     (TvCommand.TurnOff, ''TurnOff''),
     (TvCommand.VolumeDown, ''VolumeDown''),
     (TvCommand.VolumeUp, ''VolumeUp'')]\<close>

definition payload_test_passes :: "'u ext \<Rightarrow> TvCommand \<times> string \<Rightarrow> bool" where
  "payload_test_passes e test \<longleftrightarrow> (case test of (command, text) \<Rightarrow>
     command_payload (\<lambda>j. case json_to_text e j of Inl _ \<Rightarrow> None | Inr t \<Rightarrow> Some t)
       generate_lgtv_message_id_test command = text)"

definition tv_commands_tests :: "'u ext \<Rightarrow> bool" where
  "tv_commands_tests e \<longleftrightarrow> list_all (payload_test_passes e) payload_tests \<and>
     list_all (payload_test_passes e) payload_tests_more \<and>
     list_all (\<lambda>(command, text). display_command command = text) tvcommand_display"

section \<open>Helpers\<close>

definition valid_websocket_url_generation :: "'u ext \<Rightarrow> bool" where
  "valid_websocket_url_generation e \<longleftrightarrow>
     list_all (\<lambda>(in_str, is_tls, url). generate_possible_websocket_url e in_str is_tls = Inr url)
       [(''ws://127.0.0.1:8080'', False, ''ws://127.0.0.1:8080/''),
        (''wss://127.0.0.1:8080'', True, ''wss://127.0.0.1:8080/''),
        (''127.0.0.1'', True, ''wss://127.0.0.1:3001/''),
        (''something'', True, ''wss://something:3001/''),
        (''127.0.0.1'', False, ''ws://127.0.0.1:3000/''),
        (''something'', False, ''ws://something:3000/''),
        (''[fd12:3456:789a:1::1]'', True, ''wss://[fd12:3456:789a:1::1]:3001/''),
        (''[fd12:3456:789a:1::1]'', False, ''ws://[fd12:3456:789a:1::1]:3000/''),
        (''wss://127.0.0.1:8080/foo'', True, ''wss://127.0.0.1:8080/foo''),
        (''127.0.0.1/foo'', True, ''wss://127.0.0.1:3001/foo''),
        (''[fd12:3456:789a:1::1]/foo'', False, ''ws://[fd12:3456:789a:1::1]:3000/foo'')]"

definition is_err :: "'a result \<Rightarrow> bool" where
  "is_err r = (case r of Inl _ \<Rightarrow> True | Inr _ \<Rightarrow> False)"

definition invalid_websocket_url_generation :: "'u ext \<Rightarrow> bool" where
  "invalid_websocket_url_generation e \<longleftrightarrow>
     list_all (\<lambda>(in_str, is_tls). is_err (generate_possible_websocket_url e in_str is_tls))
       [(''http://127.0.0.1'', True), (''http://127.0.0.1'', False), ([], True), ([], False),
        (''ws://127.0.0.1:8080'', True), (''wss://127.0.0.1:8080'', False)]"

definition reconnect_falloff_results :: bool where
  "reconnect_falloff_results \<longleftrightarrow>
     list_all (\<lambda>(attempt, delay). reconnect_falloff attempt 250 10000 = delay)
       [(0, 250), (1, 250), (2, 256), (3, 512), (10000, 10000)]"

section \<open>Settings, states and devices\<close>

definition connection_settings_default :: bool where
  "connection_settings_default \<longleftrightarrow> default_settings =
     \<lparr>cs_is_tls = True, cs_client_key = None, cs_force_pairing = False,
      cs_initial_connect_retries = False, cs_auto_reconnect = False\<rparr>"

definition connection_settings_builder :: bool where
  "connection_settings_builder \<longleftrightarrow>
     csb_build (with_auto_reconnect (with_initial_connect_retries (with_forced_pairing
       (with_client_key (with_no_tls csb_new) ''test-key'')))) =
     \<lparr>cs_is_tls = False, cs_client_key = Some ''test-key'', cs_force_pairing = True,
      cs_initial_connect_retries = True, cs_auto_reconnect = True\<rparr>"

definition default_settings_text :: string where
  "default_settings_text = '', ConnectionSettings { is_tls: true, client_key: None, '' @
     ''force_pairing: false, initial_connect_retries: false, auto_reconnect: false }''"

definition connection_display_host :: bool where
  "connection_display_host \<longleftrightarrow>
     display_connection (Host ''127.0.0.1'' default_settings) =
       ''Connection to host '' @ quote_char @ ''127.0.0.1'' @ quote_char @ default_settings_text"

definition test_device :: LgTvDevice where
  "test_device = \<lparr>dev_friendly_name = ''LG WebOS TV'', dev_model = ''model'', dev_model_number = None,
     dev_serial_number = None, dev_url = ''http://38.0.101.76:3000'',
     dev_udn = ''uuid:00000000-0000-0000-0000-000000000000'', dev_mac_addr = None\<rparr>"

definition connection_display_device :: bool where
  "connection_display_device \<longleftrightarrow>
     display_connection (Device test_device default_settings) =
       ''Connection to UPnP device '' @ quote_char @ ''LG WebOS TV'' @ quote_char @
       default_settings_text"

definition lgtvdevice_display :: bool where
  "lgtvdevice_display \<longleftrightarrow>
     display_device test_device = ''LG WebOS TV (model) [uuid:00000000-0000-0000-0000-000000000000]''"

definition tv_state_default_test :: bool where
  "tv_state_default_test \<longleftrightarrow> tv_state_default =
     \<lparr>ts_power_state = None, ts_volume = None, ts_is_muted = None, ts_is_screen_on = None,
      ts_is_volume_settable = None\<rparr>"

text \<open>The test starts from JSON text; here from the value that text is.\<close>

definition system_info_json :: json where
  "system_info_json = JObj
     [(''returnValue'', JBool True), (''features'', JObj [(''dvr'', JBool False)]),
      (''receiverType'', JStr ''TEST_RECEIVER_TYPE''), (''modelName'', JStr ''TEST_MODEL_NAME''),
      (''serialNumber'', JStr ''TEST_SERIAL_NUMBER''), (''programMode'', JBool True)]"

definition tv_info_from_get_system_info_payload :: bool where
  "tv_info_from_get_system_info_payload \<longleftrightarrow>
     map_option tv_info_from (de_GetSystemInfoPayload system_info_json) = Some
       \<lparr>ti_receiver_type = ''TEST_RECEIVER_TYPE'', ti_model_name = ''TEST_MODEL_NAME'',
        ti_serial_number = Some ''TEST_SERIAL_NUMBER'', ti_program_mode = True\<rparr>"

definition state_display :: bool where
  "state_display \<longleftrightarrow> display_command TvCommand.GetCurrentSWInfo = ''GetCurrentSWInfo'' \<and>
     list_all (\<lambda>(state, text). display_state state = text)
       [(State.Disconnected, ''Disconnected''),
        (Connecting ''wss://127.0.0.1:3001/'', ''Connecting(wss://127.0.0.1:3001/)''),
        (Connected ''wss://127.0.0.1:3001/'', ''Connected(wss://127.0.0.1:3001/)''),
        (Pairing ''wss://127.0.0.1:3001/'', ''Pairing(wss://127.0.0.1:3001/)''),
        (Initializing ''wss://127.0.0.1:3001/'', ''Initializing(wss://127.0.0.1:3001/)''),
        (Communicating ''wss://127.0.0.1:3001/'', ''Communicating(wss://127.0.0.1:3001/)''),
        (Disconnecting ''wss://127.0.0.1:3001/'', ''Disconnecting(wss://127.0.0.1:3001/)''),
        (Zombie, ''Zombie'')]"

section \<open>The model passes\<close>

lemma payload_tests_pass:
  "list_all (\<lambda>(c, t). command_payload (\<lambda>j. Some (compact_json j)) ''test-id'' c = t) payload_tests"
  by code_simp

lemma payload_tests_more_pass:
  "list_all (\<lambda>(c, t). command_payload (\<lambda>j. Some (compact_json j)) ''test-id'' c = t)
     payload_tests_more"
  by code_simp

lemma tvcommand_display_pass:
  "list_all (\<lambda>(command, text). display_command command = text) tvcommand_display"
  by code_simp

lemma tv_commands_tests_pass:
  assumes "json_to_text e = (\<lambda>j. Inr (compact_json j))"
  shows "tv_commands_tests e"
proof -
  have "payload_test_passes e =
      (\<lambda>(c, t). command_payload (\<lambda>j. Some (compact_json j)) ''test-id'' c = t)"
    by (rule ext) (simp add: payload_test_passes_def assms generate_lgtv_message_id_test_def split: prod.split)
  then show ?thesis
    unfolding tv_commands_tests_def
    using payload_tests_pass payload_tests_more_pass tvcommand_display_pass by simp
qed

lemma show_8080: "show_nat 8080 = ''8080''"
  by (simp add: show_nat.simps char_of_def bit_Suc_0_iff)

lemmas url_texts = url_text_def root_path_def show_port show_8080

text \<open>What is known of a URL written with one of the schemes the tests use.\<close>

lemma url_of_text:
  assumes "url_written e scheme host port path"
  obtains u where "url_parse e (url_text scheme host port path) = Inr u" "url_scheme e u = scheme"
    "url_port e u = port" "url_to_string e u = url_text scheme host port (root_path path)"
    "\<And>p. p \<in> {3000, 3001} \<Longrightarrow> \<exists>u'. url_set_port e u (Some p) = Inr u' \<and>
      url_to_string e u' = url_text scheme host (Some p) (root_path path)"
  using assms unfolding url_written_def by (auto split: sum.splits)

lemma websocket_url_of_text:
  assumes "url_written e (tls_scheme is_tls) host port path"
    "in_str \<noteq> []" "add_scheme in_str is_tls = url_text (tls_scheme is_tls) host port path"
  shows "generate_possible_websocket_url e in_str is_tls = Inr (url_text (tls_scheme is_tls) host
    (Some (case port of Some p \<Rightarrow> p | None \<Rightarrow> tv_port is_tls)) (root_path path))"
proof -
  from assms(1) obtain u where u: "url_parse e (add_scheme in_str is_tls) = Inr u"
    "url_scheme e u = tls_scheme is_tls" "url_port e u = port"
    "url_to_string e u = url_text (tls_scheme is_tls) host port (root_path path)"
    and p: "\<And>p. p \<in> {3000, 3001} \<Longrightarrow> \<exists>u'. url_set_port e u (Some p) = Inr u' \<and>
      url_to_string e u' = url_text (tls_scheme is_tls) host (Some p) (root_path path)"
    using assms(3) by (elim url_of_text) metis
  from p [of "tv_port is_tls"] obtain u' where "url_set_port e u (Some (tv_port is_tls)) = Inr u'"
    "url_to_string e u' = url_text (tls_scheme is_tls) host (Some (tv_port is_tls)) (root_path path)"
    by (cases is_tls) (auto simp: tv_port_def)
  with u assms(2) show ?thesis
    by (cases is_tls; cases port)
       (simp_all add: generate_possible_websocket_url_def with_port_def tls_scheme_def tv_port_def)
qed

lemma wrong_scheme_refused:
  assumes "url_written e scheme host port path" "in_str \<noteq> []" "scheme \<noteq> tls_scheme is_tls"
    "add_scheme in_str is_tls = url_text scheme host port path"
  shows "is_err (generate_possible_websocket_url e in_str is_tls)"
proof -
  from assms(1) obtain u where "url_parse e (add_scheme in_str is_tls) = Inr u" "url_scheme e u = scheme"
    using assms(4) by (elim url_of_text) metis
  with assms(2,3) show ?thesis
    by (cases is_tls)
       (simp_all add: generate_possible_websocket_url_def is_err_def tls_scheme_def)
qed

lemma empty_refused: "is_err (generate_possible_websocket_url e [] is_tls)"
  by (simp add: generate_possible_websocket_url_def is_err_def)

lemma tests_urlD:
  assumes "tests_urls_parsed e" "scheme \<in> {''ws'', ''wss'', ''http''}"
    "host \<in> {''127.0.0.1'', ''something'', ''[fd12:3456:789a:1::1]''}"
    "port \<in> {None, Some 8080}" "path \<in> {[], ''/foo''}"
  shows "url_written e scheme host port path"
  using assms unfolding tests_urls_parsed_def by blast

lemma valid_urls_pass:
  assumes "tests_urls_parsed e"
  shows "valid_websocket_url_generation e"
proof -
  have url: "generate_possible_websocket_url e in_str is_tls = Inr url"
    if "host \<in> {''127.0.0.1'', ''something'', ''[fd12:3456:789a:1::1]''}"
      "port \<in> {None, Some 8080}" "path \<in> {[], ''/foo''}" "in_str \<noteq> []"
      "add_scheme in_str is_tls = url_text (tls_scheme is_tls) host port path"
      "url = url_text (tls_scheme is_tls) host
        (Some (case port of Some p \<Rightarrow> p | None \<Rightarrow> tv_port is_tls)) (root_path path)"
    for in_str is_tls host port path url
  proof -
    have "url_written e (tls_scheme is_tls) host port path"
      using that by (intro tests_urlD [OF assms]) (auto simp: tls_scheme_def)
    from websocket_url_of_text [OF this that(4,5)] that(6) show ?thesis by simp
  qed
  note simps = add_scheme_def tls_scheme_def tv_port_def url_texts
  show ?thesis
    unfolding valid_websocket_url_generation_def list.pred_inject prod.case
    by (intro conjI TrueI
        url [of "''127.0.0.1''" "Some 8080" "[]" "''ws://127.0.0.1:8080''" False]
        url [of "''127.0.0.1''" "Some 8080" "[]" "''wss://127.0.0.1:8080''" True]
        url [of "''127.0.0.1''" None "[]" "''127.0.0.1''" True]
        url [of "''127.0.0.1''" None "[]" "''127.0.0.1''" False]
        url [of "''something''" None "[]" "''something''" True]
        url [of "''something''" None "[]" "''something''" False]
        url [of "''[fd12:3456:789a:1::1]''" None "[]" "''[fd12:3456:789a:1::1]''" True]
        url [of "''[fd12:3456:789a:1::1]''" None "[]" "''[fd12:3456:789a:1::1]''" False]
        url [of "''127.0.0.1''" "Some 8080" "''/foo''" "''wss://127.0.0.1:8080/foo''" True]
        url [of "''127.0.0.1''" None "''/foo''" "''127.0.0.1/foo''" True]
        url [of "''[fd12:3456:789a:1::1]''" None "''/foo''" "''[fd12:3456:789a:1::1]/foo''" False])
      (simp_all add: simps)
qed

lemma invalid_urls_pass:
  assumes "tests_urls_parsed e"
  shows "invalid_websocket_url_generation e"
proof -
  have refused: "is_err (generate_possible_websocket_url e in_str is_tls)"
    if "scheme \<in> {''ws'', ''wss'', ''http''}" "port \<in> {None, Some 8080}" "in_str \<noteq> []"
      "scheme \<noteq> tls_scheme is_tls" "add_scheme in_str is_tls = url_text scheme ''127.0.0.1'' port []"
    for in_str is_tls scheme port
    using that by (intro wrong_scheme_refused [OF tests_urlD [OF assms], of scheme]) auto
  show ?thesis
    unfolding invalid_websocket_url_generation_def list.pred_inject prod.case
    by (intro conjI TrueI empty_refused
        refused [of "''http''" None "''http://127.0.0.1''"]
        refused [of "''ws''" "Some 8080" "''ws://127.0.0.1:8080''"]
        refused [of "''wss''" "Some 8080" "''wss://127.0.0.1:8080''"])
      (simp_all add: add_scheme_def tls_scheme_def url_texts)
qed

lemma other_tests_pass:
  "connection_settings_default" "connection_settings_builder" "connection_display_host"
  "connection_display_device" "lgtvdevice_display" "tv_state_default_test"
  "tv_info_from_get_system_info_payload" "state_display"
  by code_simp+

lemma reconnect_falloff_results_pass: "reconnect_falloff_results"
proof -
  have "(10000 :: nat) \<le> 2 ^ 14" by simp
  also have "(2 :: nat) ^ 14 \<le> 2 ^ 10006" by (intro power_increasing) simp_all
  finally have large: "(10000 :: nat) \<le> 2 ^ 10006" .
  have "reconnect_falloff 10000 250 10000 = max (min (2 ^ 10006) 10000) 250"
    by (simp add: reconnect_falloff_eq)
  with large have "reconnect_falloff 10000 250 10000 = 10000" by simp
  then show ?thesis
    unfolding reconnect_falloff_results_def by (simp add: reconnect_falloff_eq [of 10000 250 0]
        reconnect_falloff_eq [of 10000 250 1] reconnect_falloff_eq [of 10000 250 2]
        reconnect_falloff_eq [of 10000 250 3])
qed


text \<open>An instance: a small parser of such URLs, and the compact JSON text.\<close>

type_synonym test_url = "string \<times> string \<times> u16 option \<times> string"

definition test_parse :: "string \<Rightarrow> (string \<times> string) + test_url" where
  "test_parse s =
     (let scheme = takeWhile (\<lambda>c. c \<noteq> CHR '':'') s;
          rest = drop (length scheme + 3) s;
          authority = takeWhile (\<lambda>c. c \<noteq> CHR ''/'') rest;
          path = drop (length authority) rest;
          host = take (length authority - 5) authority
      in Inr (if drop (length host) authority = '':8080'' then (scheme, host, Some 8080, path)
              else (scheme, authority, None, path)))"

definition test_ext :: "test_url ext" where
  "test_ext =
    \<lparr>url_parse = test_parse, url_scheme = fst, url_port = (\<lambda>u. fst (snd (snd u))),
     url_set_port = (\<lambda>(s, h, _, t) p. Inr (s, h, p, t)), url_host = (\<lambda>u. Some (Domain (fst (snd u)))),
     url_host_str = (\<lambda>u. Some (fst (snd u))),
     url_to_string = (\<lambda>(s, h, p, t). url_text s h p (root_path t)),
     mac_from_str = mac_from_str demo_ext, mac_to_string = mac_to_string demo_ext,
     json_to_text = (\<lambda>j. Inr (compact_json j)), json_from_text = json_from_text demo_ext,
     json_error = json_error demo_ext, fresh_uuid = fresh_uuid demo_ext,
     register_payload = register_payload demo_ext, feedback_clock = feedback_clock demo_ext,
     join_events = join_events demo_ext, wol_mac = wol_mac demo_ext, send_wol = send_wol demo_ext\<rparr>"

lemma test_parse_text:
  assumes "CHR '':'' \<notin> set scheme" "CHR ''/'' \<notin> set host" "path = [] \<or> path = ''/foo''"
    "port = None \<and> drop (length host - 5) host \<noteq> '':8080'' \<or> port = Some 8080"
  shows "test_parse (url_text scheme host port path) = Inr (scheme, host, port, path)"
proof -
  define a where "a = host @ (case port of None \<Rightarrow> [] | Some p \<Rightarrow> '':'' @ show_nat (unat p))"
  have written: "url_text scheme host port path = scheme @ ''://'' @ a @ path"
    by (simp add: url_text_def a_def)
  have "CHR ''/'' \<notin> set a" using assms(2,4) by (auto simp: a_def show_8080)
  then have authority: "takeWhile (\<lambda>c. c \<noteq> CHR ''/'') (a @ path) = a"
    using assms(3) by (subst takeWhile_append2) auto
  have scheme: "takeWhile (\<lambda>c. c \<noteq> CHR '':'') (scheme @ ''://'' @ a @ path) = scheme"
    using assms(1) by (subst takeWhile_append2) auto
  from assms(4) show ?thesis
    unfolding written test_parse_def Let_def scheme
    by (auto simp: authority) (auto simp: a_def show_8080 split: if_splits)
qed

lemma test_ext_urls: "tests_urls_parsed test_ext"
proof -
  have "url_written test_ext scheme host port path"
    if "scheme \<in> {''ws'', ''wss'', ''http''}"
      "host \<in> {''127.0.0.1'', ''something'', ''[fd12:3456:789a:1::1]''}"
      "port \<in> {None, Some 8080}" "path \<in> {[], ''/foo''}" for scheme host port path
  proof -
    have "test_parse (url_text scheme host port path) = Inr (scheme, host, port, path)"
      using that by (intro test_parse_text) auto
    then show ?thesis by (simp add: url_written_def test_ext_def)
  qed
  then show ?thesis unfolding tests_urls_parsed_def by blast
qed


end
